theory Spec2Isabelle
  imports Main "HOL-Library.Word"
begin

unbundle bit_operations_syntax

section \<open>Data model of the UFS host controller driver (ufshcd.c)\<close>

text \<open>
  The driver keeps all of its state in one \<open>struct ufs_hba\<close>. The model is a record with
  the fields the command-slot manager, the completion path, the link-control channel, the
  clock-gating machine and the scaling controller read or write. Machine integers are
  words: \<open>unsigned long\<close> is 64 bits wide on the arm64 targets of this kernel tree,
  \<open>u32\<close> and \<open>int\<close> are 32 bits wide. Time stamps and the log messages of
  \<open>dev_err\<close> and the trace points carry no control flow and are left out.

  Everything the driver does to the outside (register writes, memory barriers, calls
  back into the SCSI mid layer, work items queued) is appended, in program order, to the
  event log \<open>evlog\<close> of the adapter. Values read from the hardware (the doorbell register,
  the outcome of a wait) and the results of the collaborators (clock framework, vendor
  hooks) are arguments of the functions that use them.
\<close>

type_synonym ulong = "64 word"
type_synonym u32 = "32 word"
type_synonym cint = "32 word"

datatype clk_gate_state = CLKS_OFF | CLKS_ON | REQ_CLKS_OFF | REQ_CLKS_ON | CLKS_INVALID

datatype ufshcd_state_t =
    UFSHCD_STATE_RESET
  | UFSHCD_STATE_ERROR
  | UFSHCD_STATE_OPERATIONAL
  | UFSHCD_STATE_EH_SCHEDULED_FATAL
  | UFSHCD_STATE_EH_SCHEDULED_NON_FATAL
  | UFSHCD_STATE_INVALID

datatype uic_link_state_t =
    UIC_LINK_OFF_STATE | UIC_LINK_ACTIVE_STATE | UIC_LINK_HIBERN8_STATE | UIC_LINK_BROKEN_STATE

text \<open>The command types of a transfer request. The header gives \<open>UTP_CMD_TYPE_UFS\<close> and
  \<open>UTP_CMD_TYPE_UFS_STORAGE\<close> the same value, so they are one constructor.\<close>

datatype utp_cmd_type =
    UTP_CMD_TYPE_SCSI | UTP_CMD_TYPE_UFS_STORAGE | UTP_CMD_TYPE_DEV_MANAGE

abbreviation (input) UTP_CMD_TYPE_UFS :: utp_cmd_type where
  "UTP_CMD_TYPE_UFS \<equiv> UTP_CMD_TYPE_UFS_STORAGE"

datatype dev_cmd_type_t = DEV_CMD_TYPE_NOP | DEV_CMD_TYPE_QUERY

datatype irqreturn = IRQ_NONE | IRQ_HANDLED

text \<open>A SCSI command as the mid layer hands it over: \<open>cmd_tag\<close> is \<open>cmd->request->tag\<close>,
  \<open>cmd_opcode\<close> is \<open>cmd->cmnd[0]\<close>.\<close>

record scsi_cmnd =
  cmd_id :: nat
  cmd_tag :: int
  cmd_opcode :: "8 word"
  cmd_requeue_cnt :: nat
  cmd_result :: cint

text \<open>A slot (local reference block). The three header words of the response UPIU and
  the status word of the transfer request descriptor are kept in CPU byte order.\<close>

record ufshcd_lrb =
  lrb_cmd :: "scsi_cmnd option"
  command_type :: utp_cmd_type
  task_tag :: nat
  req_abort_skip :: bool
  utrd_dword_2 :: u32
  rsp_dword_0 :: u32
  rsp_dword_1 :: u32
  rsp_dword_2 :: u32

record uic_command =
  uic_opcode :: u32
  argument1 :: u32
  argument2 :: u32
  argument3 :: u32
  cmd_active :: bool
  uic_done :: bool

record ufs_pa_layer_attr =
  gear_rx :: u32
  gear_tx :: u32
  lane_rx :: u32
  lane_tx :: u32
  pwr_rx :: u32
  pwr_tx :: u32
  hs_rate :: u32

text \<open>One entry of the clock list: \<open>clk_present\<close> is \<open>!IS_ERR_OR_NULL(clki->clk)\<close>,
  \<open>clk_is_ice_hw_ctl\<close> says that the name is \<open>core_clk_ice_hw_ctl\<close>.\<close>

record ufs_clk_info =
  clk_present :: bool
  clk_is_ice_hw_ctl :: bool
  min_freq :: u32
  max_freq :: u32
  curr_freq :: u32

datatype event =
    Ev_wmb
  | Ev_doorbell_write u32
  | Ev_set_outstanding nat
  | Ev_setup_xfer_req nat bool
  | Ev_prepare_crypto nat
  | Ev_comp_scsi_upiu nat
  | Ev_comp_devman_upiu nat
  | Ev_map_sg nat
  | Ev_scsi_dma_unmap nat
  | Ev_scsi_done scsi_cmnd
  | Ev_complete_dev_cmd
  | Ev_copy_sense_data nat
  | Ev_schedule_eeh_work
  | Ev_vops_compl_xfer_req nat bool
  | Ev_reset_intr_aggr
  | Ev_wake_up_tag_wq
  | Ev_utrl_clear nat
  | Ev_queue_gate_work
  | Ev_queue_ungate_work
  | Ev_scsi_block_requests
  | Ev_scsi_unblock_requests
  | Ev_queue_resume_work
  | Ev_hibern8_enter
  | Ev_disable_irq
  | Ev_setup_clocks_off
  | Ev_uic_dispatch u32
  | Ev_disable_uccs_intr
  | Ev_enable_uccs_intr
  | Ev_complete_uic_cmd
  | Ev_complete_uic_async
  | Ev_queue_eh_work
  | Ev_down_write
  | Ev_up_write
  | Ev_clk_scale_notify bool bool
  | Ev_clk_set_rate nat u32
  | Ev_pwr_mode_change ufs_pa_layer_attr
  | Ev_wb_ctrl bool

record ufs_hba =
  nutrs :: nat
  lrb :: "nat \<Rightarrow> ufshcd_lrb"
  lrb_in_use :: ulong
  outstanding_reqs :: ulong
  outstanding_tasks :: ulong
  ufshcd_state :: ufshcd_state_t
  pm_op_in_progress :: bool
  force_reset :: bool
  ufs_version_1x :: bool
  clkgating_allowed :: bool
  hibern8_during_gating :: bool
  clkscaling_supported :: bool
  intr_aggr_allowed :: bool
  quirk_skip_reset_intr_aggr :: bool
  quirk_broken_ocs_fatal_error :: bool
  clk_gating_state :: clk_gate_state
  clk_gating_active_reqs :: cint
  clk_gating_is_suspended :: bool
  gate_work_pending :: bool
  ungate_work_pending :: bool
  uic_link_state :: uic_link_state_t
  uic_cmd :: uic_command
  active_uic_cmd :: bool
  uic_async_done :: bool
  uic_async_completed :: bool
  dev_cmd_type :: dev_cmd_type_t
  dev_cmd_complete :: bool
  dev_cmd_done :: bool
  clk_scaling_active_reqs :: cint
  clk_scaling_is_allowed :: bool
  clk_scaling_window_started :: bool
  clk_scaling_is_busy_started :: bool
  pwr_info :: ufs_pa_layer_attr
  saved_pwr_info :: ufs_pa_layer_attr
  clk_list :: "ufs_clk_info list"
  evlog :: "event list"

text \<open>
  Pointers are modelled by what the code asks of them. \<open>lrb_cmd\<close> is the command bound
  to a slot (\<open>None\<close> is \<open>NULL\<close>). At most one link-control command is in flight (the
  callers hold \<open>uic_cmd_mutex\<close>); \<open>uic_cmd\<close> is the caller's \<open>struct uic_command\<close> and
  \<open>active_uic_cmd\<close> says whether \<open>hba->active_uic_cmd\<close> points to it. \<open>uic_async_done\<close>
  and \<open>dev_cmd_complete\<close> say whether the completion pointers of that name are set,
  \<open>uic_async_completed\<close> and \<open>dev_cmd_done\<close> whether \<open>complete\<close> has been called on the
  completions they point to (\<open>uic_done\<close> is the same for the completion inside the
  link-control command). \<open>ufs_version_1x\<close> says that the controller is of UFSHCI
  version 1.0 or 1.1. \<open>gate_work_pending\<close> and \<open>ungate_work_pending\<close> are the pending
  bits of the two work items of the clock-gating machine: \<open>queue_work\<close> succeeds when
  the bit was clear, \<open>cancel_delayed_work\<close> succeeds when the bit was set, and a work
  item clears its bit when it starts to run.
\<close>

definition emit :: "event \<Rightarrow> ufs_hba \<Rightarrow> ufs_hba" where
  "emit e h = h\<lparr>evlog := evlog h @ [e]\<rparr>"

subsection \<open>Constants of the kernel headers\<close>

text \<open>
  The error numbers of \<open>errno.h\<close>, the result codes of the SCSI mid layer
  (\<open>scsi/scsi.h\<close>, \<open>scsi/scsi_proto.h\<close>), and the status codes, transaction codes,
  interrupt bits and masks of \<open>ufshci.h\<close>, \<open>ufs.h\<close> and \<open>unipro.h\<close> that the
  functions below compare with, return or store.
\<close>

definition EPERM :: cint where "EPERM = 1"
definition EIO :: cint where "EIO = 5"
definition EAGAIN :: cint where "EAGAIN = 11"
definition EBUSY :: cint where "EBUSY = 16"
definition EINVAL :: cint where "EINVAL = 22"
definition ENOLINK :: cint where "ENOLINK = 67"
definition ETIMEDOUT :: cint where "ETIMEDOUT = 110"
definition SCSI_MLQUEUE_HOST_BUSY :: cint where "SCSI_MLQUEUE_HOST_BUSY = 0x1055"

definition DID_OK :: cint where "DID_OK = 0x00"
definition DID_BAD_TARGET :: cint where "DID_BAD_TARGET = 0x04"
definition DID_ABORT :: cint where "DID_ABORT = 0x05"
definition DID_ERROR :: cint where "DID_ERROR = 0x07"
definition DID_REQUEUE :: cint where "DID_REQUEUE = 0x0d"
definition COMMAND_COMPLETE :: cint where "COMMAND_COMPLETE = 0x00"

definition SAM_STAT_GOOD :: cint where "SAM_STAT_GOOD = 0x00"
definition SAM_STAT_CHECK_CONDITION :: cint where "SAM_STAT_CHECK_CONDITION = 0x02"
definition SAM_STAT_BUSY :: cint where "SAM_STAT_BUSY = 0x08"
definition SAM_STAT_TASK_SET_FULL :: cint where "SAM_STAT_TASK_SET_FULL = 0x28"
definition SAM_STAT_TASK_ABORTED :: cint where "SAM_STAT_TASK_ABORTED = 0x40"

definition OCS_SUCCESS :: cint where "OCS_SUCCESS = 0x0"
definition OCS_ABORTED :: cint where "OCS_ABORTED = 0x6"
definition OCS_INVALID_COMMAND_STATUS :: cint where "OCS_INVALID_COMMAND_STATUS = 0x0F"
definition MASK_OCS :: u32 where "MASK_OCS = 0x0F"

definition UPIU_TRANSACTION_NOP_IN :: cint where "UPIU_TRANSACTION_NOP_IN = 0x20"
definition UPIU_TRANSACTION_RESPONSE :: cint where "UPIU_TRANSACTION_RESPONSE = 0x21"
definition UPIU_TRANSACTION_QUERY_RSP :: cint where "UPIU_TRANSACTION_QUERY_RSP = 0x36"
definition UPIU_TRANSACTION_REJECT_UPIU :: cint where "UPIU_TRANSACTION_REJECT_UPIU = 0x3F"

definition MASK_SCSI_STATUS :: u32 where "MASK_SCSI_STATUS = 0xFF"
definition MASK_RSP_UPIU_RESULT :: u32 where "MASK_RSP_UPIU_RESULT = 0xFFFF"
definition MASK_RSP_EXCEPTION_EVENT :: u32 where "MASK_RSP_EXCEPTION_EVENT = 0x10000"
definition MASK_UIC_COMMAND_RESULT :: u32 where "MASK_UIC_COMMAND_RESULT = 0xFF"
definition COMMAND_OPCODE_MASK :: u32 where "COMMAND_OPCODE_MASK = 0xFF"

definition UIC_COMMAND_COMPL :: u32 where "UIC_COMMAND_COMPL = 0x400"
definition UFSHCD_UIC_PWR_MASK :: u32 where "UFSHCD_UIC_PWR_MASK = 0x70"

definition PWR_OK :: cint where "PWR_OK = 0x0"
definition PWR_LOCAL :: cint where "PWR_LOCAL = 0x1"

definition UFS_MIN_GEAR_TO_SCALE_DOWN :: u32 where "UFS_MIN_GEAR_TO_SCALE_DOWN = 1"

definition host_byte :: "cint \<Rightarrow> cint" where
  "host_byte result = drop_bit 16 result AND 0xff"

definition set_host_byte :: "scsi_cmnd \<Rightarrow> cint \<Rightarrow> scsi_cmnd" where
  "set_host_byte c status =
     c\<lparr>cmd_result := (cmd_result c AND 0xff00ffff) OR push_bit 16 status\<rparr>"

subsection \<open>Bitmap primitives of the kernel\<close>

text \<open>
  \<open>for_each_set_bit (i, addr, size)\<close> visits the set bits below \<open>size\<close> in rising
  order; \<open>find_last_bit (addr, size)\<close> is the number of the highest set bit below
  \<open>size\<close>, or \<open>size\<close> when there is none; \<open>test_and_set_bit_lock\<close> sets a bit and
  returns its old value in one atomic step.
\<close>

definition for_each_set_bit :: "ulong \<Rightarrow> nat \<Rightarrow> nat list" where
  "for_each_set_bit w sz = filter (bit w) [0..<sz]"

definition find_last_bit :: "ulong \<Rightarrow> nat \<Rightarrow> nat" where
  "find_last_bit w sz = (case filter (bit w) (rev [0..<sz]) of [] \<Rightarrow> sz | i # _ \<Rightarrow> i)"

definition test_and_set_bit_lock :: "nat \<Rightarrow> ulong \<Rightarrow> bool \<times> ulong" where
  "test_and_set_bit_lock n w = (bit w n, set_bit n w)"

definition clear_bit_unlock :: "nat \<Rightarrow> ulong \<Rightarrow> ulong" where
  "clear_bit_unlock n w = unset_bit n w"

definition ufshcd_valid_tag :: "ufs_hba \<Rightarrow> int \<Rightarrow> bool" where
  "ufshcd_valid_tag h tag \<longleftrightarrow> 0 \<le> tag \<and> tag < int (nutrs h)"


section \<open>Clock gating: hold and release\<close>

text \<open>
  \<open>__ufshcd_release\<close> (the host lock is held by the caller). Names that start with two
  underscores in the source carry the prefix \<open>uu_\<close> here.
\<close>

definition uu_ufshcd_release :: "ufs_hba \<Rightarrow> ufs_hba" where
  "uu_ufshcd_release h =
     (if \<not> clkgating_allowed h then h
      else
        let h1 = h\<lparr>clk_gating_active_reqs := clk_gating_active_reqs h - 1\<rparr> in
        if clk_gating_active_reqs h1 \<noteq> 0 \<or> clk_gating_is_suspended h1 \<or>
           ufshcd_state h1 \<noteq> UFSHCD_STATE_OPERATIONAL \<or>
           lrb_in_use h1 \<noteq> 0 \<or> outstanding_tasks h1 \<noteq> 0 \<or>
           active_uic_cmd h1 \<or> uic_async_done h1
        then h1
        else emit Ev_queue_gate_work
               (h1\<lparr>clk_gating_state := REQ_CLKS_OFF, gate_work_pending := True\<rparr>))"

definition ufshcd_release :: "ufs_hba \<Rightarrow> ufs_hba" where
  "ufshcd_release h = uu_ufshcd_release h"

text \<open>
  \<open>ufshcd_hold\<close>. A caller that may sleep (\<open>async = false\<close>) drops the lock, waits in
  \<open>flush_work\<close> for the ungate work and starts over at the label \<open>start\<close>. What the rest
  of the system does to the adapter during one such wait, and what \<open>flush_work\<close> returns,
  is one element of the list \<open>waits\<close>; a caller whose waits are used up while it still has
  to wait has not returned (\<open>None\<close>). A caller with \<open>async = true\<close> never waits.

  \<open>hold_ungate\<close> is the code from \<open>case CLKS_OFF\<close> down to the end of
  \<open>case REQ_CLKS_ON\<close>, which \<open>case REQ_CLKS_OFF\<close> falls into when the gate work can
  no longer be cancelled; it yields either the return value or the adapter with which
  the caller goes to sleep.
\<close>

definition hold_req_clks_on :: "bool \<Rightarrow> ufs_hba \<Rightarrow> (cint \<times> ufs_hba) + ufs_hba" where
  "hold_req_clks_on async h =
     (if async
      then Inl (- EAGAIN, h\<lparr>clk_gating_active_reqs := clk_gating_active_reqs h - 1\<rparr>)
      else Inr h)"

definition hold_clks_off :: "bool \<Rightarrow> ufs_hba \<Rightarrow> (cint \<times> ufs_hba) + ufs_hba" where
  "hold_clks_off async h =
     (let h1 = h\<lparr>clk_gating_state := REQ_CLKS_ON\<rparr>;
          h2 = (if ungate_work_pending h1 then h1
                else emit Ev_scsi_block_requests
                       (emit Ev_queue_ungate_work (h1\<lparr>ungate_work_pending := True\<rparr>)))
      in hold_req_clks_on async h2)"

fun ufshcd_hold_start ::
  "(ufs_hba \<Rightarrow> bool \<times> ufs_hba) list \<Rightarrow> bool \<Rightarrow> ufs_hba \<Rightarrow> (cint \<times> ufs_hba) option"
where
  "ufshcd_hold_start waits async h =
     (case clk_gating_state h of
        CLKS_ON \<Rightarrow>
          if hibern8_during_gating h \<and> uic_link_state h = UIC_LINK_HIBERN8_STATE then
            if async
            then Some (- EAGAIN, h\<lparr>clk_gating_active_reqs := clk_gating_active_reqs h - 1\<rparr>)
            else (case waits of
                    [] \<Rightarrow> None
                  | w # waits' \<Rightarrow>
                      if clk_gating_is_suspended (snd (w h)) \<and> \<not> fst (w h)
                      then Some (0, snd (w h))
                      else ufshcd_hold_start waits' async (snd (w h)))
          else Some (0, h)
      | REQ_CLKS_OFF \<Rightarrow>
          if gate_work_pending h
          then Some (0, h\<lparr>gate_work_pending := False, clk_gating_state := CLKS_ON\<rparr>)
          else (case hold_clks_off async h of
                  Inl r \<Rightarrow> Some r
                | Inr h' \<Rightarrow>
                    (case waits of
                       [] \<Rightarrow> None
                     | w # waits' \<Rightarrow> ufshcd_hold_start waits' async (snd (w h'))))
      | CLKS_OFF \<Rightarrow>
          (case hold_clks_off async h of
             Inl r \<Rightarrow> Some r
           | Inr h' \<Rightarrow>
               (case waits of
                  [] \<Rightarrow> None
                | w # waits' \<Rightarrow> ufshcd_hold_start waits' async (snd (w h'))))
      | REQ_CLKS_ON \<Rightarrow>
          (case hold_req_clks_on async h of
             Inl r \<Rightarrow> Some r
           | Inr h' \<Rightarrow>
               (case waits of
                  [] \<Rightarrow> None
                | w # waits' \<Rightarrow> ufshcd_hold_start waits' async (snd (w h'))))
      | CLKS_INVALID \<Rightarrow> Some (0, h))"

definition ufshcd_hold ::
  "(ufs_hba \<Rightarrow> bool \<times> ufs_hba) list \<Rightarrow> bool \<Rightarrow> ufs_hba \<Rightarrow> (cint \<times> ufs_hba) option"
where
  "ufshcd_hold waits async h =
     (if \<not> clkgating_allowed h then Some (0, h)
      else ufshcd_hold_start waits async
             (h\<lparr>clk_gating_active_reqs := clk_gating_active_reqs h + 1\<rparr>))"




section \<open>Completion of transfer requests\<close>

text \<open>\<open>ufshcd_copy_sense_data\<close> fills the sense buffer of the command from the response
  UPIU; the model records the call.\<close>

definition ufshcd_copy_sense_data :: "ufshcd_lrb \<Rightarrow> ufs_hba \<Rightarrow> ufs_hba" where
  "ufshcd_copy_sense_data lrbp h = emit (Ev_copy_sense_data (task_tag lrbp)) h"

definition ufshcd_scsi_cmd_status :: "ufshcd_lrb \<Rightarrow> cint \<Rightarrow> ufs_hba \<Rightarrow> cint \<times> ufs_hba" where
  "ufshcd_scsi_cmd_status lrbp scsi_status h =
     (if scsi_status = SAM_STAT_CHECK_CONDITION then
        (push_bit 16 DID_OK OR push_bit 8 COMMAND_COMPLETE OR scsi_status,
         ufshcd_copy_sense_data lrbp h)
      else if scsi_status = SAM_STAT_GOOD then
        (push_bit 16 DID_OK OR push_bit 8 COMMAND_COMPLETE OR scsi_status, h)
      else if scsi_status = SAM_STAT_TASK_SET_FULL \<or> scsi_status = SAM_STAT_BUSY \<or>
              scsi_status = SAM_STAT_TASK_ABORTED then
        (scsi_status, ufshcd_copy_sense_data lrbp h)
      else (push_bit 16 DID_ERROR, h))"

definition ufshcd_get_tr_ocs :: "ufshcd_lrb \<Rightarrow> cint" where
  "ufshcd_get_tr_ocs lrbp = utrd_dword_2 lrbp AND MASK_OCS"

definition ufshcd_get_req_rsp :: "ufshcd_lrb \<Rightarrow> cint" where
  "ufshcd_get_req_rsp lrbp = drop_bit 24 (rsp_dword_0 lrbp)"

definition ufshcd_get_rsp_upiu_result :: "ufshcd_lrb \<Rightarrow> cint" where
  "ufshcd_get_rsp_upiu_result lrbp = rsp_dword_1 lrbp AND MASK_RSP_UPIU_RESULT"

definition ufshcd_is_exception_event :: "ufshcd_lrb \<Rightarrow> bool" where
  "ufshcd_is_exception_event lrbp \<longleftrightarrow> rsp_dword_2 lrbp AND MASK_RSP_EXCEPTION_EVENT \<noteq> 0"

definition ufshcd_transfer_rsp_status :: "ufs_hba \<Rightarrow> ufshcd_lrb \<Rightarrow> cint \<times> ufs_hba" where
  "ufshcd_transfer_rsp_status h lrbp =
     (let ocs = (if quirk_broken_ocs_fatal_error h \<and>
                    rsp_dword_1 lrbp AND MASK_RSP_UPIU_RESULT \<noteq> 0
                 then OCS_SUCCESS else ufshcd_get_tr_ocs lrbp)
      in if ocs = OCS_SUCCESS then
           (let result = ufshcd_get_req_rsp lrbp in
            if result = UPIU_TRANSACTION_RESPONSE then
              (let scsi_status = ufshcd_get_rsp_upiu_result lrbp AND MASK_SCSI_STATUS;
                   r = ufshcd_scsi_cmd_status lrbp scsi_status h
               in if \<not> pm_op_in_progress h \<and> ufshcd_is_exception_event lrbp
                  then (fst r, emit Ev_schedule_eeh_work (snd r))
                  else r)
            else if result = UPIU_TRANSACTION_REJECT_UPIU then (push_bit 16 DID_ERROR, h)
            else (push_bit 16 DID_ERROR, h))
         else if ocs = OCS_ABORTED then (push_bit 16 DID_ABORT, h)
         else if ocs = OCS_INVALID_COMMAND_STATUS then (push_bit 16 DID_REQUEUE, h)
         else (push_bit 16 DID_ERROR, h))"

text \<open>The body of the loop of \<open>__ufshcd_transfer_req_compl\<close> for one slot.\<close>

definition compl_one :: "nat \<Rightarrow> ufs_hba \<Rightarrow> ufs_hba" where
  "compl_one index h =
     (let lrbp = lrb h index;
          h1 = emit (Ev_vops_compl_xfer_req index (lrb_cmd lrbp \<noteq> None)) h;
          h2 = (case lrb_cmd lrbp of
                  Some c \<Rightarrow>
                    let r = ufshcd_transfer_rsp_status h1 lrbp;
                        h3 = emit (Ev_scsi_dma_unmap (cmd_id c)) (snd r);
                        c' = c\<lparr>cmd_result := fst r\<rparr>;
                        h4 = h3\<lparr>lrb := (lrb h3)(index := (lrb h3 index)\<lparr>lrb_cmd := None\<rparr>)\<rparr>;
                        h5 = h4\<lparr>lrb_in_use := clear_bit_unlock index (lrb_in_use h4)\<rparr>;
                        h6 = emit (Ev_scsi_done c') h5
                    in uu_ufshcd_release h6
                | None \<Rightarrow>
                    if command_type lrbp = UTP_CMD_TYPE_DEV_MANAGE \<or>
                       command_type lrbp = UTP_CMD_TYPE_UFS_STORAGE
                    then (if dev_cmd_complete h1
                          then emit Ev_complete_dev_cmd (h1\<lparr>dev_cmd_done := True\<rparr>)
                          else h1)
                    else h1)
      in if clkscaling_supported h2
         then h2\<lparr>clk_scaling_active_reqs := clk_scaling_active_reqs h2 - 1\<rparr>
         else h2)"

definition ufshcd_clk_scaling_update_busy :: "ufs_hba \<Rightarrow> ufs_hba" where
  "ufshcd_clk_scaling_update_busy h =
     (if \<not> clkscaling_supported h then h
      else if outstanding_reqs h = 0 \<and> clk_scaling_is_busy_started h
           then h\<lparr>clk_scaling_is_busy_started := False\<rparr>
           else h)"

definition uu_ufshcd_transfer_req_compl :: "ulong \<Rightarrow> ufs_hba \<Rightarrow> ufs_hba" where
  "uu_ufshcd_transfer_req_compl completed_reqs h =
     (let h1 = fold compl_one (for_each_set_bit completed_reqs (nutrs h)) h;
          h2 = h1\<lparr>outstanding_reqs := outstanding_reqs h1 XOR completed_reqs\<rparr>;
          h3 = ufshcd_clk_scaling_update_busy h2
      in emit Ev_wake_up_tag_wq h3)"

text \<open>\<open>ufshcd_transfer_req_compl\<close>; \<open>tr_doorbell\<close> is the value read from
  \<open>REG_UTP_TRANSFER_REQ_DOOR_BELL\<close>.\<close>

definition reset_intr_aggr_first :: "ufs_hba \<Rightarrow> ufs_hba" where
  "reset_intr_aggr_first h =
     (if intr_aggr_allowed h \<and> \<not> quirk_skip_reset_intr_aggr h
      then emit Ev_reset_intr_aggr h else h)"

definition ufshcd_transfer_req_compl :: "u32 \<Rightarrow> ufs_hba \<Rightarrow> irqreturn \<times> ufs_hba" where
  "ufshcd_transfer_req_compl tr_doorbell h =
     (let h0 = reset_intr_aggr_first h;
          completed_reqs = ucast tr_doorbell XOR outstanding_reqs h0
      in if completed_reqs \<noteq> 0
         then (IRQ_HANDLED, uu_ufshcd_transfer_req_compl completed_reqs h0)
         else (IRQ_NONE, h0))"

section \<open>Submission of transfer requests\<close>

definition ufshcd_clk_scaling_start_busy :: "ufs_hba \<Rightarrow> ufs_hba" where
  "ufshcd_clk_scaling_start_busy h =
     (if \<not> clkscaling_supported h then h
      else
        let queue_resume_work = (clk_scaling_active_reqs h = 0);
            h1 = h\<lparr>clk_scaling_active_reqs := clk_scaling_active_reqs h + 1\<rparr>
        in if \<not> clk_scaling_is_allowed h1 \<or> pm_op_in_progress h1 then h1
           else
             let h2 = (if queue_resume_work then emit Ev_queue_resume_work h1 else h1);
                 h3 = (if \<not> clk_scaling_window_started h2
                       then h2\<lparr>clk_scaling_window_started := True,
                               clk_scaling_is_busy_started := False\<rparr>
                       else h2)
             in if \<not> clk_scaling_is_busy_started h3
                then h3\<lparr>clk_scaling_is_busy_started := True\<rparr>
                else h3)"

text \<open>\<open>ufshcd_send_command\<close>: the outstanding bit is set, the doorbell bit is written,
  and the write barrier follows.\<close>

definition ufshcd_send_command :: "nat \<Rightarrow> ufs_hba \<Rightarrow> ufs_hba" where
  "ufshcd_send_command tag h =
     (let h1 = emit (Ev_setup_xfer_req tag (lrb_cmd (lrb h tag) \<noteq> None)) h;
          h2 = ufshcd_clk_scaling_start_busy h1;
          h3 = emit (Ev_set_outstanding tag)
                 (h2\<lparr>outstanding_reqs := set_bit tag (outstanding_reqs h2)\<rparr>);
          h4 = emit (Ev_doorbell_write (push_bit tag 1)) h3
      in emit Ev_wmb h4)"

text \<open>
  \<open>ufshcd_queuecommand\<close>. The results of the collaborators are inputs:
  whether \<open>down_read_trylock\<close> on the scaling lock succeeds, the results of
  \<open>ufshcd_prepare_lrbp_crypto\<close> and \<open>ufshcd_map_sg\<close>, and whether the kernel is
  configured with the host performance booster (the block under \<open>CONFIG_UFSHPB\<close>).
  \<open>None\<close> is the \<open>BUG()\<close> of an invalid tag.
\<close>

record qc_env =
  qc_trylock_ok :: bool
  qc_crypto_err :: cint
  qc_map_sg_err :: cint
  qc_config_ufshpb :: bool

text \<open>
  \<open>ufshcd_prepare_req_desc_hdr\<close> stores \<open>OCS_INVALID_COMMAND_STATUS\<close> in \<open>header.dword_2\<close>
  of the descriptor, for the controller to overwrite on completion, and each of the
  functions that fill the request UPIU ends by zeroing the response UPIU.
\<close>

definition ufshcd_prepare_req_desc_hdr :: "ufshcd_lrb \<Rightarrow> ufshcd_lrb" where
  "ufshcd_prepare_req_desc_hdr lrbp = lrbp\<lparr>utrd_dword_2 := OCS_INVALID_COMMAND_STATUS\<rparr>"

definition clear_rsp_upiu :: "ufshcd_lrb \<Rightarrow> ufshcd_lrb" where
  "clear_rsp_upiu lrbp = lrbp\<lparr>rsp_dword_0 := 0, rsp_dword_1 := 0, rsp_dword_2 := 0\<rparr>"

text \<open>\<open>ufshcd_comp_scsi_upiu\<close> for a slot with a command (the only caller has just stored
  one).\<close>

definition ufshcd_comp_scsi_upiu :: "nat \<Rightarrow> ufs_hba \<Rightarrow> ufs_hba" where
  "ufshcd_comp_scsi_upiu tag h =
     emit (Ev_comp_scsi_upiu tag)
       (h\<lparr>lrb := (lrb h)(tag :=
               clear_rsp_upiu (ufshcd_prepare_req_desc_hdr ((lrb h tag)
               \<lparr>command_type := (if ufs_version_1x h then UTP_CMD_TYPE_SCSI
                                 else UTP_CMD_TYPE_UFS_STORAGE)\<rparr>)))\<rparr>)"

text \<open>The three statements that every failure path after the clock hold runs:
  \<open>ufshcd_release\<close>, \<open>lrbp->cmd = NULL\<close>, \<open>clear_bit_unlock\<close>.\<close>

definition qc_undo :: "nat \<Rightarrow> ufs_hba \<Rightarrow> ufs_hba" where
  "qc_undo tag h =
     (let h1 = ufshcd_release h;
          h2 = h1\<lparr>lrb := (lrb h1)(tag := (lrb h1 tag)\<lparr>lrb_cmd := None\<rparr>)\<rparr>
      in h2\<lparr>lrb_in_use := clear_bit_unlock tag (lrb_in_use h2)\<rparr>)"

text \<open>The label \<open>out_compl_cmd\<close>; \<open>c\<close> is the command with the host byte it has
  been given.\<close>

definition qc_out_compl_cmd :: "cint \<Rightarrow> scsi_cmnd \<Rightarrow> nat \<Rightarrow> ufs_hba \<Rightarrow> cint \<times> ufs_hba" where
  "qc_out_compl_cmd err c tag h =
     (let h1 = emit (Ev_scsi_dma_unmap (cmd_id c)) h;
          h2 = h1\<lparr>lrb := (lrb h1)(tag := (lrb h1 tag)\<lparr>lrb_cmd := None\<rparr>)\<rparr>;
          h3 = h2\<lparr>lrb_in_use := clear_bit_unlock tag (lrb_in_use h2)\<rparr>;
          h4 = ufshcd_release h3
      in (err, if err = 0 then emit (Ev_scsi_done c) h4 else h4))"

definition qc_check_state :: "scsi_cmnd \<Rightarrow> nat \<Rightarrow> ufs_hba \<Rightarrow> cint \<times> ufs_hba" where
  "qc_check_state c tag h =
     (case ufshcd_state h of
        UFSHCD_STATE_OPERATIONAL \<Rightarrow> (0, ufshcd_send_command tag h)
      | UFSHCD_STATE_EH_SCHEDULED_NON_FATAL \<Rightarrow> (0, ufshcd_send_command tag h)
      | UFSHCD_STATE_EH_SCHEDULED_FATAL \<Rightarrow>
          if pm_op_in_progress h
          then qc_out_compl_cmd 0 (set_host_byte c DID_BAD_TARGET) tag (h\<lparr>force_reset := True\<rparr>)
          else qc_out_compl_cmd SCSI_MLQUEUE_HOST_BUSY c tag h
      | UFSHCD_STATE_RESET \<Rightarrow> qc_out_compl_cmd SCSI_MLQUEUE_HOST_BUSY c tag h
      | UFSHCD_STATE_ERROR \<Rightarrow> qc_out_compl_cmd 0 (set_host_byte c DID_ERROR) tag h
      | UFSHCD_STATE_INVALID \<Rightarrow> qc_out_compl_cmd 0 (set_host_byte c DID_BAD_TARGET) tag h)"

definition qc_prepare :: "qc_env \<Rightarrow> scsi_cmnd \<Rightarrow> nat \<Rightarrow> ufs_hba \<Rightarrow> (cint \<times> ufs_hba) option" where
  "qc_prepare env c tag h =
     (let h1 = h\<lparr>lrb := (lrb h)(tag := (lrb h tag)\<lparr>lrb_cmd := Some c, task_tag := tag\<rparr>)\<rparr>;
          h2 = emit (Ev_prepare_crypto tag) h1
      in if qc_crypto_err env \<noteq> 0 then Some (qc_crypto_err env, qc_undo tag h2)
         else
           let h3 = h2\<lparr>lrb := (lrb h2)(tag := (lrb h2 tag)\<lparr>req_abort_skip := False\<rparr>)\<rparr>;
               h4 = ufshcd_comp_scsi_upiu tag h3
           in if qc_config_ufshpb env \<and> cmd_opcode c \<noteq> 0x28 \<and> cmd_requeue_cnt c \<noteq> 0
              then None
              else if qc_config_ufshpb env \<and> cmd_requeue_cnt c \<noteq> 0
              then Some (- EAGAIN, qc_undo tag h4)
              else
                let h5 = emit (Ev_map_sg tag) h4
                in if qc_map_sg_err env \<noteq> 0 then Some (qc_map_sg_err env, qc_undo tag h5)
                   else Some (qc_check_state c tag (emit Ev_wmb h5)))"

definition ufshcd_queuecommand :: "qc_env \<Rightarrow> scsi_cmnd \<Rightarrow> ufs_hba \<Rightarrow> (cint \<times> ufs_hba) option" where
  "ufshcd_queuecommand env c h =
     (if \<not> ufshcd_valid_tag h (cmd_tag c) then None
      else if \<not> qc_trylock_ok env then Some (SCSI_MLQUEUE_HOST_BUSY, h)
      else
        let tag = nat (cmd_tag c);
            r = test_and_set_bit_lock tag (lrb_in_use h);
            h1 = h\<lparr>lrb_in_use := snd r\<rparr>
        in if fst r then Some (SCSI_MLQUEUE_HOST_BUSY, h1)
           else
             (case ufshcd_hold [] True h1 of
                None \<Rightarrow> None
              | Some (err, h2) \<Rightarrow>
                  if err \<noteq> 0
                  then Some (SCSI_MLQUEUE_HOST_BUSY,
                             h2\<lparr>lrb_in_use := clear_bit_unlock tag (lrb_in_use h2)\<rparr>)
                  else qc_prepare env c tag h2))"

section \<open>Device management commands\<close>

text \<open>
  \<open>ufshcd_get_dev_cmd_tag\<close>. Between reading the bitmap and the atomic
  \<open>test_and_set_bit_lock\<close> other CPUs may claim or release tags: \<open>others\<close> holds, for
  each round of the loop, what they do to the bitmap in between; when the list is used up
  nobody interferes. The loop ends with the claimed tag, or with no tag when the bitmap as
  read has no free bit below \<open>nutrs\<close>. (\<open>tag_out\<close> is the address of a local variable
  of the only caller and never \<open>NULL\<close>.) The outer \<open>None\<close> stands for a loop that has
  not ended; \<open>get_dev_cmd_tag_returns\<close> below shows that this never happens.
\<close>

fun ufshcd_get_dev_cmd_tag ::
  "(ulong \<Rightarrow> ulong) list \<Rightarrow> ufs_hba \<Rightarrow> (nat option \<times> ufs_hba) option"
where
  "ufshcd_get_dev_cmd_tag others h =
     (let tmp = NOT (lrb_in_use h);
          tag = find_last_bit tmp (nutrs h)
      in if tag \<ge> nutrs h then Some (None, h)
         else
           (case others of
              [] \<Rightarrow>
                let r = test_and_set_bit_lock tag (lrb_in_use h)
                in if fst r then None else Some (Some tag, h\<lparr>lrb_in_use := snd r\<rparr>)
            | f # others' \<Rightarrow>
                let r = test_and_set_bit_lock tag (f (lrb_in_use h))
                in if fst r then ufshcd_get_dev_cmd_tag others' (h\<lparr>lrb_in_use := snd r\<rparr>)
                   else Some (Some tag, h\<lparr>lrb_in_use := snd r\<rparr>)))"










section \<open>Link-control (UIC) commands\<close>

text \<open>An interrupt of the link-control channel: the interrupt status and the values
  that the handler reads from the argument registers 2 and 3.\<close>

record uic_irq =
  irq_status :: u32
  irq_arg2 :: u32
  irq_arg3 :: u32

definition ufshcd_uic_cmd_compl :: "uic_irq \<Rightarrow> ufs_hba \<Rightarrow> irqreturn \<times> ufs_hba" where
  "ufshcd_uic_cmd_compl q h =
     (let first = (irq_status q AND UIC_COMMAND_COMPL \<noteq> 0 \<and> active_uic_cmd h);
          h1 = (if first then
                  emit Ev_complete_uic_cmd
                    (h\<lparr>uic_cmd := (uic_cmd h)
                          \<lparr>argument2 := argument2 (uic_cmd h) OR
                                         (irq_arg2 q AND MASK_UIC_COMMAND_RESULT),
                           argument3 := irq_arg3 q,
                           cmd_active := (if \<not> uic_async_done h then False
                                          else cmd_active (uic_cmd h)),
                           uic_done := True\<rparr>\<rparr>)
                else h);
          second = (irq_status q AND UFSHCD_UIC_PWR_MASK \<noteq> 0 \<and> uic_async_done h1);
          h2 = (if second then
                  emit Ev_complete_uic_async
                    ((if active_uic_cmd h1
                      then h1\<lparr>uic_cmd := (uic_cmd h1)\<lparr>cmd_active := False\<rparr>\<rparr>
                      else h1)\<lparr>uic_async_completed := True\<rparr>)
                else h1)
      in (if first \<or> second then IRQ_HANDLED else IRQ_NONE, h2))"

definition run_uic_irqs :: "uic_irq list \<Rightarrow> ufs_hba \<Rightarrow> ufs_hba" where
  "run_uic_irqs qs h = fold (\<lambda>q s. snd (ufshcd_uic_cmd_compl q s)) qs h"

text \<open>
  \<open>ufshcd_wait_for_uic_cmd\<close>. \<open>in_time\<close> are the interrupts handled while the caller
  sleeps in \<open>wait_for_completion_timeout\<close>; the wait succeeds when one of them has
  completed the command. \<open>late\<close> are the interrupts handled after the wait has timed
  out and before the caller looks at \<open>cmd_active\<close>.
\<close>

definition ufshcd_wait_for_uic_cmd ::
  "uic_irq list \<Rightarrow> uic_irq list \<Rightarrow> ufs_hba \<Rightarrow> cint \<times> ufs_hba"
where
  "ufshcd_wait_for_uic_cmd in_time late h =
     (let h1 = run_uic_irqs in_time h in
      if uic_done (uic_cmd h1) then
        (argument2 (uic_cmd h1) AND MASK_UIC_COMMAND_RESULT, h1\<lparr>active_uic_cmd := False\<rparr>)
      else
        let h2 = run_uic_irqs late h1;
            ret = (if \<not> cmd_active (uic_cmd h2)
                   then argument2 (uic_cmd h2) AND MASK_UIC_COMMAND_RESULT
                   else - ETIMEDOUT)
        in (ret, h2\<lparr>active_uic_cmd := False\<rparr>))"

text \<open>\<open>__ufshcd_send_uic_cmd\<close>; \<open>ready\<close> is the \<open>UIC_COMMAND_READY\<close> bit of the
  controller status register.\<close>

definition uu_ufshcd_send_uic_cmd ::
  "bool \<Rightarrow> uic_command \<Rightarrow> bool \<Rightarrow> ufs_hba \<Rightarrow> cint \<times> ufs_hba"
where
  "uu_ufshcd_send_uic_cmd ready c completion h =
     (if \<not> ready then (- EIO, h)
      else
        let c1 = (if completion then c\<lparr>uic_done := False\<rparr> else c);
            c2 = c1\<lparr>cmd_active := True\<rparr>;
            h1 = h\<lparr>uic_cmd := c2, active_uic_cmd := True\<rparr>;
            h2 = emit (Ev_uic_dispatch (uic_opcode c2 AND COMMAND_OPCODE_MASK)) h1
        in (0, emit Ev_wmb h2))"

text \<open>\<open>ufshcd_schedule_eh_work\<close>; \<open>saved_fatal\<close> is
  \<open>ufshcd_is_saved_err_fatal\<close>.\<close>

definition ufshcd_schedule_eh_work :: "bool \<Rightarrow> ufs_hba \<Rightarrow> ufs_hba" where
  "ufshcd_schedule_eh_work saved_fatal h =
     (if ufshcd_state h \<noteq> UFSHCD_STATE_ERROR then
        emit Ev_queue_eh_work
          (h\<lparr>ufshcd_state :=
               (if force_reset h \<or> uic_link_state h = UIC_LINK_BROKEN_STATE \<or> saved_fatal
                then UFSHCD_STATE_EH_SCHEDULED_FATAL
                else UFSHCD_STATE_EH_SCHEDULED_NON_FATAL)\<rparr>)
      else h)"

text \<open>
  \<open>ufshcd_uic_pwr_ctrl\<close>. Inputs: the ready bit, whether the command-completion
  interrupt is enabled when the command is issued, the interrupts during and after the
  wait on \<open>uic_async_done\<close>, the value of the controller status register read
  afterwards (its bits 8 to 10 are the power-mode change status \<open>UPMCRS\<close>), and
  \<open>ufshcd_is_saved_err_fatal\<close>.
\<close>

record pwr_env =
  pw_ready :: bool
  pw_uccs_enabled :: bool
  pw_in_time :: "uic_irq list"
  pw_late :: "uic_irq list"
  pw_hcs :: u32
  pw_saved_fatal :: bool

definition ufshcd_get_upmcrs :: "u32 \<Rightarrow> cint" where
  "ufshcd_get_upmcrs hcs = drop_bit 8 hcs AND 0x7"

definition pwr_ctrl_out :: "pwr_env \<Rightarrow> bool \<Rightarrow> cint \<Rightarrow> ufs_hba \<Rightarrow> cint \<times> ufs_hba" where
  "pwr_ctrl_out env reenable_intr ret h =
     (let h1 = h\<lparr>active_uic_cmd := False, uic_async_done := False\<rparr>;
          h2 = (if reenable_intr then emit Ev_enable_uccs_intr h1 else h1);
          h3 = (if ret \<noteq> 0
                then ufshcd_schedule_eh_work (pw_saved_fatal env)
                       (h2\<lparr>uic_link_state := UIC_LINK_BROKEN_STATE\<rparr>)
                else h2)
      in (ret, h3))"

definition pwr_ctrl_check_upmcrs :: "pwr_env \<Rightarrow> bool \<Rightarrow> cint \<Rightarrow> ufs_hba \<Rightarrow> cint \<times> ufs_hba" where
  "pwr_ctrl_check_upmcrs env reenable_intr ret h =
     (let status = ufshcd_get_upmcrs (pw_hcs env);
          ret' = (if status \<noteq> PWR_LOCAL
                  then (if status \<noteq> PWR_OK then status else - 1)
                  else ret)
      in pwr_ctrl_out env reenable_intr ret' h)"

text \<open>The first locked section of \<open>ufshcd_uic_pwr_ctrl\<close>: the completion
  \<open>uic_async_done\<close> is set up, the command-completion interrupt is masked, and the
  command is sent.\<close>

definition pwr_ctrl_issue :: "pwr_env \<Rightarrow> uic_command \<Rightarrow> ufs_hba \<Rightarrow> cint \<times> ufs_hba" where
  "pwr_ctrl_issue env c h =
     (let h1 = h\<lparr>uic_async_done := True, uic_async_completed := False\<rparr>;
          h2 = (if pw_uccs_enabled env then emit Ev_wmb (emit Ev_disable_uccs_intr h1) else h1)
      in uu_ufshcd_send_uic_cmd (pw_ready env) c False h2)"

definition ufshcd_uic_pwr_ctrl :: "pwr_env \<Rightarrow> uic_command \<Rightarrow> ufs_hba \<Rightarrow> cint \<times> ufs_hba" where
  "ufshcd_uic_pwr_ctrl env c h =
     (if uic_link_state h = UIC_LINK_BROKEN_STATE then (- ENOLINK, h)
      else
        let reenable_intr = pw_uccs_enabled env;
            s = pwr_ctrl_issue env c h
        in if fst s \<noteq> 0 then pwr_ctrl_out env reenable_intr (fst s) (snd s)
           else
             let h3 = run_uic_irqs (pw_in_time env) (snd s) in
             if \<not> uic_async_completed h3 then
               (let h4 = run_uic_irqs (pw_late env) h3 in
                if \<not> cmd_active (uic_cmd h4)
                then pwr_ctrl_check_upmcrs env reenable_intr (fst s) h4
                else pwr_ctrl_out env reenable_intr (- ETIMEDOUT) h4)
             else pwr_ctrl_check_upmcrs env reenable_intr (fst s) h3)"

section \<open>Clock and gear scaling\<close>

text \<open>
  The collaborators of the scaling controller are inputs: the result of
  \<open>clk_set_rate\<close> for a clock (by its place in the list) and a rate, the result of the
  vendor hook \<open>clk_scale_notify\<close> for a direction and a stage (\<open>True\<close> is
  \<open>PRE_CHANGE\<close>), the power mode that the vendor hook \<open>pwr_change_notify\<close> settles on
  (\<open>None\<close> when it fails or is absent), the result of the power-mode change on the link,
  the result of waiting for the doorbells to clear, and the waits of the blocking
  \<open>ufshcd_hold\<close>.
\<close>

record scale_env =
  se_clk_set_rate :: "nat \<Rightarrow> u32 \<Rightarrow> cint"
  se_clk_scale_notify :: "bool \<Rightarrow> bool \<Rightarrow> cint"
  se_pwr_change_notify :: "ufs_pa_layer_attr \<Rightarrow> ufs_pa_layer_attr option"
  se_uic_change_pwr_mode :: "ufs_pa_layer_attr \<Rightarrow> cint"
  se_wait_for_doorbell_clr :: cint
  se_hold_waits :: "(ufs_hba \<Rightarrow> bool \<times> ufs_hba) list"

text \<open>
  The loop of \<open>ufshcd_set_clk_freq\<close> over the clock list. \<open>clk_target\<close> is the
  decision of the loop body for one clock: the rate to ask for, or \<open>None\<close> when the body
  leaves the clock alone (no clock, no rate for this direction, already at the rate, or
  the clock \<open>core_clk_ice_hw_ctl\<close>). \<open>set_clk_freq_loop\<close> runs the loop from entry
  number \<open>i\<close> on and yields the result, the clocks as they are left, and the calls of
  \<open>clk_set_rate\<close>; a failing call ends the loop.
\<close>

definition clk_target :: "bool \<Rightarrow> ufs_clk_info \<Rightarrow> u32 option" where
  "clk_target scale_up c =
     (if clk_present c then
        if scale_up \<and> max_freq c \<noteq> 0 then
          (if curr_freq c = max_freq c \<or> clk_is_ice_hw_ctl c then None
           else Some (max_freq c))
        else if \<not> scale_up \<and> min_freq c \<noteq> 0 then
          (if curr_freq c = min_freq c \<or> clk_is_ice_hw_ctl c then None
           else Some (min_freq c))
        else None
      else None)"

fun set_clk_freq_loop ::
  "(nat \<Rightarrow> u32 \<Rightarrow> cint) \<Rightarrow> bool \<Rightarrow> nat \<Rightarrow> ufs_clk_info list \<Rightarrow>
   cint \<times> ufs_clk_info list \<times> event list"
where
  "set_clk_freq_loop setr scale_up i [] = (0, [], [])"
| "set_clk_freq_loop setr scale_up i (c # cs) =
     (case clk_target scale_up c of
        None \<Rightarrow>
          (let r = set_clk_freq_loop setr scale_up (Suc i) cs
           in (fst r, c # fst (snd r), snd (snd r)))
      | Some rate \<Rightarrow>
          if setr i rate \<noteq> 0 then (setr i rate, c # cs, [Ev_clk_set_rate i rate])
          else
            (let r = set_clk_freq_loop setr scale_up (Suc i) cs
             in (fst r, c\<lparr>curr_freq := rate\<rparr> # fst (snd r),
                 Ev_clk_set_rate i rate # snd (snd r))))"

definition ufshcd_set_clk_freq :: "scale_env \<Rightarrow> bool \<Rightarrow> ufs_hba \<Rightarrow> cint \<times> ufs_hba" where
  "ufshcd_set_clk_freq env scale_up h =
     (let r = set_clk_freq_loop (se_clk_set_rate env) scale_up 0 (clk_list h)
      in (fst r, h\<lparr>clk_list := fst (snd r), evlog := evlog h @ snd (snd r)\<rparr>))"

definition ufshcd_scale_clks :: "scale_env \<Rightarrow> bool \<Rightarrow> ufs_hba \<Rightarrow> cint \<times> ufs_hba" where
  "ufshcd_scale_clks env scale_up h =
     (let h1 = emit (Ev_clk_scale_notify scale_up True) h in
      if se_clk_scale_notify env scale_up True \<noteq> 0
      then (se_clk_scale_notify env scale_up True, h1)
      else
        let f = ufshcd_set_clk_freq env scale_up h1 in
        if fst f \<noteq> 0 then f
        else
          let h2 = emit (Ev_clk_scale_notify scale_up False) (snd f) in
          if se_clk_scale_notify env scale_up False \<noteq> 0
          then (se_clk_scale_notify env scale_up False,
                snd (ufshcd_set_clk_freq env (\<not> scale_up) h2))
          else (0, h2))"

definition same_pwr_mode :: "ufs_pa_layer_attr \<Rightarrow> ufs_pa_layer_attr \<Rightarrow> bool" where
  "same_pwr_mode a b \<longleftrightarrow>
     gear_rx a = gear_rx b \<and> gear_tx a = gear_tx b \<and> lane_rx a = lane_rx b \<and>
     lane_tx a = lane_tx b \<and> pwr_rx a = pwr_rx b \<and> pwr_tx a = pwr_tx b \<and>
     hs_rate a = hs_rate b"

definition ufshcd_change_power_mode ::
  "scale_env \<Rightarrow> ufs_pa_layer_attr \<Rightarrow> ufs_hba \<Rightarrow> cint \<times> ufs_hba"
where
  "ufshcd_change_power_mode env pwr_mode h =
     (if same_pwr_mode pwr_mode (pwr_info h) then (0, h)
      else
        let h1 = emit (Ev_pwr_mode_change pwr_mode) h;
            ret = se_uic_change_pwr_mode env pwr_mode
        in if ret \<noteq> 0 then (ret, h1) else (0, h1\<lparr>pwr_info := pwr_mode\<rparr>))"

definition ufshcd_config_pwr_mode ::
  "scale_env \<Rightarrow> ufs_pa_layer_attr \<Rightarrow> ufs_hba \<Rightarrow> cint \<times> ufs_hba"
where
  "ufshcd_config_pwr_mode env desired_pwr_mode h =
     (let final_params = (case se_pwr_change_notify env desired_pwr_mode of
                            None \<Rightarrow> desired_pwr_mode
                          | Some p \<Rightarrow> p)
      in ufshcd_change_power_mode env final_params h)"

definition ufshcd_scale_gear :: "scale_env \<Rightarrow> bool \<Rightarrow> ufs_hba \<Rightarrow> cint \<times> ufs_hba" where
  "ufshcd_scale_gear env scale_up h =
     (if scale_up then ufshcd_config_pwr_mode env (saved_pwr_info h) h
      else if gear_tx (pwr_info h) > UFS_MIN_GEAR_TO_SCALE_DOWN \<or>
              gear_rx (pwr_info h) > UFS_MIN_GEAR_TO_SCALE_DOWN
      then ufshcd_config_pwr_mode env
             ((pwr_info h)\<lparr>gear_tx := UFS_MIN_GEAR_TO_SCALE_DOWN,
                           gear_rx := UFS_MIN_GEAR_TO_SCALE_DOWN\<rparr>)
             (h\<lparr>saved_pwr_info := pwr_info h\<rparr>)
      else ufshcd_config_pwr_mode env (pwr_info h) h)"

text \<open>\<open>ufshcd_clock_scaling_prepare\<close> takes the scaling lock for writing (the exclusive
  barrier) and waits for the doorbells to clear; \<open>ufshcd_clock_scaling_unprepare\<close>
  releases the barrier.\<close>

definition ufshcd_clock_scaling_prepare :: "scale_env \<Rightarrow> ufs_hba \<Rightarrow> cint \<times> ufs_hba" where
  "ufshcd_clock_scaling_prepare env h =
     (let h1 = emit Ev_scsi_block_requests (emit Ev_down_write h) in
      if se_wait_for_doorbell_clr env \<noteq> 0
      then (- EBUSY, emit Ev_scsi_unblock_requests (emit Ev_up_write h1))
      else (0, h1))"

definition ufshcd_clock_scaling_unprepare :: "ufs_hba \<Rightarrow> ufs_hba" where
  "ufshcd_clock_scaling_unprepare h = emit Ev_scsi_unblock_requests (emit Ev_up_write h)"

text \<open>\<open>ufshcd_devfreq_scale\<close>; the labels \<open>scale_up_gear\<close>, \<open>clk_scaling_unprepare\<close>
  and \<open>out\<close> are the tails of the branches.\<close>

definition devfreq_scale_body :: "scale_env \<Rightarrow> bool \<Rightarrow> ufs_hba \<Rightarrow> cint \<times> ufs_hba" where
  "devfreq_scale_body env scale_up h =
     (let g = (if \<not> scale_up then ufshcd_scale_gear env False h else (0, h)) in
      if fst g \<noteq> 0 then (fst g, ufshcd_clock_scaling_unprepare (snd g))
      else
        let c = ufshcd_scale_clks env scale_up (snd g) in
        if fst c \<noteq> 0 then
          (fst c, ufshcd_clock_scaling_unprepare
                    (if \<not> scale_up then snd (ufshcd_scale_gear env True (snd c)) else snd c))
        else
          let g2 = (if scale_up then ufshcd_scale_gear env True (snd c) else (0, snd c)) in
          if fst g2 \<noteq> 0 then
            (fst g2, ufshcd_clock_scaling_unprepare
                       (snd (ufshcd_scale_clks env False (snd g2))))
          else
            (0, ufshcd_clock_scaling_unprepare
                  (emit Ev_down_write (emit (Ev_wb_ctrl scale_up) (emit Ev_up_write (snd g2))))))"

definition ufshcd_devfreq_scale ::
  "scale_env \<Rightarrow> bool \<Rightarrow> ufs_hba \<Rightarrow> (cint \<times> ufs_hba) option"
where
  "ufshcd_devfreq_scale env scale_up h =
     (case ufshcd_hold (se_hold_waits env) False h of
        None \<Rightarrow> None
      | Some (_, h1) \<Rightarrow>
          let p = ufshcd_clock_scaling_prepare env h1 in
          if fst p \<noteq> 0 then Some (fst p, ufshcd_release (snd p))
          else
            let b = devfreq_scale_body env scale_up (snd p)
            in Some (fst b, ufshcd_release (snd b)))"



section \<open>Example adapters\<close>

text \<open>
  An adapter with 32 slots right after initialisation: no command bound to a slot, nothing
  outstanding, clock gating allowed with the clocks on, link active at gear 3, run state
  operational, one scalable clock at its high rate.
\<close>

definition lrb_empty :: ufshcd_lrb where
  "lrb_empty =
     \<lparr>lrb_cmd = None, command_type = UTP_CMD_TYPE_UFS_STORAGE, task_tag = 0,
      req_abort_skip = False, utrd_dword_2 = 0, rsp_dword_0 = 0x21000000,
      rsp_dword_1 = 0, rsp_dword_2 = 0\<rparr>"

definition uic_cmd_empty :: uic_command where
  "uic_cmd_empty =
     \<lparr>uic_opcode = 0, argument1 = 0, argument2 = 0, argument3 = 0,
      cmd_active = False, uic_done = False\<rparr>"

definition pwr_g3 :: ufs_pa_layer_attr where
  "pwr_g3 = \<lparr>gear_rx = 3, gear_tx = 3, lane_rx = 2, lane_tx = 2, pwr_rx = 1, pwr_tx = 1,
             hs_rate = 2\<rparr>"

definition core_clk :: ufs_clk_info where
  "core_clk = \<lparr>clk_present = True, clk_is_ice_hw_ctl = False, min_freq = 50000000,
               max_freq = 200000000, curr_freq = 200000000\<rparr>"

definition hba_idle :: ufs_hba where
  "hba_idle =
     \<lparr>nutrs = 32, lrb = (\<lambda>_. lrb_empty), lrb_in_use = 0, outstanding_reqs = 0,
      outstanding_tasks = 0, ufshcd_state = UFSHCD_STATE_OPERATIONAL,
      pm_op_in_progress = False, force_reset = False, ufs_version_1x = False,
      clkgating_allowed = True, hibern8_during_gating = False,
      clkscaling_supported = False, intr_aggr_allowed = False,
      quirk_skip_reset_intr_aggr = False, quirk_broken_ocs_fatal_error = False,
      clk_gating_state = CLKS_ON, clk_gating_active_reqs = 0,
      clk_gating_is_suspended = False, gate_work_pending = False,
      ungate_work_pending = False, uic_link_state = UIC_LINK_ACTIVE_STATE,
      uic_cmd = uic_cmd_empty, active_uic_cmd = False, uic_async_done = False,
      uic_async_completed = False, dev_cmd_type = DEV_CMD_TYPE_NOP,
      dev_cmd_complete = False, dev_cmd_done = False, clk_scaling_active_reqs = 0,
      clk_scaling_is_allowed = False, clk_scaling_window_started = False,
      clk_scaling_is_busy_started = False, pwr_info = pwr_g3, saved_pwr_info = pwr_g3,
      clk_list = [core_clk], evlog = []\<rparr>"

text \<open>The same adapter with its clocks gated.\<close>

definition hba_gated :: ufs_hba where
  "hba_gated = hba_idle\<lparr>clk_gating_state := CLKS_OFF\<rparr>"

text \<open>A read command (number 7) that the block layer has given tag 0, and the idle
  adapter with that command outstanding in slot 0, holding one clock-gating reference.\<close>

definition cmd7 :: scsi_cmnd where
  "cmd7 = \<lparr>cmd_id = 7, cmd_tag = 0, cmd_opcode = 0x28, cmd_requeue_cnt = 0, cmd_result = 0\<rparr>"

definition hba_one_cmd :: ufs_hba where
  "hba_one_cmd =
     hba_idle\<lparr>lrb := (\<lambda>_. lrb_empty)(0 := lrb_empty\<lparr>lrb_cmd := Some cmd7\<rparr>),
              lrb_in_use := 1, outstanding_reqs := 1, clk_gating_active_reqs := 1\<rparr>"

text \<open>Collaborators that all succeed, on a kernel without the host performance booster.\<close>

definition qc_ok :: qc_env where
  "qc_ok = \<lparr>qc_trylock_ok = True, qc_crypto_err = 0, qc_map_sg_err = 0,
            qc_config_ufshpb = False\<rparr>"

text \<open>The same collaborators, except that \<open>ufshcd_map_sg\<close> fails with \<open>-EIO\<close>.\<close>

definition qc_map_fail :: qc_env where
  "qc_map_fail = qc_ok\<lparr>qc_map_sg_err := - EIO\<rparr>"

text \<open>What another CPU does to the tag bitmap when it claims tag 31.\<close>

definition claim_31 :: "ulong \<Rightarrow> ulong" where
  "claim_31 w = set_bit 31 w"

text \<open>A read command that the block layer has given tag 3.\<close>

definition cmd9 :: scsi_cmnd where
  "cmd9 = \<lparr>cmd_id = 9, cmd_tag = 3, cmd_opcode = 0x28, cmd_requeue_cnt = 0, cmd_result = 0\<rparr>"

text \<open>The idle adapter in the run states \<open>RESET\<close> and \<open>ERROR\<close>, and the gated adapter in
  the run state \<open>ERROR\<close>.\<close>

definition hba_reset :: ufs_hba where
  "hba_reset = hba_idle\<lparr>ufshcd_state := UFSHCD_STATE_RESET\<rparr>"

definition hba_error :: ufs_hba where
  "hba_error = hba_idle\<lparr>ufshcd_state := UFSHCD_STATE_ERROR\<rparr>"

definition hba_error_gated :: ufs_hba where
  "hba_error_gated = hba_gated\<lparr>ufshcd_state := UFSHCD_STATE_ERROR\<rparr>"

text \<open>
  A link-control command (\<open>DME_GET\<close>, opcode 1) and the idle adapter right after
  \<open>__ufshcd_send_uic_cmd\<close> has sent it; a command-completion interrupt that reports
  success and the attribute value 5; a hibernate-enter command (opcode \<open>0x17\<close>), the
  interrupt that reports the end of the hibernate entry, and an environment in which
  that interrupt comes only after the wait has timed out.
\<close>

definition uic_get :: uic_command where
  "uic_get = uic_cmd_empty\<lparr>uic_opcode := 1\<rparr>"

definition hba_uic_sent :: ufs_hba where
  "hba_uic_sent = snd (uu_ufshcd_send_uic_cmd True uic_get True hba_idle)"

definition irq_uccs :: uic_irq where
  "irq_uccs = \<lparr>irq_status = 0x400, irq_arg2 = 0, irq_arg3 = 5\<rparr>"

definition uic_hibern8_enter :: uic_command where
  "uic_hibern8_enter = uic_cmd_empty\<lparr>uic_opcode := 0x17\<rparr>"

definition irq_uhes :: uic_irq where
  "irq_uhes = \<lparr>irq_status = 0x40, irq_arg2 = 0, irq_arg3 = 0\<rparr>"

definition pw_late_irq :: pwr_env where
  "pw_late_irq = \<lparr>pw_ready = True, pw_uccs_enabled = True, pw_in_time = [],
                  pw_late = [irq_uhes], pw_hcs = 0x10f, pw_saved_fatal = False\<rparr>"

text \<open>
  Collaborators of the scaling controller that all succeed; the same with a clock
  framework that refuses every rate, and with a link that refuses every power-mode
  change. The adapter after a scale-down: gear 1, the clock at its low rate, gear 3 saved
  for the way back.
\<close>

definition se_ok :: scale_env where
  "se_ok = \<lparr>se_clk_set_rate = (\<lambda>_ _. 0), se_clk_scale_notify = (\<lambda>_ _. 0),
            se_pwr_change_notify = (\<lambda>_. None), se_uic_change_pwr_mode = (\<lambda>_. 0),
            se_wait_for_doorbell_clr = 0, se_hold_waits = []\<rparr>"

definition se_clk_fail :: scale_env where
  "se_clk_fail = se_ok\<lparr>se_clk_set_rate := (\<lambda>_ _. - EINVAL)\<rparr>"

definition se_gear_fail :: scale_env where
  "se_gear_fail = se_ok\<lparr>se_uic_change_pwr_mode := (\<lambda>_. - EIO)\<rparr>"

definition pwr_g1 :: ufs_pa_layer_attr where
  "pwr_g1 = pwr_g3\<lparr>gear_tx := 1, gear_rx := 1\<rparr>"

definition hba_scaled_down :: ufs_hba where
  "hba_scaled_down =
     hba_idle\<lparr>pwr_info := pwr_g1, clk_list := [core_clk\<lparr>curr_freq := 50000000\<rparr>]\<rparr>"

section \<open>Observations on the event log\<close>

text \<open>The values written to the transfer request doorbell, in order.\<close>

fun doorbell_writes :: "event list \<Rightarrow> u32 list" where
  "doorbell_writes [] = []"
| "doorbell_writes (Ev_doorbell_write v # es) = v # doorbell_writes es"
| "doorbell_writes (_ # es) = doorbell_writes es"

text \<open>The commands handed back to the SCSI mid layer through \<open>scsi_done\<close>, in order.\<close>

fun scsi_dones :: "event list \<Rightarrow> scsi_cmnd list" where
  "scsi_dones [] = []"
| "scsi_dones (Ev_scsi_done c # es) = c # scsi_dones es"
| "scsi_dones (_ # es) = scsi_dones es"




section \<open>Concurrent acquisition of tags\<close>

text \<open>
  Submitters on several CPUs share the bitmap \<open>lrb_in_use\<close>, and every access to it in
  the driver is one atomic bit operation. The model interleaves these operations. A
  submitter is \<open>Idle\<close>, or has read the bitmap in \<open>ufshcd_get_dev_cmd_tag\<close> and chosen a
  tag it has not claimed yet, or holds a tag: its \<open>test_and_set_bit_lock\<close> returned 0 and
  it has not yet reached the \<open>clear_bit_unlock\<close> that ends its use of the slot.
  \<^item> \<open>Data_tas t tag\<close>: \<open>test_and_set_bit_lock (tag, &hba->lrb_in_use)\<close> in
    \<open>ufshcd_queuecommand\<close>, for a tag that passed \<open>ufshcd_valid_tag\<close>; when the bit was
    set the submitter returns \<open>SCSI_MLQUEUE_HOST_BUSY\<close> and holds nothing.
  \<^item> \<open>Dev_read t\<close>: \<open>tmp = ~hba->lrb_in_use; tag = find_last_bit (&tmp, hba->nutrs)\<close> in
    \<open>ufshcd_get_dev_cmd_tag\<close>; without a free bit the function returns \<open>false\<close>.
  \<^item> \<open>Dev_tas t\<close>: the loop condition \<open>test_and_set_bit_lock (tag, &hba->lrb_in_use)\<close> of
    \<open>ufshcd_get_dev_cmd_tag\<close>; when the bit was set the loop starts again with a new read.
  \<^item> \<open>Release t\<close>: \<open>clear_bit_unlock\<close> of the tag held, in the error paths of
    \<open>ufshcd_queuecommand\<close>, in \<open>__ufshcd_transfer_req_compl\<close> for the command of the
    slot, and in \<open>ufshcd_put_dev_cmd_tag\<close>.
  An action that does not fit the state of its submitter does nothing. \<open>n\<close> is
  \<open>hba->nutrs\<close>.
\<close>

datatype tag_pc = Idle | Dev_chosen nat | Holds nat

record tag_sys =
  bitmap :: ulong
  pcs :: "nat \<Rightarrow> tag_pc"

datatype tag_action = Data_tas nat nat | Dev_read nat | Dev_tas nat | Release nat

fun tag_step :: "nat \<Rightarrow> tag_action \<Rightarrow> tag_sys \<Rightarrow> tag_sys" where
  "tag_step n (Data_tas t tag) s =
     (if pcs s t = Idle \<and> tag < n then
        (let r = test_and_set_bit_lock tag (bitmap s) in
         if fst r then s\<lparr>bitmap := snd r\<rparr>
         else s\<lparr>bitmap := snd r, pcs := (pcs s)(t := Holds tag)\<rparr>)
      else s)"
| "tag_step n (Dev_read t) s =
     (if pcs s t = Idle then
        (let tmp = NOT (bitmap s); tag = find_last_bit tmp n in
         if tag \<ge> n then s else s\<lparr>pcs := (pcs s)(t := Dev_chosen tag)\<rparr>)
      else s)"
| "tag_step n (Dev_tas t) s =
     (case pcs s t of
        Dev_chosen tag \<Rightarrow>
          (let r = test_and_set_bit_lock tag (bitmap s) in
           if fst r then s\<lparr>bitmap := snd r, pcs := (pcs s)(t := Idle)\<rparr>
           else s\<lparr>bitmap := snd r, pcs := (pcs s)(t := Holds tag)\<rparr>)
      | _ \<Rightarrow> s)"
| "tag_step n (Release t) s =
     (case pcs s t of
        Holds tag \<Rightarrow> s\<lparr>bitmap := clear_bit_unlock tag (bitmap s), pcs := (pcs s)(t := Idle)\<rparr>
      | _ \<Rightarrow> s)"

definition tag_run :: "nat \<Rightarrow> tag_action list \<Rightarrow> tag_sys \<Rightarrow> tag_sys" where
  "tag_run n as s = fold (tag_step n) as s"

text \<open>What is to hold of every state of the model: a chosen or held tag is below \<open>n\<close>,
  the bit of a held tag is set, and no tag has two holders.\<close>

definition tag_inv :: "nat \<Rightarrow> tag_sys \<Rightarrow> bool" where
  "tag_inv n s \<longleftrightarrow>
     (\<forall>t tag. pcs s t = Dev_chosen tag \<longrightarrow> tag < n) \<and>
     (\<forall>t tag. pcs s t = Holds tag \<longrightarrow> tag < n \<and> bit (bitmap s) tag) \<and>
     (\<forall>t t' tag. pcs s t = Holds tag \<and> pcs s t' = Holds tag \<longrightarrow> t = t')"

text \<open>Nobody holds a tag; then a device-management submitter reads the bitmap and chooses
  tag 31, a data command carrying tag 31 claims it first, and the device-management
  submitter has to read again.\<close>

definition tag_sys_idle :: tag_sys where
  "tag_sys_idle = \<lparr>bitmap = 0, pcs = (\<lambda>_. Idle)\<rparr>"

definition race_schedule :: "tag_action list" where
  "race_schedule = [Dev_read 1, Data_tas 0 31, Dev_tas 1, Dev_read 1, Dev_tas 1]"

section \<open>Example runs of the gate-off path\<close>





text \<open>
  A run on the idle adapter. A caller takes a clock reference and sends a NOP OUT, which
  times out; the doorbell bit of slot 31 stays set in the controller, since the clear
  failed, while \<open>ufshcd_wait_for_dev_cmd\<close> clears the outstanding bit and
  \<open>ufshcd_exec_dev_cmd\<close> releases the tag. The read command 7 is queued in slot 0, and
  the first caller drops its reference. The command completes with status \<open>GOOD\<close>
  (\<open>answer_good_0\<close>): the interrupt handler reads
  the doorbell, in which bit 0 is clear and bit 31 is still set. The handler notifies the
  command, drops its reference, which requests gating, and toggles both bits of
  \<open>outstanding_reqs\<close>. Then the gate work runs.
\<close>



section \<open>Properties of the driver\<close>

subsection \<open>Fields that the event log and the helpers leave alone\<close>

lemma desc_prepare_fields [simp]:
  "lrb_cmd (clear_rsp_upiu l) = lrb_cmd l"
  "command_type (clear_rsp_upiu l) = command_type l"
  "task_tag (clear_rsp_upiu l) = task_tag l"
  "req_abort_skip (clear_rsp_upiu l) = req_abort_skip l"
  "utrd_dword_2 (clear_rsp_upiu l) = utrd_dword_2 l"
  "rsp_dword_0 (clear_rsp_upiu l) = 0"
  "rsp_dword_1 (clear_rsp_upiu l) = 0"
  "rsp_dword_2 (clear_rsp_upiu l) = 0"
  "lrb_cmd (ufshcd_prepare_req_desc_hdr l) = lrb_cmd l"
  "command_type (ufshcd_prepare_req_desc_hdr l) = command_type l"
  "task_tag (ufshcd_prepare_req_desc_hdr l) = task_tag l"
  "req_abort_skip (ufshcd_prepare_req_desc_hdr l) = req_abort_skip l"
  "utrd_dword_2 (ufshcd_prepare_req_desc_hdr l) = OCS_INVALID_COMMAND_STATUS"
  "rsp_dword_0 (ufshcd_prepare_req_desc_hdr l) = rsp_dword_0 l"
  "rsp_dword_1 (ufshcd_prepare_req_desc_hdr l) = rsp_dword_1 l"
  "rsp_dword_2 (ufshcd_prepare_req_desc_hdr l) = rsp_dword_2 l"
  by (simp_all add: clear_rsp_upiu_def ufshcd_prepare_req_desc_hdr_def)

lemma emit_fields [simp]:
  "nutrs (emit e h) = nutrs h"
  "lrb (emit e h) = lrb h"
  "lrb_in_use (emit e h) = lrb_in_use h"
  "outstanding_reqs (emit e h) = outstanding_reqs h"
  "outstanding_tasks (emit e h) = outstanding_tasks h"
  "ufshcd_state (emit e h) = ufshcd_state h"
  "pm_op_in_progress (emit e h) = pm_op_in_progress h"
  "force_reset (emit e h) = force_reset h"
  "ufs_version_1x (emit e h) = ufs_version_1x h"
  "clkgating_allowed (emit e h) = clkgating_allowed h"
  "hibern8_during_gating (emit e h) = hibern8_during_gating h"
  "clkscaling_supported (emit e h) = clkscaling_supported h"
  "intr_aggr_allowed (emit e h) = intr_aggr_allowed h"
  "quirk_skip_reset_intr_aggr (emit e h) = quirk_skip_reset_intr_aggr h"
  "quirk_broken_ocs_fatal_error (emit e h) = quirk_broken_ocs_fatal_error h"
  "clk_gating_state (emit e h) = clk_gating_state h"
  "clk_gating_active_reqs (emit e h) = clk_gating_active_reqs h"
  "clk_gating_is_suspended (emit e h) = clk_gating_is_suspended h"
  "gate_work_pending (emit e h) = gate_work_pending h"
  "ungate_work_pending (emit e h) = ungate_work_pending h"
  "uic_link_state (emit e h) = uic_link_state h"
  "uic_cmd (emit e h) = uic_cmd h"
  "active_uic_cmd (emit e h) = active_uic_cmd h"
  "uic_async_done (emit e h) = uic_async_done h"
  "uic_async_completed (emit e h) = uic_async_completed h"
  "dev_cmd_type (emit e h) = dev_cmd_type h"
  "dev_cmd_complete (emit e h) = dev_cmd_complete h"
  "dev_cmd_done (emit e h) = dev_cmd_done h"
  "clk_scaling_active_reqs (emit e h) = clk_scaling_active_reqs h"
  "clk_scaling_is_allowed (emit e h) = clk_scaling_is_allowed h"
  "clk_scaling_window_started (emit e h) = clk_scaling_window_started h"
  "clk_scaling_is_busy_started (emit e h) = clk_scaling_is_busy_started h"
  "pwr_info (emit e h) = pwr_info h"
  "saved_pwr_info (emit e h) = saved_pwr_info h"
  "clk_list (emit e h) = clk_list h"
  "evlog (emit e h) = evlog h @ [e]"
  by (simp_all add: emit_def)

lemma word_xor_eq_0: "(a::'a::len word) XOR b = 0 \<longleftrightarrow> a = b"
  by (metis bit.xor_self xor.assoc xor.right_neutral)

lemma release_keeps:
  "outstanding_reqs (uu_ufshcd_release h) = outstanding_reqs h"
  "nutrs (uu_ufshcd_release h) = nutrs h"
  "intr_aggr_allowed (uu_ufshcd_release h) = intr_aggr_allowed h"
  "quirk_skip_reset_intr_aggr (uu_ufshcd_release h) = quirk_skip_reset_intr_aggr h"
  by (simp_all add: uu_ufshcd_release_def Let_def)

lemma scsi_cmd_status_keeps:
  "outstanding_reqs (snd (ufshcd_scsi_cmd_status l s h)) = outstanding_reqs h"
  "nutrs (snd (ufshcd_scsi_cmd_status l s h)) = nutrs h"
  "intr_aggr_allowed (snd (ufshcd_scsi_cmd_status l s h)) = intr_aggr_allowed h"
  "quirk_skip_reset_intr_aggr (snd (ufshcd_scsi_cmd_status l s h)) =
     quirk_skip_reset_intr_aggr h"
  by (simp_all add: ufshcd_scsi_cmd_status_def ufshcd_copy_sense_data_def)

lemma rsp_status_keeps:
  "outstanding_reqs (snd (ufshcd_transfer_rsp_status h l)) = outstanding_reqs h"
  "nutrs (snd (ufshcd_transfer_rsp_status h l)) = nutrs h"
  "intr_aggr_allowed (snd (ufshcd_transfer_rsp_status h l)) = intr_aggr_allowed h"
  "quirk_skip_reset_intr_aggr (snd (ufshcd_transfer_rsp_status h l)) =
     quirk_skip_reset_intr_aggr h"
  by (simp_all add: ufshcd_transfer_rsp_status_def Let_def scsi_cmd_status_keeps)

lemma compl_one_keeps:
  "outstanding_reqs (compl_one i h) = outstanding_reqs h"
  "nutrs (compl_one i h) = nutrs h"
  "intr_aggr_allowed (compl_one i h) = intr_aggr_allowed h"
  "quirk_skip_reset_intr_aggr (compl_one i h) = quirk_skip_reset_intr_aggr h"
  by (simp_all add: compl_one_def Let_def release_keeps rsp_status_keeps split: option.splits)

lemma fold_compl_one_keeps:
  "outstanding_reqs (fold compl_one is h) = outstanding_reqs h \<and>
   nutrs (fold compl_one is h) = nutrs h \<and>
   intr_aggr_allowed (fold compl_one is h) = intr_aggr_allowed h \<and>
   quirk_skip_reset_intr_aggr (fold compl_one is h) = quirk_skip_reset_intr_aggr h"
  by (induction "is" arbitrary: h) (simp_all add: compl_one_keeps)

lemma update_busy_keeps:
  "outstanding_reqs (ufshcd_clk_scaling_update_busy h) = outstanding_reqs h"
  "intr_aggr_allowed (ufshcd_clk_scaling_update_busy h) = intr_aggr_allowed h"
  "quirk_skip_reset_intr_aggr (ufshcd_clk_scaling_update_busy h) =
     quirk_skip_reset_intr_aggr h"
  by (simp_all add: ufshcd_clk_scaling_update_busy_def)

lemma uu_compl_keeps:
  "outstanding_reqs (uu_ufshcd_transfer_req_compl c h) = outstanding_reqs h XOR c"
  "intr_aggr_allowed (uu_ufshcd_transfer_req_compl c h) = intr_aggr_allowed h"
  "quirk_skip_reset_intr_aggr (uu_ufshcd_transfer_req_compl c h) =
     quirk_skip_reset_intr_aggr h"
  by (simp_all add: uu_ufshcd_transfer_req_compl_def Let_def update_busy_keeps
      fold_compl_one_keeps)

lemma reset_first_keeps:
  "outstanding_reqs (reset_intr_aggr_first h) = outstanding_reqs h"
  "lrb_in_use (reset_intr_aggr_first h) = lrb_in_use h"
  "lrb (reset_intr_aggr_first h) = lrb h"
  "intr_aggr_allowed (reset_intr_aggr_first h) = intr_aggr_allowed h"
  "quirk_skip_reset_intr_aggr (reset_intr_aggr_first h) = quirk_skip_reset_intr_aggr h"
  by (simp_all add: reset_intr_aggr_first_def)

lemma reset_first_log:
  "evlog (reset_intr_aggr_first h) = evlog h \<or>
   evlog (reset_intr_aggr_first h) = evlog h @ [Ev_reset_intr_aggr]"
  by (simp add: reset_intr_aggr_first_def)

lemma compl_outstanding:
  "outstanding_reqs (snd (ufshcd_transfer_req_compl db h)) = ucast db"
  by (simp add: ufshcd_transfer_req_compl_def Let_def uu_compl_keeps reset_first_keeps
      ac_simps word_xor_eq_0)

lemma second_pass:
  assumes "outstanding_reqs h1 = ucast db"
  shows "ufshcd_transfer_req_compl db h1 = (IRQ_NONE, reset_intr_aggr_first h1)"
  using assms by (simp add: ufshcd_transfer_req_compl_def Let_def reset_first_keeps)

subsection \<open>Evaluation of the examples\<close>

lemma for_each_bit0: "for_each_set_bit 1 32 = [0]"
  by code_simp

lemmas example_defs =
  hba_idle_def hba_gated_def hba_one_cmd_def lrb_empty_def uic_cmd_empty_def cmd7_def
  cmd9_def qc_ok_def hba_reset_def hba_error_def hba_error_gated_def uic_get_def
  hba_uic_sent_def irq_uccs_def uic_hibern8_enter_def irq_uhes_def pw_late_irq_def
  se_ok_def se_clk_fail_def se_gear_fail_def pwr_g1_def pwr_g3_def core_clk_def
  hba_scaled_down_def

lemmas const_defs =
  EPERM_def EIO_def EAGAIN_def EBUSY_def EINVAL_def ENOLINK_def ETIMEDOUT_def
  SCSI_MLQUEUE_HOST_BUSY_def DID_OK_def DID_BAD_TARGET_def
  DID_ABORT_def DID_ERROR_def DID_REQUEUE_def COMMAND_COMPLETE_def SAM_STAT_GOOD_def
  SAM_STAT_CHECK_CONDITION_def SAM_STAT_BUSY_def SAM_STAT_TASK_SET_FULL_def
  SAM_STAT_TASK_ABORTED_def OCS_SUCCESS_def OCS_ABORTED_def OCS_INVALID_COMMAND_STATUS_def
  MASK_OCS_def UPIU_TRANSACTION_NOP_IN_def UPIU_TRANSACTION_RESPONSE_def
  UPIU_TRANSACTION_QUERY_RSP_def UPIU_TRANSACTION_REJECT_UPIU_def
  MASK_SCSI_STATUS_def MASK_RSP_UPIU_RESULT_def MASK_RSP_EXCEPTION_EVENT_def
  MASK_UIC_COMMAND_RESULT_def COMMAND_OPCODE_MASK_def UIC_COMMAND_COMPL_def
  UFSHCD_UIC_PWR_MASK_def PWR_OK_def PWR_LOCAL_def UFS_MIN_GEAR_TO_SCALE_DOWN_def

lemmas compl_defs =
  ufshcd_transfer_req_compl_def reset_intr_aggr_first_def uu_ufshcd_transfer_req_compl_def
  compl_one_def ufshcd_transfer_rsp_status_def ufshcd_get_tr_ocs_def ufshcd_get_req_rsp_def
  ufshcd_get_rsp_upiu_result_def ufshcd_is_exception_event_def
  ufshcd_scsi_cmd_status_def ufshcd_copy_sense_data_def uu_ufshcd_release_def
  clear_bit_unlock_def ufshcd_clk_scaling_update_busy_def

lemma one_cmd_first_pass:
  "fst (ufshcd_transfer_req_compl 0 hba_one_cmd) = IRQ_HANDLED"
  "evlog (snd (ufshcd_transfer_req_compl 0 hba_one_cmd)) =
     [Ev_vops_compl_xfer_req 0 True, Ev_scsi_dma_unmap 7,
      Ev_scsi_done cmd7, Ev_queue_gate_work, Ev_wake_up_tag_wq]"
  "lrb_in_use (snd (ufshcd_transfer_req_compl 0 hba_one_cmd)) = 0"
  by (simp_all add: compl_defs example_defs const_defs Let_def for_each_bit0 emit_def
      unset_bit_eq_and_not)

subsection \<open>C4: reconciliation is idempotent\<close>

text \<open>
  Claim C4. Let \<open>h1\<close> be the adapter after one run of \<open>ufshcd_transfer_req_compl\<close> that
  read the doorbell value \<open>db\<close>. A second run that reads the same doorbell value finds
  the completed set \<open>db XOR outstanding_reqs\<close> empty and returns \<open>IRQ_NONE\<close>; it leaves
  the outstanding mask, the tag bitmap \<open>lrb_in_use\<close> and the slots as they are, and it
  adds nothing to the event log beyond, at most, the reset of the interrupt aggregation
  counters with which every run starts: no \<open>scsi_done\<close> call, no completion of a
  device-management waiter.
\<close>

theorem reconcile_idempotent:
  fixes db :: u32 and h :: ufs_hba
  defines "h1 \<equiv> snd (ufshcd_transfer_req_compl db h)"
  defines "r2 \<equiv> ufshcd_transfer_req_compl db h1"
  shows "ucast db XOR outstanding_reqs h1 = 0 \<and>
         fst r2 = IRQ_NONE \<and>
         snd r2 = reset_intr_aggr_first h1 \<and>
         outstanding_reqs (snd r2) = outstanding_reqs h1 \<and>
         lrb_in_use (snd r2) = lrb_in_use h1 \<and>
         lrb (snd r2) = lrb h1 \<and>
         (evlog (snd r2) = evlog h1 \<or> evlog (snd r2) = evlog h1 @ [Ev_reset_intr_aggr])"
proof -
  have o: "outstanding_reqs h1 = ucast db"
    unfolding h1_def by (rule compl_outstanding)
  then have r: "r2 = (IRQ_NONE, reset_intr_aggr_first h1)"
    unfolding r2_def by (rule second_pass)
  show ?thesis
    using reset_first_log [of h1] by (simp add: o r reset_first_keeps)
qed

theorem reconcile_idempotent_witness:
  "fst (ufshcd_transfer_req_compl 0 hba_one_cmd) = IRQ_HANDLED \<and>
   lrb_in_use (snd (ufshcd_transfer_req_compl 0 hba_one_cmd)) = 0 \<and>
   ufshcd_transfer_req_compl 0 (snd (ufshcd_transfer_req_compl 0 hba_one_cmd)) =
     (IRQ_NONE, snd (ufshcd_transfer_req_compl 0 hba_one_cmd)) \<and>
   evlog (snd (ufshcd_transfer_req_compl 0 (snd (ufshcd_transfer_req_compl 0 hba_one_cmd)))) =
     [Ev_vops_compl_xfer_req 0 True, Ev_scsi_dma_unmap 7,
      Ev_scsi_done cmd7, Ev_queue_gate_work, Ev_wake_up_tag_wq]"
proof -
  have a: "reset_intr_aggr_first (snd (ufshcd_transfer_req_compl 0 hba_one_cmd)) =
           snd (ufshcd_transfer_req_compl 0 hba_one_cmd)"
    by (simp add: reset_intr_aggr_first_def uu_compl_keeps reset_first_keeps
        ufshcd_transfer_req_compl_def Let_def example_defs)
  show ?thesis
    using reconcile_idempotent [of 0 hba_one_cmd]
    by (simp add: a one_cmd_first_pass prod_eq_iff)
qed

subsection \<open>C10: a non-blocking hold that reports \<open>-EAGAIN\<close>\<close>

declare ufshcd_hold_start.simps [simp del]

lemma EAGAIN_nonzero: "EAGAIN \<noteq> 0" "- EAGAIN \<noteq> 0"
  by (simp_all add: EAGAIN_def)

lemma hold_req_clks_on_async:
  "hold_req_clks_on True h =
     Inl (- EAGAIN, h\<lparr>clk_gating_active_reqs := clk_gating_active_reqs h - 1\<rparr>)"
  by (simp add: hold_req_clks_on_def)

lemma hold_clks_off_async:
  "\<exists>h2. hold_clks_off True h = Inl (- EAGAIN, h2) \<and>
        clk_gating_active_reqs h2 = clk_gating_active_reqs h - 1 \<and>
        clk_gating_state h2 = REQ_CLKS_ON"
  by (simp add: hold_clks_off_def hold_req_clks_on_async Let_def)

lemma hold_start_async_total: "\<exists>r. ufshcd_hold_start waits True h = Some r"
  using hold_clks_off_async [of h]
  by (subst ufshcd_hold_start.simps)
     (auto simp: hold_req_clks_on_async split: clk_gate_state.splits)

lemma hold_start_async_eagain:
  assumes "ufshcd_hold_start waits True h = Some (- EAGAIN, h')"
  shows "clk_gating_active_reqs h' = clk_gating_active_reqs h - 1 \<and>
         clk_gating_state h' =
           (if clk_gating_state h = CLKS_OFF \<or> clk_gating_state h = REQ_CLKS_OFF
            then REQ_CLKS_ON else clk_gating_state h)"
  using assms hold_clks_off_async [of h]
  by (subst (asm) ufshcd_hold_start.simps)
     (auto simp: hold_req_clks_on_async EAGAIN_nonzero
           split: clk_gate_state.splits if_splits)

lemma hold_gated_eval:
  "ufshcd_hold [] True hba_gated =
     Some (- EAGAIN,
           hba_gated\<lparr>clk_gating_state := REQ_CLKS_ON, ungate_work_pending := True,
                     evlog := [Ev_queue_ungate_work, Ev_scsi_block_requests]\<rparr>)"
  by (simp add: ufshcd_hold_def example_defs ufshcd_hold_start.simps hold_clks_off_def
      hold_req_clks_on_def Let_def emit_def)

lemma hold_clks_off_async_queues:
  "\<exists>h2. hold_clks_off True h = Inl (- EAGAIN, h2) \<and>
        clk_gating_active_reqs h2 = clk_gating_active_reqs h - 1 \<and>
        clk_gating_state h2 = REQ_CLKS_ON \<and> ungate_work_pending h2 \<and>
        evlog h2 = evlog h @ (if ungate_work_pending h then []
                              else [Ev_queue_ungate_work, Ev_scsi_block_requests])"
  by (simp add: hold_clks_off_def hold_req_clks_on_async Let_def emit_def)

lemma hold_start_async_eagain_work:
  assumes "ufshcd_hold_start waits True h = Some (- EAGAIN, h')"
  shows "(clk_gating_state h = REQ_CLKS_OFF \<longrightarrow> \<not> gate_work_pending h) \<and>
         (clk_gating_state h = CLKS_OFF \<or> clk_gating_state h = REQ_CLKS_OFF \<longrightarrow>
            ungate_work_pending h' \<and>
            evlog h' = evlog h @ (if ungate_work_pending h then []
                                  else [Ev_queue_ungate_work, Ev_scsi_block_requests])) \<and>
         (clk_gating_state h \<noteq> CLKS_OFF \<and> clk_gating_state h \<noteq> REQ_CLKS_OFF \<longrightarrow>
            ungate_work_pending h' = ungate_work_pending h \<and> evlog h' = evlog h)"
  using assms hold_clks_off_async_queues [of h]
  by (subst (asm) ufshcd_hold_start.simps)
     (auto simp: hold_req_clks_on_async EAGAIN_nonzero
           split: clk_gate_state.splits if_splits)


text \<open>
  Claim C10, as the code has it. A call of \<open>ufshcd_hold\<close> with \<open>async = true\<close> always
  returns. When it returns \<open>-EAGAIN\<close>, the counter \<open>clk_gating.active_reqs\<close> has the value
  it had before the call. The state \<open>clk_gating.state\<close> is the same as before when it
  was \<open>CLKS_ON\<close> or \<open>REQ_CLKS_ON\<close>, and then the call has queued nothing. From
  \<open>CLKS_OFF\<close>, and from \<open>REQ_CLKS_OFF\<close> when the gate work can no longer be cancelled,
  the call has moved the state to \<open>REQ_CLKS_ON\<close>, and the ungate work is queued: by this
  call, which then also blocks the SCSI requests, unless it was queued already.
\<close>

theorem hold_async_eagain_restores_counter:
  "(\<exists>r. ufshcd_hold waits True h = Some r) \<and>
   (\<forall>h'. ufshcd_hold waits True h = Some (- EAGAIN, h') \<longrightarrow>
      clk_gating_active_reqs h' = clk_gating_active_reqs h \<and>
      clk_gating_state h' =
        (if clk_gating_state h = CLKS_OFF \<or> clk_gating_state h = REQ_CLKS_OFF
         then REQ_CLKS_ON else clk_gating_state h) \<and>
      (clk_gating_state h = REQ_CLKS_OFF \<longrightarrow> \<not> gate_work_pending h) \<and>
      (clk_gating_state h = CLKS_OFF \<or> clk_gating_state h = REQ_CLKS_OFF \<longrightarrow>
         ungate_work_pending h' \<and>
         evlog h' = evlog h @ (if ungate_work_pending h then []
                               else [Ev_queue_ungate_work, Ev_scsi_block_requests])) \<and>
      (clk_gating_state h \<noteq> CLKS_OFF \<and> clk_gating_state h \<noteq> REQ_CLKS_OFF \<longrightarrow>
         ungate_work_pending h' = ungate_work_pending h \<and> evlog h' = evlog h))"
proof -
  have total: "\<exists>r. ufshcd_hold waits True h = Some r"
    using hold_start_async_total by (simp add: ufshcd_hold_def)
  have "clk_gating_active_reqs h' = clk_gating_active_reqs h \<and>
        clk_gating_state h' =
          (if clk_gating_state h = CLKS_OFF \<or> clk_gating_state h = REQ_CLKS_OFF
           then REQ_CLKS_ON else clk_gating_state h) \<and>
        (clk_gating_state h = REQ_CLKS_OFF \<longrightarrow> \<not> gate_work_pending h) \<and>
        (clk_gating_state h = CLKS_OFF \<or> clk_gating_state h = REQ_CLKS_OFF \<longrightarrow>
           ungate_work_pending h' \<and>
           evlog h' = evlog h @ (if ungate_work_pending h then []
                                 else [Ev_queue_ungate_work, Ev_scsi_block_requests])) \<and>
        (clk_gating_state h \<noteq> CLKS_OFF \<and> clk_gating_state h \<noteq> REQ_CLKS_OFF \<longrightarrow>
           ungate_work_pending h' = ungate_work_pending h \<and> evlog h' = evlog h)"
    if a: "ufshcd_hold waits True h = Some (- EAGAIN, h')" for h'
  proof -
    from a have g: "clkgating_allowed h"
      by (auto simp: ufshcd_hold_def EAGAIN_nonzero split: if_splits)
    with a have s: "ufshcd_hold_start waits True
                   (h\<lparr>clk_gating_active_reqs := clk_gating_active_reqs h + 1\<rparr>) =
                 Some (- EAGAIN, h')"
      by (simp add: ufshcd_hold_def)
    from hold_start_async_eagain [OF s] hold_start_async_eagain_work [OF s]
    show ?thesis by simp
  qed
  with total show ?thesis by blast
qed

theorem hold_async_eagain_restores_counter_witness:
  "map_option fst (ufshcd_hold [] True hba_gated) = Some (- EAGAIN) \<and>
   map_option (clk_gating_active_reqs \<circ> snd) (ufshcd_hold [] True hba_gated) =
     Some (clk_gating_active_reqs hba_gated) \<and>
   map_option (clk_gating_state \<circ> snd) (ufshcd_hold [] True hba_gated) = Some REQ_CLKS_ON \<and>
   map_option (ungate_work_pending \<circ> snd) (ufshcd_hold [] True hba_gated) = Some True \<and>
   map_option (evlog \<circ> snd) (ufshcd_hold [] True hba_gated) =
     Some [Ev_queue_ungate_work, Ev_scsi_block_requests]"
proof -
  let ?h' = "hba_gated\<lparr>clk_gating_state := REQ_CLKS_ON, ungate_work_pending := True,
                       evlog := [Ev_queue_ungate_work, Ev_scsi_block_requests]\<rparr>"
  have s: "clk_gating_state hba_gated = CLKS_OFF" "\<not> ungate_work_pending hba_gated"
    "evlog hba_gated = []"
    by (simp_all add: example_defs)
  from hold_async_eagain_restores_counter [of "[]" hba_gated] hold_gated_eval
  have "clk_gating_active_reqs ?h' = clk_gating_active_reqs hba_gated \<and>
        clk_gating_state ?h' =
          (if clk_gating_state hba_gated = CLKS_OFF \<or> clk_gating_state hba_gated = REQ_CLKS_OFF
           then REQ_CLKS_ON else clk_gating_state hba_gated) \<and>
        (clk_gating_state hba_gated = CLKS_OFF \<or> clk_gating_state hba_gated = REQ_CLKS_OFF \<longrightarrow>
           ungate_work_pending ?h' \<and>
           evlog ?h' = evlog hba_gated @ (if ungate_work_pending hba_gated then []
                                 else [Ev_queue_ungate_work, Ev_scsi_block_requests]))"
    by blast
  with s show ?thesis by (simp add: hold_gated_eval)
qed

text \<open>
  The claim as written ends with ``a failed non-blocking hold leaves the gating state
  unchanged''. On the gated adapter the call returns \<open>-EAGAIN\<close> and the state has gone
  from \<open>CLKS_OFF\<close> to \<open>REQ_CLKS_ON\<close>.
\<close>

theorem hold_async_eagain_state_counterexample:
  "map_option fst (ufshcd_hold [] True hba_gated) = Some (- EAGAIN) \<and>
   map_option (clk_gating_state \<circ> snd) (ufshcd_hold [] True hba_gated) = Some REQ_CLKS_ON \<and>
   clk_gating_state hba_gated = CLKS_OFF"
  by (simp add: hold_gated_eval) (simp add: example_defs)

subsection \<open>Submission: what the clock hold and the failure paths leave alone\<close>

lemma doorbell_writes_append [simp]:
  "doorbell_writes (xs @ ys) = doorbell_writes xs @ doorbell_writes ys"
  by (induction xs rule: doorbell_writes.induct) simp_all

lemma scsi_dones_append [simp]:
  "scsi_dones (xs @ ys) = scsi_dones xs @ scsi_dones ys"
  by (induction xs rule: scsi_dones.induct) simp_all


lemma hold_async_result:
  assumes "ufshcd_hold ws True h = Some (rc, h')"
  shows "lrb h' = lrb h \<and> lrb_in_use h' = lrb_in_use h \<and>
         outstanding_reqs h' = outstanding_reqs h \<and> outstanding_tasks h' = outstanding_tasks h \<and>
         ufshcd_state h' = ufshcd_state h \<and> pm_op_in_progress h' = pm_op_in_progress h \<and>
         nutrs h' = nutrs h \<and> ufs_version_1x h' = ufs_version_1x h \<and>
         doorbell_writes (evlog h') = doorbell_writes (evlog h) \<and>
         scsi_dones (evlog h') = scsi_dones (evlog h) \<and>
         (rc = 0 \<longrightarrow> evlog h' = evlog h)"
  using assms
  apply (simp add: ufshcd_hold_def split: if_splits)
  apply (subst (asm) ufshcd_hold_start.simps)
  apply (auto simp: hold_req_clks_on_def hold_clks_off_def Let_def EAGAIN_nonzero
      split: clk_gate_state.splits if_splits)
  done


lemma release_frame:
  "lrb (uu_ufshcd_release h) = lrb h"
  "lrb_in_use (uu_ufshcd_release h) = lrb_in_use h"
  "outstanding_reqs (uu_ufshcd_release h) = outstanding_reqs h"
  "ufshcd_state (uu_ufshcd_release h) = ufshcd_state h"
  "doorbell_writes (evlog (uu_ufshcd_release h)) = doorbell_writes (evlog h)"
  "scsi_dones (evlog (uu_ufshcd_release h)) = scsi_dones (evlog h)"
  by (simp_all add: uu_ufshcd_release_def Let_def)

lemma qc_undo_frame:
  "outstanding_reqs (qc_undo tag h) = outstanding_reqs h"
  "doorbell_writes (evlog (qc_undo tag h)) = doorbell_writes (evlog h)"
  "scsi_dones (evlog (qc_undo tag h)) = scsi_dones (evlog h)"
  by (simp_all add: qc_undo_def Let_def ufshcd_release_def release_frame)

lemma qc_out_compl_cmd_frame:
  "fst (qc_out_compl_cmd err c tag h) = err"
  "outstanding_reqs (snd (qc_out_compl_cmd err c tag h)) = outstanding_reqs h"
  "doorbell_writes (evlog (snd (qc_out_compl_cmd err c tag h))) = doorbell_writes (evlog h)"
  "scsi_dones (evlog (snd (qc_out_compl_cmd err c tag h))) =
     scsi_dones (evlog h) @ (if err = 0 then [c] else [])"
  by (simp_all add: qc_out_compl_cmd_def Let_def ufshcd_release_def release_frame)

lemma HOST_BUSY_nonzero: "SCSI_MLQUEUE_HOST_BUSY \<noteq> 0"
  by (simp add: SCSI_MLQUEUE_HOST_BUSY_def)

lemma qc_check_state_not_issued:
  assumes "ufshcd_state h = UFSHCD_STATE_RESET \<or> ufshcd_state h = UFSHCD_STATE_EH_SCHEDULED_FATAL \<or>
           ufshcd_state h = UFSHCD_STATE_ERROR"
  shows "outstanding_reqs (snd (qc_check_state c tag h)) = outstanding_reqs h \<and>
         doorbell_writes (evlog (snd (qc_check_state c tag h))) = doorbell_writes (evlog h)"
  using assms by (auto simp: qc_check_state_def qc_out_compl_cmd_frame)

lemma qc_check_state_recovery:
  assumes "ufshcd_state h = UFSHCD_STATE_RESET \<or>
           (ufshcd_state h = UFSHCD_STATE_EH_SCHEDULED_FATAL \<and> \<not> pm_op_in_progress h)"
  shows "fst (qc_check_state c tag h) = SCSI_MLQUEUE_HOST_BUSY \<and>
         scsi_dones (evlog (snd (qc_check_state c tag h))) = scsi_dones (evlog h)"
  using assms by (auto simp: qc_check_state_def qc_out_compl_cmd_frame HOST_BUSY_nonzero)

lemma qc_check_state_error:
  assumes "ufshcd_state h = UFSHCD_STATE_ERROR"
  shows "fst (qc_check_state c tag h) = 0 \<and>
         scsi_dones (evlog (snd (qc_check_state c tag h))) =
           scsi_dones (evlog h) @ [set_host_byte c DID_ERROR]"
  using assms by (auto simp: qc_check_state_def qc_out_compl_cmd_frame)

lemma comp_scsi_upiu_frame:
  "outstanding_reqs (ufshcd_comp_scsi_upiu tag h) = outstanding_reqs h"
  "ufshcd_state (ufshcd_comp_scsi_upiu tag h) = ufshcd_state h"
  "pm_op_in_progress (ufshcd_comp_scsi_upiu tag h) = pm_op_in_progress h"
  "evlog (ufshcd_comp_scsi_upiu tag h) = evlog h @ [Ev_comp_scsi_upiu tag]"
  by (simp_all add: ufshcd_comp_scsi_upiu_def)

lemma qc_check_state_not_issued_eq:
  assumes "qc_check_state c tag hx = (rc, h')"
    and "ufshcd_state hx = UFSHCD_STATE_RESET \<or> ufshcd_state hx = UFSHCD_STATE_EH_SCHEDULED_FATAL \<or>
         ufshcd_state hx = UFSHCD_STATE_ERROR"
  shows "outstanding_reqs h' = outstanding_reqs hx \<and>
         doorbell_writes (evlog h') = doorbell_writes (evlog hx)"
  using qc_check_state_not_issued [OF assms(2), of c tag] assms(1) by simp

lemma qc_prepare_not_issued:
  assumes p: "qc_prepare env c tag h = Some (rc, h')"
    and s: "ufshcd_state h = UFSHCD_STATE_RESET \<or> ufshcd_state h = UFSHCD_STATE_EH_SCHEDULED_FATAL \<or>
         ufshcd_state h = UFSHCD_STATE_ERROR"
  shows "outstanding_reqs h' = outstanding_reqs h \<and>
         doorbell_writes (evlog h') = doorbell_writes (evlog h)"
proof (cases "qc_crypto_err env = 0 \<and> qc_map_sg_err env = 0 \<and>
              \<not> (qc_config_ufshpb env \<and> cmd_requeue_cnt c \<noteq> 0)")
  case False
  with p show ?thesis
    by (auto simp: qc_prepare_def Let_def qc_undo_frame comp_scsi_upiu_frame split: if_splits)
next
  case True
  define hx where "hx = emit Ev_wmb (emit (Ev_map_sg tag) (ufshcd_comp_scsi_upiu tag
                 ((emit (Ev_prepare_crypto tag)
                    (h\<lparr>lrb := (lrb h)(tag := (lrb h tag)\<lparr>lrb_cmd := Some c, task_tag := tag\<rparr>)\<rparr>))
                  \<lparr>lrb := (lrb h)(tag := (lrb h tag)\<lparr>lrb_cmd := Some c, task_tag := tag,
                       req_abort_skip := False\<rparr>)\<rparr>)))"
  from True p have e: "qc_check_state c tag hx = (rc, h')"
    by (auto simp: qc_prepare_def Let_def hx_def)
  have f: "ufshcd_state hx = ufshcd_state h" "outstanding_reqs hx = outstanding_reqs h"
    "doorbell_writes (evlog hx) = doorbell_writes (evlog h)"
    by (simp_all add: hx_def comp_scsi_upiu_frame)
  from qc_check_state_not_issued_eq [OF e] s f show ?thesis by simp
qed

lemma qc_prepare_reaches_check:
  assumes "qc_crypto_err env = 0" "qc_map_sg_err env = 0"
    and "\<not> (qc_config_ufshpb env \<and> cmd_requeue_cnt c \<noteq> 0)"
  shows "qc_prepare env c tag h =
           Some (qc_check_state c tag
              (emit Ev_wmb (emit (Ev_map_sg tag) (ufshcd_comp_scsi_upiu tag
                 ((emit (Ev_prepare_crypto tag)
                    (h\<lparr>lrb := (lrb h)(tag := (lrb h tag)\<lparr>lrb_cmd := Some c, task_tag := tag\<rparr>)\<rparr>))
                  \<lparr>lrb := (lrb h)(tag := (lrb h tag)\<lparr>lrb_cmd := Some c, task_tag := tag,
                       req_abort_skip := False\<rparr>)\<rparr>)))))"
  using assms by (auto simp: qc_prepare_def Let_def)


lemma and_ff00_ff: "(a AND 65280) AND (255::32 word) = 0"
proof -
  have "(65280::32 word) AND 255 = 0" by simp
  then show ?thesis by (simp only: and.assoc and_zero_eq)
qed

lemma host_byte_set_host_byte: "host_byte (cmd_result (set_host_byte c DID_ERROR)) = DID_ERROR"
  unfolding host_byte_def set_host_byte_def DID_ERROR_def
  by (simp add: drop_bit_or drop_bit_and bit.conj_disj_distrib2 and_ff00_ff)

lemma hold_async_total: "\<exists>rc h'. ufshcd_hold ws True h = Some (rc, h')"
  using hold_start_async_total [of ws "h\<lparr>clk_gating_active_reqs := clk_gating_active_reqs h + 1\<rparr>"]
  by (auto simp: ufshcd_hold_def)


lemma start_busy_frame:
  "outstanding_reqs (ufshcd_clk_scaling_start_busy h) = outstanding_reqs h"
  "lrb (ufshcd_clk_scaling_start_busy h) = lrb h"
  "lrb_in_use (ufshcd_clk_scaling_start_busy h) = lrb_in_use h"
  "evlog (ufshcd_clk_scaling_start_busy h) = evlog h \<or>
   evlog (ufshcd_clk_scaling_start_busy h) = evlog h @ [Ev_queue_resume_work]"
  by (simp_all add: ufshcd_clk_scaling_start_busy_def Let_def)

lemma send_command_effect:
  "outstanding_reqs (ufshcd_send_command tag h) = set_bit tag (outstanding_reqs h)"
  "lrb (ufshcd_send_command tag h) = lrb h"
  "lrb_in_use (ufshcd_send_command tag h) = lrb_in_use h"
  "\<exists>mid. (mid = [] \<or> mid = [Ev_queue_resume_work]) \<and>
     evlog (ufshcd_send_command tag h) =
       evlog h @ [Ev_setup_xfer_req tag (lrb_cmd (lrb h tag) \<noteq> None)] @ mid @
       [Ev_set_outstanding tag, Ev_doorbell_write (push_bit tag 1), Ev_wmb]"
  using start_busy_frame(4) [of "emit (Ev_setup_xfer_req tag (lrb_cmd (lrb h tag) \<noteq> None)) h"]
  by (auto simp: ufshcd_send_command_def Let_def start_busy_frame)

lemma qc_issued:
  assumes q: "ufshcd_queuecommand env c h = Some (0, h')"
    and s: "ufshcd_state h = UFSHCD_STATE_OPERATIONAL \<or>
            ufshcd_state h = UFSHCD_STATE_EH_SCHEDULED_NON_FATAL"
  shows "\<exists>h2 tag. tag = nat (cmd_tag c) \<and> \<not> bit (lrb_in_use h) tag \<and>
           ufshcd_hold [] True (h\<lparr>lrb_in_use := set_bit tag (lrb_in_use h)\<rparr>) = Some (0, h2) \<and>
           h' = ufshcd_send_command tag
              (emit Ev_wmb (emit (Ev_map_sg tag) (ufshcd_comp_scsi_upiu tag
                 ((emit (Ev_prepare_crypto tag)
                    (h2\<lparr>lrb := (lrb h2)(tag := (lrb h2 tag)\<lparr>lrb_cmd := Some c, task_tag := tag\<rparr>)\<rparr>))
                  \<lparr>lrb := (lrb h2)(tag := (lrb h2 tag)\<lparr>lrb_cmd := Some c, task_tag := tag,
                       req_abort_skip := False\<rparr>)\<rparr>))))"
proof -
  define tag where "tag = nat (cmd_tag c)"
  define h1 where "h1 = h\<lparr>lrb_in_use := set_bit tag (lrb_in_use h)\<rparr>"
  from hold_async_total obtain err h2 where hd: "ufshcd_hold [] True h1 = Some (err, h2)"
    by blast
  note fr = hold_async_result [OF hd]
  from q have t: "qc_trylock_ok env" "\<not> bit (lrb_in_use h) tag"
    by (auto simp: ufshcd_queuecommand_def Let_def test_and_set_bit_lock_def tag_def
        HOST_BUSY_nonzero split: if_splits)
  with q hd have e: "err = 0" and p: "qc_prepare env c tag h2 = Some (0, h')"
    by (auto simp: ufshcd_queuecommand_def Let_def test_and_set_bit_lock_def tag_def h1_def
        HOST_BUSY_nonzero split: if_splits)
  from p have pre: "qc_crypto_err env = 0" "qc_map_sg_err env = 0"
    "\<not> (qc_config_ufshpb env \<and> cmd_requeue_cnt c \<noteq> 0)"
    by (auto simp: qc_prepare_def Let_def EAGAIN_nonzero split: if_splits)
  from s fr have s2: "ufshcd_state h2 = UFSHCD_STATE_OPERATIONAL \<or>
            ufshcd_state h2 = UFSHCD_STATE_EH_SCHEDULED_NON_FATAL"
    by (simp add: h1_def)
  from p s2 have "h' = ufshcd_send_command tag
              (emit Ev_wmb (emit (Ev_map_sg tag) (ufshcd_comp_scsi_upiu tag
                 ((emit (Ev_prepare_crypto tag)
                    (h2\<lparr>lrb := (lrb h2)(tag := (lrb h2 tag)\<lparr>lrb_cmd := Some c, task_tag := tag\<rparr>)\<rparr>))
                  \<lparr>lrb := (lrb h2)(tag := (lrb h2 tag)\<lparr>lrb_cmd := Some c, task_tag := tag,
                       req_abort_skip := False\<rparr>)\<rparr>))))"
    unfolding qc_prepare_reaches_check [OF pre]
    by (auto simp: qc_check_state_def comp_scsi_upiu_frame)
  with t hd e show ?thesis
    by (auto simp: tag_def h1_def)
qed


subsection \<open>The highest set bit of a bitmap\<close>

lemma flb_head:
  assumes "filter P (rev [0..<n]) = i # js"
  shows "i < n \<and> P i"
proof -
  have "i \<in> set (filter P (rev [0..<n]))" unfolding assms by simp
  then show ?thesis by simp
qed

lemma flb_max:
  assumes "filter P (rev [0..<n]) = i # js" "i < t" "t < n"
  shows "\<not> P t"
  using assms
proof (induction n)
  case 0
  then show ?case by simp
next
  case (Suc n)
  show ?case
  proof (cases "P n")
    case True
    with Suc.prems(1) have "i = n" by simp
    with Suc.prems show ?thesis by simp
  next
    case False
    with Suc.prems(1) have f: "filter P (rev [0..<n]) = i # js" by simp
    show ?thesis
    proof (cases "t = n")
      case True
      with False show ?thesis by simp
    next
      case False
      with Suc.prems have "t < n" by simp
      from Suc.IH [OF f Suc.prems(2) this] show ?thesis .
    qed
  qed
qed

lemma flb_none:
  assumes "filter P (rev [0..<n]) = []" "t < n"
  shows "\<not> P t"
proof -
  from assms(1) have "\<forall>x\<in>set (rev [0..<n]). \<not> P x" by (simp only: filter_empty_conv)
  with assms(2) show ?thesis by simp
qed

lemma find_last_bit_found:
  assumes "find_last_bit w n < n"
  shows "bit w (find_last_bit w n) \<and> (\<forall>t. find_last_bit w n < t \<and> t < n \<longrightarrow> \<not> bit w t)"
proof (cases "filter (bit w) (rev [0..<n])")
  case Nil
  with assms show ?thesis by (simp add: find_last_bit_def)
next
  case (Cons i js)
  then have "find_last_bit w n = i" by (simp add: find_last_bit_def)
  with flb_head [OF Cons] flb_max [OF Cons] show ?thesis by blast
qed

lemma find_last_bit_none:
  assumes "\<not> find_last_bit w n < n"
  shows "\<forall>t<n. \<not> bit w t"
proof (cases "filter (bit w) (rev [0..<n])")
  case Nil
  with flb_none [OF Nil] show ?thesis by blast
next
  case (Cons i js)
  then have "find_last_bit w n = i" by (simp add: find_last_bit_def)
  with flb_head [OF Cons] assms show ?thesis by simp
qed

lemma bit_not_ulong: "t < 64 \<Longrightarrow> bit (NOT (w::ulong)) t \<longleftrightarrow> \<not> bit w t"
  by (simp add: bit_not_iff)

declare ufshcd_get_dev_cmd_tag.simps [simp del]

lemma free_tag_found:
  assumes "find_last_bit (NOT (w::ulong)) n < n"
  shows "\<not> bit w (find_last_bit (NOT w) n) \<and> find_last_bit (NOT w) n < 64"
proof -
  from find_last_bit_found [OF assms] have "bit (NOT w) (find_last_bit (NOT w) n)" by simp
  then show ?thesis by (simp add: bit_not_iff)
qed

lemma dev_tag_round_nil:
  "ufshcd_get_dev_cmd_tag [] h =
     (if find_last_bit (NOT (lrb_in_use h)) (nutrs h) < nutrs h
      then Some (Some (find_last_bit (NOT (lrb_in_use h)) (nutrs h)),
                 h\<lparr>lrb_in_use := set_bit (find_last_bit (NOT (lrb_in_use h)) (nutrs h))
                                     (lrb_in_use h)\<rparr>)
      else Some (None, h))"
proof (cases "find_last_bit (NOT (lrb_in_use h)) (nutrs h) < nutrs h")
  case True
  from free_tag_found [OF True] True show ?thesis
    by (simp add: ufshcd_get_dev_cmd_tag.simps [of "[]"] Let_def test_and_set_bit_lock_def)
next
  case False
  then show ?thesis
    by (simp add: ufshcd_get_dev_cmd_tag.simps [of "[]"] Let_def)
qed

lemma dev_tag_round_cons:
  "ufshcd_get_dev_cmd_tag (f # others) h =
     (if find_last_bit (NOT (lrb_in_use h)) (nutrs h) < nutrs h
      then (if bit (f (lrb_in_use h)) (find_last_bit (NOT (lrb_in_use h)) (nutrs h))
            then ufshcd_get_dev_cmd_tag others
                   (h\<lparr>lrb_in_use := set_bit (find_last_bit (NOT (lrb_in_use h)) (nutrs h))
                                       (f (lrb_in_use h))\<rparr>)
            else Some (Some (find_last_bit (NOT (lrb_in_use h)) (nutrs h)),
                       h\<lparr>lrb_in_use := set_bit (find_last_bit (NOT (lrb_in_use h)) (nutrs h))
                                           (f (lrb_in_use h))\<rparr>))
      else Some (None, h))"
  by (simp add: ufshcd_get_dev_cmd_tag.simps [of "f # others"] Let_def test_and_set_bit_lock_def)

lemma get_dev_cmd_tag_returns: "\<exists>r. ufshcd_get_dev_cmd_tag others h = Some r"
proof (induction others arbitrary: h)
  case Nil
  show ?case by (simp add: dev_tag_round_nil)
next
  case (Cons f others)
  show ?case using Cons.IH by (simp add: dev_tag_round_cons)
qed

lemma get_dev_cmd_tag_claims:
  assumes "ufshcd_get_dev_cmd_tag others h = Some (Some tag, h')"
  shows "tag < nutrs h \<and> bit (lrb_in_use h') tag \<and> nutrs h' = nutrs h"
  using assms
proof (induction others arbitrary: h)
  case Nil
  then have t: "tag = find_last_bit (NOT (lrb_in_use h)) (nutrs h)" "tag < nutrs h"
    "h' = h\<lparr>lrb_in_use := set_bit tag (lrb_in_use h)\<rparr>"
    by (auto simp: dev_tag_round_nil split: if_splits)
  from free_tag_found [of "lrb_in_use h" "nutrs h"] t have "tag < 64" by simp
  with t show ?case by (simp add: bit_set_bit_iff)
next
  case (Cons f others)
  let ?t = "find_last_bit (NOT (lrb_in_use h)) (nutrs h)"
  from Cons.prems have l: "?t < nutrs h"
    by (auto simp: dev_tag_round_cons split: if_splits)
  from free_tag_found [OF l] have l64: "?t < 64" by simp
  show ?case
  proof (cases "bit (f (lrb_in_use h)) ?t")
    case True
    with Cons.prems l have
      "ufshcd_get_dev_cmd_tag others (h\<lparr>lrb_in_use := set_bit ?t (f (lrb_in_use h))\<rparr>) =
         Some (Some tag, h')"
      by (simp add: dev_tag_round_cons)
    from Cons.IH [OF this] show ?thesis by simp
  next
    case False
    with Cons.prems l have "tag = ?t" "h' = h\<lparr>lrb_in_use := set_bit ?t (f (lrb_in_use h))\<rparr>"
      by (auto simp: dev_tag_round_cons)
    with l l64 show ?thesis by (simp add: bit_set_bit_iff)
  qed
qed

lemma get_dev_cmd_tag_highest:
  assumes n: "nutrs h \<le> 64"
    and g: "ufshcd_get_dev_cmd_tag [] h = Some (Some tag, h')"
  shows "tag < nutrs h \<and> \<not> bit (lrb_in_use h) tag \<and>
         (\<forall>t. tag < t \<and> t < nutrs h \<longrightarrow> bit (lrb_in_use h) t) \<and>
         h' = h\<lparr>lrb_in_use := set_bit tag (lrb_in_use h)\<rparr>"
proof -
  from g have t: "tag = find_last_bit (NOT (lrb_in_use h)) (nutrs h)" and l: "tag < nutrs h"
    and h': "h' = h\<lparr>lrb_in_use := set_bit tag (lrb_in_use h)\<rparr>"
    by (auto simp: dev_tag_round_nil split: if_splits)
  from find_last_bit_found [of "NOT (lrb_in_use h)" "nutrs h"] t l
  have a: "bit (NOT (lrb_in_use h)) tag"
    and b: "\<forall>t. tag < t \<and> t < nutrs h \<longrightarrow> \<not> bit (NOT (lrb_in_use h)) t"
    by auto
  from a have "\<not> bit (lrb_in_use h) tag" by (simp add: bit_not_iff)
  moreover from b n have "\<forall>t. tag < t \<and> t < nutrs h \<longrightarrow> bit (lrb_in_use h) t"
    by (auto simp: bit_not_iff)
  ultimately show ?thesis using l h' by simp
qed

lemma get_dev_cmd_tag_full:
  assumes n: "nutrs h \<le> 64"
    and g: "ufshcd_get_dev_cmd_tag [] h = Some (None, h')"
  shows "\<forall>t<nutrs h. bit (lrb_in_use h) t"
proof -
  from g have "\<not> find_last_bit (NOT (lrb_in_use h)) (nutrs h) < nutrs h"
    by (auto simp: dev_tag_round_nil split: if_splits)
  from find_last_bit_none [OF this] n show ?thesis
    by (auto simp: bit_not_iff)
qed

lemma qc_issued_slot:
  assumes q: "ufshcd_queuecommand env c h = Some (0, h')"
    and s: "ufshcd_state h = UFSHCD_STATE_OPERATIONAL \<or>
            ufshcd_state h = UFSHCD_STATE_EH_SCHEDULED_NON_FATAL"
  shows "\<not> bit (lrb_in_use h) (nat (cmd_tag c)) \<and>
         lrb_in_use h' = set_bit (nat (cmd_tag c)) (lrb_in_use h) \<and>
         lrb_cmd (lrb h' (nat (cmd_tag c))) = Some c"
proof -
  from qc_issued [OF q s] obtain h2 tag where
    t: "tag = nat (cmd_tag c)" and nb: "\<not> bit (lrb_in_use h) tag" and
    hd: "ufshcd_hold [] True (h\<lparr>lrb_in_use := set_bit tag (lrb_in_use h)\<rparr>) = Some (0, h2)" and
    h': "h' = ufshcd_send_command tag
              (emit Ev_wmb (emit (Ev_map_sg tag) (ufshcd_comp_scsi_upiu tag
                 ((emit (Ev_prepare_crypto tag)
                    (h2\<lparr>lrb := (lrb h2)(tag := (lrb h2 tag)\<lparr>lrb_cmd := Some c, task_tag := tag\<rparr>)\<rparr>))
                  \<lparr>lrb := (lrb h2)(tag := (lrb h2 tag)\<lparr>lrb_cmd := Some c, task_tag := tag,
                       req_abort_skip := False\<rparr>)\<rparr>))))"
    by blast
  note fr = hold_async_result [OF hd]
  from h' fr nb show ?thesis
    unfolding t [symmetric]
    by (simp add: send_command_effect ufshcd_comp_scsi_upiu_def)
qed


subsection \<open>Evaluation of submissions on the example adapters\<close>

lemmas qc_defs =
  ufshcd_queuecommand_def ufshcd_valid_tag_def test_and_set_bit_lock_def ufshcd_hold_def
  ufshcd_hold_start.simps hold_clks_off_def hold_req_clks_on_def qc_prepare_def
  ufshcd_comp_scsi_upiu_def ufshcd_prepare_req_desc_hdr_def clear_rsp_upiu_def
  qc_check_state_def ufshcd_send_command_def
  ufshcd_clk_scaling_start_busy_def qc_out_compl_cmd_def qc_undo_def ufshcd_release_def
  uu_ufshcd_release_def clear_bit_unlock_def

lemma qc_idle_cmd7:
  "map_option fst (ufshcd_queuecommand qc_ok cmd7 hba_idle) = Some 0"
  "map_option (evlog \<circ> snd) (ufshcd_queuecommand qc_ok cmd7 hba_idle) =
     Some [Ev_prepare_crypto 0, Ev_comp_scsi_upiu 0, Ev_map_sg 0, Ev_wmb,
           Ev_setup_xfer_req 0 True, Ev_set_outstanding 0, Ev_doorbell_write 1, Ev_wmb]"
  "map_option (outstanding_reqs \<circ> snd) (ufshcd_queuecommand qc_ok cmd7 hba_idle) = Some 1"
  by (simp_all add: qc_defs example_defs Let_def emit_def set_bit_eq_or unset_bit_eq_and_not)

lemma qc_idle_cmd9:
  "map_option fst (ufshcd_queuecommand qc_ok cmd9 hba_idle) = Some 0"
  "map_option (lrb_in_use \<circ> snd) (ufshcd_queuecommand qc_ok cmd9 hba_idle) = Some 8"
  "map_option (\<lambda>r. lrb_cmd (lrb (snd r) 3)) (ufshcd_queuecommand qc_ok cmd9 hba_idle) =
     Some (Some cmd9)"
  by (simp_all add: qc_defs example_defs Let_def emit_def set_bit_eq_or unset_bit_eq_and_not)

lemma qc_error_cmd7:
  "map_option fst (ufshcd_queuecommand qc_ok cmd7 hba_error) = Some 0"
  "map_option (scsi_dones \<circ> evlog \<circ> snd) (ufshcd_queuecommand qc_ok cmd7 hba_error) =
     Some [set_host_byte cmd7 DID_ERROR]"
  by (simp_all add: qc_defs example_defs Let_def emit_def set_bit_eq_or unset_bit_eq_and_not)

lemma qc_reset_cmd7:
  "map_option fst (ufshcd_queuecommand qc_ok cmd7 hba_reset) = Some SCSI_MLQUEUE_HOST_BUSY"
  "map_option (scsi_dones \<circ> evlog \<circ> snd) (ufshcd_queuecommand qc_ok cmd7 hba_reset) = Some []"
  by (simp_all add: qc_defs example_defs Let_def emit_def set_bit_eq_or unset_bit_eq_and_not
      HOST_BUSY_nonzero)

lemma qc_error_gated_cmd7:
  "map_option fst (ufshcd_queuecommand qc_ok cmd7 hba_error_gated) = Some SCSI_MLQUEUE_HOST_BUSY"
  "map_option (scsi_dones \<circ> evlog \<circ> snd) (ufshcd_queuecommand qc_ok cmd7 hba_error_gated) =
     Some []"
  "ufshcd_state hba_error_gated = UFSHCD_STATE_ERROR"
  by (simp_all add: qc_defs example_defs Let_def emit_def set_bit_eq_or unset_bit_eq_and_not
      HOST_BUSY_nonzero EAGAIN_nonzero)

lemma find_last_free_idle: "find_last_bit (- 1) 32 = 31"
  by code_simp

lemma dev_tag_idle:
  "ufshcd_get_dev_cmd_tag [] hba_idle = Some (Some 31, hba_idle\<lparr>lrb_in_use := 0x80000000\<rparr>)"
  by (simp add: dev_tag_round_nil example_defs find_last_free_idle set_bit_eq_or)

subsection \<open>C7: submission while the controller recovers or has failed\<close>

lemma set_bit_taken: "bit (w :: ulong) k \<Longrightarrow> set_bit k w = w"
  by (rule bit_eqI) (auto simp add: bit_set_bit_iff)

lemma unset_set_free: "\<not> bit (w :: ulong) k \<Longrightarrow> unset_bit k (set_bit k w) = w"
  by (rule bit_eqI) (auto simp add: bit_set_bit_iff bit_unset_bit_iff)

lemma qc_undo_tag:
  "lrb_in_use (qc_undo tag h) = unset_bit tag (lrb_in_use h)"
  by (simp add: qc_undo_def Let_def ufshcd_release_def release_frame clear_bit_unlock_def)

lemma comp_scsi_upiu_in_use:
  "lrb_in_use (ufshcd_comp_scsi_upiu tag h) = lrb_in_use h"
  by (simp add: ufshcd_comp_scsi_upiu_def)

lemma qc_prepare_early:
  assumes p: "qc_prepare env c tag h = Some (rc, h')"
    and e: "\<not> (qc_crypto_err env = 0 \<and> qc_map_sg_err env = 0 \<and>
               \<not> (qc_config_ufshpb env \<and> cmd_requeue_cnt c \<noteq> 0))"
  shows "rc = (if qc_crypto_err env \<noteq> 0 then qc_crypto_err env
               else if qc_config_ufshpb env \<and> cmd_requeue_cnt c \<noteq> 0 then - EAGAIN
               else qc_map_sg_err env) \<and>
         rc \<noteq> 0 \<and> lrb_in_use h' = unset_bit tag (lrb_in_use h) \<and>
         outstanding_reqs h' = outstanding_reqs h \<and>
         scsi_dones (evlog h') = scsi_dones (evlog h) \<and>
         doorbell_writes (evlog h') = doorbell_writes (evlog h)"
  using p e
  by (auto simp: qc_prepare_def Let_def qc_undo_frame qc_undo_tag comp_scsi_upiu_frame
      comp_scsi_upiu_in_use EAGAIN_nonzero scsi_dones_append doorbell_writes_append
      split: if_splits)

lemma qc_early_failure:
  fixes c :: scsi_cmnd and tag :: nat
  defines "tag \<equiv> nat (cmd_tag c)"
  assumes v: "ufshcd_valid_tag h (cmd_tag c)"
  and q: "ufshcd_queuecommand env c h = Some (rc, h')"
  and nr: "\<not> (qc_trylock_ok env \<and> \<not> bit (lrb_in_use h) tag \<and>
           (\<exists>h2. ufshcd_hold [] True
                   (h\<lparr>lrb_in_use := set_bit tag (lrb_in_use h)\<rparr>) = Some (0, h2)) \<and>
           qc_crypto_err env = 0 \<and> qc_map_sg_err env = 0 \<and>
           \<not> (qc_config_ufshpb env \<and> cmd_requeue_cnt c \<noteq> 0))"
  shows "rc = (if qc_trylock_ok env \<and> \<not> bit (lrb_in_use h) tag \<and>
                   (\<exists>h2. ufshcd_hold [] True
                           (h\<lparr>lrb_in_use := set_bit tag (lrb_in_use h)\<rparr>) = Some (0, h2))
                then (if qc_crypto_err env \<noteq> 0 then qc_crypto_err env
                      else if qc_config_ufshpb env \<and> cmd_requeue_cnt c \<noteq> 0 then - EAGAIN
                      else qc_map_sg_err env)
                else SCSI_MLQUEUE_HOST_BUSY) \<and>
          rc \<noteq> 0 \<and> lrb_in_use h' = lrb_in_use h \<and>
          outstanding_reqs h' = outstanding_reqs h \<and>
          scsi_dones (evlog h') = scsi_dones (evlog h) \<and>
          doorbell_writes (evlog h') = doorbell_writes (evlog h)"
proof (cases "qc_trylock_ok env")
  case False
  with q v show ?thesis
    by (simp add: ufshcd_queuecommand_def HOST_BUSY_nonzero)
next
  case t: True
  show ?thesis
  proof (cases "bit (lrb_in_use h) tag")
    case True
    with q v t show ?thesis
      by (simp add: ufshcd_queuecommand_def Let_def test_and_set_bit_lock_def tag_def
          HOST_BUSY_nonzero set_bit_taken)
  next
    case b: False
    define h1 where "h1 = h\<lparr>lrb_in_use := set_bit tag (lrb_in_use h)\<rparr>"
    from hold_async_total obtain err h2 where hd: "ufshcd_hold [] True h1 = Some (err, h2)"
      by blast
    note fr = hold_async_result [OF hd]
    show ?thesis
    proof (cases "err = 0")
      case False
      with q v t b hd have "rc = SCSI_MLQUEUE_HOST_BUSY"
        "h' = h2\<lparr>lrb_in_use := clear_bit_unlock tag (lrb_in_use h2)\<rparr>"
        by (simp_all add: ufshcd_queuecommand_def Let_def test_and_set_bit_lock_def tag_def
            h1_def)
      with False hd fr b show ?thesis
        by (simp add: h1_def HOST_BUSY_nonzero clear_bit_unlock_def unset_set_free)
    next
      case e0: True
      with q v t b hd have p: "qc_prepare env c tag h2 = Some (rc, h')"
        by (simp add: ufshcd_queuecommand_def Let_def test_and_set_bit_lock_def tag_def
            h1_def)
      from nr t b hd e0 have early: "\<not> (qc_crypto_err env = 0 \<and> qc_map_sg_err env = 0 \<and>
             \<not> (qc_config_ufshpb env \<and> cmd_requeue_cnt c \<noteq> 0))"
        by (auto simp: h1_def)
      have cond: "qc_trylock_ok env \<and> \<not> bit (lrb_in_use h) tag \<and>
                 (\<exists>h2. ufshcd_hold [] True
                         (h\<lparr>lrb_in_use := set_bit tag (lrb_in_use h)\<rparr>) = Some (0, h2))"
        using t b hd e0 by (auto simp: h1_def)
      note R = qc_prepare_early [OF p early]
      from R have x: "rc = (if qc_crypto_err env \<noteq> 0 then qc_crypto_err env
                    else if qc_config_ufshpb env \<and> cmd_requeue_cnt c \<noteq> 0 then - EAGAIN
                    else qc_map_sg_err env)"
        and nz: "rc \<noteq> 0" by blast+
      from R fr b have iu: "lrb_in_use h' = lrb_in_use h"
        by (simp add: h1_def unset_set_free)
      from R fr have rest: "outstanding_reqs h' = outstanding_reqs h"
        "scsi_dones (evlog h') = scsi_dones (evlog h)"
        "doorbell_writes (evlog h') = doorbell_writes (evlog h)"
        by (simp_all add: h1_def)
      have "rc = (if qc_trylock_ok env \<and> \<not> bit (lrb_in_use h) tag \<and>
                 (\<exists>h2. ufshcd_hold [] True
                         (h\<lparr>lrb_in_use := set_bit tag (lrb_in_use h)\<rparr>) = Some (0, h2))
              then (if qc_crypto_err env \<noteq> 0 then qc_crypto_err env
                    else if qc_config_ufshpb env \<and> cmd_requeue_cnt c \<noteq> 0 then - EAGAIN
                    else qc_map_sg_err env)
              else SCSI_MLQUEUE_HOST_BUSY)"
        unfolding if_P [OF cond] by (rule x)
      with nz iu rest show ?thesis by blast
    qed
  qed
qed

lemma qc_reset_map_fail:
  "\<exists>h'. ufshcd_queuecommand qc_map_fail cmd7 hba_reset = Some (- EIO, h')"
  by (simp add: qc_defs qc_map_fail_def example_defs Let_def EIO_def)


text \<open>
  Claim C7, as the code has it. \<open>ufshcd_queuecommand\<close> looks at the run state only
  after it has taken the scaling lock, claimed the tag, taken a clock-gating reference
  and prepared the slot; a submission that fails one of these steps returns before the
  run state is read. So:
  \<^item> in the run states \<open>RESET\<close>, \<open>EH_SCHEDULED_FATAL\<close> and \<open>ERROR\<close> no call, whatever
    its outcome, sets an outstanding bit or writes the doorbell;
  \<^item> a submission that reaches the check while recovery is in progress (\<open>RESET\<close>, or
    \<open>EH_SCHEDULED_FATAL\<close> outside a power-management operation) returns
    \<open>SCSI_MLQUEUE_HOST_BUSY\<close> and the command is not completed;
  \<^item> a submission that reaches the check in the run state \<open>ERROR\<close> returns 0 after
    completing the command through \<open>scsi_done\<close> with the host byte \<open>DID_ERROR\<close>;
  \<^item> a submission that does not reach the check, in whatever run state, returns
    \<open>SCSI_MLQUEUE_HOST_BUSY\<close> when the scaling lock, the tag or the clock hold is refused,
    and otherwise the error of the step that failed (encryption set-up, the requeue of
    the host performance booster, scatter-gather mapping); the result is not 0, the tag
    bitmap is as before the call, and nothing is completed or issued.
\<close>

theorem queuecommand_recovery_and_error:
  fixes env :: qc_env and c :: scsi_cmnd and h :: ufs_hba
  defines "tag \<equiv> nat (cmd_tag c)"
  defines "halted \<equiv> ufshcd_state h = UFSHCD_STATE_RESET \<or>
                    ufshcd_state h = UFSHCD_STATE_EH_SCHEDULED_FATAL \<or>
                    ufshcd_state h = UFSHCD_STATE_ERROR"
  defines "recovering \<equiv> ufshcd_state h = UFSHCD_STATE_RESET \<or>
                        (ufshcd_state h = UFSHCD_STATE_EH_SCHEDULED_FATAL \<and>
                         \<not> pm_op_in_progress h)"
  defines "reaches_check \<equiv>
             ufshcd_valid_tag h (cmd_tag c) \<and> qc_trylock_ok env \<and>
             \<not> bit (lrb_in_use h) tag \<and>
             (\<exists>h2. ufshcd_hold [] True (h\<lparr>lrb_in_use := set_bit tag (lrb_in_use h)\<rparr>) =
                     Some (0, h2)) \<and>
             qc_crypto_err env = 0 \<and> qc_map_sg_err env = 0 \<and>
             \<not> (qc_config_ufshpb env \<and> cmd_requeue_cnt c \<noteq> 0)"
  shows "(\<forall>rc h'. halted \<and> ufshcd_queuecommand env c h = Some (rc, h') \<longrightarrow>
            outstanding_reqs h' = outstanding_reqs h \<and>
            doorbell_writes (evlog h') = doorbell_writes (evlog h)) \<and>
         (reaches_check \<and> recovering \<longrightarrow>
            (\<exists>h'. ufshcd_queuecommand env c h = Some (SCSI_MLQUEUE_HOST_BUSY, h') \<and>
                  scsi_dones (evlog h') = scsi_dones (evlog h))) \<and>
         (reaches_check \<and> ufshcd_state h = UFSHCD_STATE_ERROR \<longrightarrow>
            (\<exists>h'. ufshcd_queuecommand env c h = Some (0, h') \<and>
                  scsi_dones (evlog h') = scsi_dones (evlog h) @ [set_host_byte c DID_ERROR] \<and>
                  host_byte (cmd_result (set_host_byte c DID_ERROR)) = DID_ERROR)) \<and>
         (\<forall>rc h'. ufshcd_valid_tag h (cmd_tag c) \<and> \<not> reaches_check \<and>
                  ufshcd_queuecommand env c h = Some (rc, h') \<longrightarrow>
            rc = (if qc_trylock_ok env \<and> \<not> bit (lrb_in_use h) tag \<and>
                     (\<exists>h2. ufshcd_hold [] True
                             (h\<lparr>lrb_in_use := set_bit tag (lrb_in_use h)\<rparr>) = Some (0, h2))
                  then (if qc_crypto_err env \<noteq> 0 then qc_crypto_err env
                        else if qc_config_ufshpb env \<and> cmd_requeue_cnt c \<noteq> 0 then - EAGAIN
                        else qc_map_sg_err env)
                  else SCSI_MLQUEUE_HOST_BUSY) \<and>
            rc \<noteq> 0 \<and> lrb_in_use h' = lrb_in_use h \<and>
            outstanding_reqs h' = outstanding_reqs h \<and>
            scsi_dones (evlog h') = scsi_dones (evlog h) \<and>
            doorbell_writes (evlog h') = doorbell_writes (evlog h))"
proof -
  have A: "outstanding_reqs h' = outstanding_reqs h \<and>
        doorbell_writes (evlog h') = doorbell_writes (evlog h)"
    if hl: halted and q: "ufshcd_queuecommand env c h = Some (rc, h')" for rc h'
  proof (cases "qc_trylock_ok env \<and> \<not> bit (lrb_in_use h) tag")
    case False
    with q show ?thesis
      by (auto simp: ufshcd_queuecommand_def Let_def test_and_set_bit_lock_def tag_def
          split: if_splits)
  next
    case True
    define h1 where "h1 = h\<lparr>lrb_in_use := set_bit tag (lrb_in_use h)\<rparr>"
    from hold_async_total obtain err h2 where hd: "ufshcd_hold [] True h1 = Some (err, h2)"
      by blast
    note fr = hold_async_result [OF hd]
    show ?thesis
    proof (cases "err = 0")
      case False
      with q True hd fr show ?thesis
        by (auto simp: ufshcd_queuecommand_def Let_def test_and_set_bit_lock_def tag_def h1_def
            split: if_splits)
    next
      case e0: True
      with q True hd have p: "qc_prepare env c tag h2 = Some (rc, h')"
        by (auto simp: ufshcd_queuecommand_def Let_def test_and_set_bit_lock_def tag_def h1_def
            split: if_splits)
      have "ufshcd_state h2 = UFSHCD_STATE_RESET \<or>
            ufshcd_state h2 = UFSHCD_STATE_EH_SCHEDULED_FATAL \<or>
            ufshcd_state h2 = UFSHCD_STATE_ERROR"
        using hl fr by (simp add: halted_def h1_def)
      from qc_prepare_not_issued [OF p this] fr show ?thesis
        by (simp add: h1_def)
    qed
  qed
  have B: "\<exists>h'. ufshcd_queuecommand env c h = Some (SCSI_MLQUEUE_HOST_BUSY, h') \<and>
             scsi_dones (evlog h') = scsi_dones (evlog h)"
    if a: "reaches_check \<and> recovering"
  proof -
  from a obtain h2 where
    hd: "ufshcd_hold [] True (h\<lparr>lrb_in_use := set_bit tag (lrb_in_use h)\<rparr>) = Some (0, h2)"
    by (auto simp: reaches_check_def)
  note fr = hold_async_result [OF hd]
  from a have pre: "qc_crypto_err env = 0" "qc_map_sg_err env = 0"
    "\<not> (qc_config_ufshpb env \<and> cmd_requeue_cnt c \<noteq> 0)"
    by (auto simp: reaches_check_def)
  define hx where "hx = emit Ev_wmb (emit (Ev_map_sg tag) (ufshcd_comp_scsi_upiu tag
                 ((emit (Ev_prepare_crypto tag)
                    (h2\<lparr>lrb := (lrb h2)(tag := (lrb h2 tag)\<lparr>lrb_cmd := Some c, task_tag := tag\<rparr>)\<rparr>))
                  \<lparr>lrb := (lrb h2)(tag := (lrb h2 tag)\<lparr>lrb_cmd := Some c, task_tag := tag,
                       req_abort_skip := False\<rparr>)\<rparr>)))"
  have q: "ufshcd_queuecommand env c h = Some (qc_check_state c tag hx)"
    using a hd qc_prepare_reaches_check [OF pre, of tag h2]
    by (auto simp: reaches_check_def ufshcd_queuecommand_def Let_def test_and_set_bit_lock_def
        tag_def hx_def)
  have f: "ufshcd_state hx = ufshcd_state h" "pm_op_in_progress hx = pm_op_in_progress h"
    "scsi_dones (evlog hx) = scsi_dones (evlog h)"
    using fr by (simp_all add: hx_def comp_scsi_upiu_frame)
  have "ufshcd_state hx = UFSHCD_STATE_RESET \<or>
        (ufshcd_state hx = UFSHCD_STATE_EH_SCHEDULED_FATAL \<and> \<not> pm_op_in_progress hx)"
    using a f by (simp add: recovering_def)
  from qc_check_state_recovery [OF this, of c tag] q f
  show ?thesis
    by (cases "qc_check_state c tag hx") auto
  qed
  have C: "\<exists>h'. ufshcd_queuecommand env c h = Some (0, h') \<and>
             scsi_dones (evlog h') = scsi_dones (evlog h) @ [set_host_byte c DID_ERROR] \<and>
             host_byte (cmd_result (set_host_byte c DID_ERROR)) = DID_ERROR"
    if a: "reaches_check \<and> ufshcd_state h = UFSHCD_STATE_ERROR"
  proof -
  from a obtain h2 where
    hd: "ufshcd_hold [] True (h\<lparr>lrb_in_use := set_bit tag (lrb_in_use h)\<rparr>) = Some (0, h2)"
    by (auto simp: reaches_check_def)
  note fr = hold_async_result [OF hd]
  from a have pre: "qc_crypto_err env = 0" "qc_map_sg_err env = 0"
    "\<not> (qc_config_ufshpb env \<and> cmd_requeue_cnt c \<noteq> 0)"
    by (auto simp: reaches_check_def)
  define hx where "hx = emit Ev_wmb (emit (Ev_map_sg tag) (ufshcd_comp_scsi_upiu tag
                 ((emit (Ev_prepare_crypto tag)
                    (h2\<lparr>lrb := (lrb h2)(tag := (lrb h2 tag)\<lparr>lrb_cmd := Some c, task_tag := tag\<rparr>)\<rparr>))
                  \<lparr>lrb := (lrb h2)(tag := (lrb h2 tag)\<lparr>lrb_cmd := Some c, task_tag := tag,
                       req_abort_skip := False\<rparr>)\<rparr>)))"
  have q: "ufshcd_queuecommand env c h = Some (qc_check_state c tag hx)"
    using a hd qc_prepare_reaches_check [OF pre, of tag h2]
    by (auto simp: reaches_check_def ufshcd_queuecommand_def Let_def test_and_set_bit_lock_def
        tag_def hx_def)
  have f: "ufshcd_state hx = UFSHCD_STATE_ERROR"
    "scsi_dones (evlog hx) = scsi_dones (evlog h)"
    using fr a by (simp_all add: hx_def comp_scsi_upiu_frame)
  from qc_check_state_error [OF f(1), of c tag] q f host_byte_set_host_byte [of c]
  show ?thesis
    by (cases "qc_check_state c tag hx") auto
  qed
  have D: "rc = (if qc_trylock_ok env \<and> \<not> bit (lrb_in_use h) tag \<and>
                     (\<exists>h2. ufshcd_hold [] True
                             (h\<lparr>lrb_in_use := set_bit tag (lrb_in_use h)\<rparr>) = Some (0, h2))
                  then (if qc_crypto_err env \<noteq> 0 then qc_crypto_err env
                        else if qc_config_ufshpb env \<and> cmd_requeue_cnt c \<noteq> 0 then - EAGAIN
                        else qc_map_sg_err env)
                  else SCSI_MLQUEUE_HOST_BUSY) \<and>
            rc \<noteq> 0 \<and> lrb_in_use h' = lrb_in_use h \<and>
            outstanding_reqs h' = outstanding_reqs h \<and>
            scsi_dones (evlog h') = scsi_dones (evlog h) \<and>
            doorbell_writes (evlog h') = doorbell_writes (evlog h)"
    if a: "ufshcd_valid_tag h (cmd_tag c) \<and> \<not> reaches_check \<and>
           ufshcd_queuecommand env c h = Some (rc, h')" for rc h'
  proof -
    from a have v: "ufshcd_valid_tag h (cmd_tag c)"
      and q: "ufshcd_queuecommand env c h = Some (rc, h')"
      and nr: "\<not> reaches_check" by simp_all
    from v nr have "\<not> (qc_trylock_ok env \<and> \<not> bit (lrb_in_use h) (nat (cmd_tag c)) \<and>
             (\<exists>h2. ufshcd_hold [] True
                     (h\<lparr>lrb_in_use := set_bit (nat (cmd_tag c)) (lrb_in_use h)\<rparr>) =
                   Some (0, h2)) \<and>
             qc_crypto_err env = 0 \<and> qc_map_sg_err env = 0 \<and>
             \<not> (qc_config_ufshpb env \<and> cmd_requeue_cnt c \<noteq> 0))"
      unfolding reaches_check_def tag_def by simp
    from qc_early_failure [OF v q this]
    show ?thesis unfolding tag_def .
  qed
  show ?thesis
    apply (rule conjI)
     apply (use A in blast)
    apply (rule conjI)
     apply (use B in blast)
    apply (rule conjI)
     apply (use C in blast)
    apply (rule allI, rule allI, rule impI)
    apply (erule D)
    done
qed

theorem queuecommand_recovery_and_error_witness:
  "map_option fst (ufshcd_queuecommand qc_ok cmd7 hba_reset) = Some SCSI_MLQUEUE_HOST_BUSY \<and>
   map_option (scsi_dones \<circ> evlog \<circ> snd) (ufshcd_queuecommand qc_ok cmd7 hba_reset) = Some [] \<and>
   map_option fst (ufshcd_queuecommand qc_ok cmd7 hba_error) = Some 0 \<and>
   map_option (scsi_dones \<circ> evlog \<circ> snd) (ufshcd_queuecommand qc_ok cmd7 hba_error) =
     Some [set_host_byte cmd7 DID_ERROR] \<and>
   map_option (doorbell_writes \<circ> evlog \<circ> snd) (ufshcd_queuecommand qc_ok cmd7 hba_error) =
     Some [] \<and>
   map_option fst (ufshcd_queuecommand qc_map_fail cmd7 hba_reset) = Some (- EIO) \<and>
   map_option (lrb_in_use \<circ> snd) (ufshcd_queuecommand qc_map_fail cmd7 hba_reset) = Some 0 \<and>
   map_option (scsi_dones \<circ> evlog \<circ> snd) (ufshcd_queuecommand qc_map_fail cmd7 hba_reset) =
     Some []"
proof -
  have r: "ufshcd_valid_tag hba_reset (cmd_tag cmd7) \<and> qc_trylock_ok qc_ok \<and>
           \<not> bit (lrb_in_use hba_reset) (nat (cmd_tag cmd7)) \<and>
           (\<exists>h2. ufshcd_hold [] True
                   (hba_reset\<lparr>lrb_in_use := set_bit (nat (cmd_tag cmd7)) (lrb_in_use hba_reset)\<rparr>) =
                 Some (0, h2)) \<and>
           qc_crypto_err qc_ok = 0 \<and> qc_map_sg_err qc_ok = 0 \<and>
           \<not> (qc_config_ufshpb qc_ok \<and> cmd_requeue_cnt cmd7 \<noteq> 0)"
    by (simp add: example_defs ufshcd_valid_tag_def ufshcd_hold_def ufshcd_hold_start.simps)
  have e: "ufshcd_valid_tag hba_error (cmd_tag cmd7) \<and> qc_trylock_ok qc_ok \<and>
           \<not> bit (lrb_in_use hba_error) (nat (cmd_tag cmd7)) \<and>
           (\<exists>h2. ufshcd_hold [] True
                   (hba_error\<lparr>lrb_in_use := set_bit (nat (cmd_tag cmd7)) (lrb_in_use hba_error)\<rparr>) =
                 Some (0, h2)) \<and>
           qc_crypto_err qc_ok = 0 \<and> qc_map_sg_err qc_ok = 0 \<and>
           \<not> (qc_config_ufshpb qc_ok \<and> cmd_requeue_cnt cmd7 \<noteq> 0)"
    by (simp add: example_defs ufshcd_valid_tag_def ufshcd_hold_def ufshcd_hold_start.simps)
  have m: "ufshcd_valid_tag hba_reset (cmd_tag cmd7)"
    "\<not> (ufshcd_valid_tag hba_reset (cmd_tag cmd7) \<and> qc_trylock_ok qc_map_fail \<and>
           \<not> bit (lrb_in_use hba_reset) (nat (cmd_tag cmd7)) \<and>
           (\<exists>h2. ufshcd_hold [] True
                   (hba_reset\<lparr>lrb_in_use := set_bit (nat (cmd_tag cmd7)) (lrb_in_use hba_reset)\<rparr>) =
                 Some (0, h2)) \<and>
           qc_crypto_err qc_map_fail = 0 \<and> qc_map_sg_err qc_map_fail = 0 \<and>
           \<not> (qc_config_ufshpb qc_map_fail \<and> cmd_requeue_cnt cmd7 \<noteq> 0))"
    by (simp_all add: example_defs qc_map_fail_def ufshcd_valid_tag_def EIO_def)
  have s: "ufshcd_state hba_reset = UFSHCD_STATE_RESET" "ufshcd_state hba_error = UFSHCD_STATE_ERROR"
    "evlog hba_reset = []" "evlog hba_error = []" "lrb_in_use hba_reset = 0"
    by (simp_all add: example_defs)
  note R = queuecommand_recovery_and_error [where h = hba_reset and c = cmd7 and env = qc_ok]
  note E = queuecommand_recovery_and_error [where h = hba_error and c = cmd7 and env = qc_ok]
  note M = queuecommand_recovery_and_error [where h = hba_reset and c = cmd7 and env = qc_map_fail]
  from R [THEN conjunct2, THEN conjunct1] r s
  obtain h1 where 1: "ufshcd_queuecommand qc_ok cmd7 hba_reset = Some (SCSI_MLQUEUE_HOST_BUSY, h1)"
    "scsi_dones (evlog h1) = []"
    by auto
  from E [THEN conjunct2, THEN conjunct2, THEN conjunct1] e s
  obtain h2 where 2: "ufshcd_queuecommand qc_ok cmd7 hba_error = Some (0, h2)"
    "scsi_dones (evlog h2) = [set_host_byte cmd7 DID_ERROR]"
    by auto
  from E [THEN conjunct1] 2 s
  have 3: "doorbell_writes (evlog h2) = []"
    by auto
  from qc_reset_map_fail obtain h3 where
    4: "ufshcd_queuecommand qc_map_fail cmd7 hba_reset = Some (- EIO, h3)" by blast
  from M [THEN conjunct2, THEN conjunct2, THEN conjunct2, rule_format, of "- EIO" h3] m 4
  have "lrb_in_use h3 = lrb_in_use hba_reset \<and> scsi_dones (evlog h3) = scsi_dones (evlog hba_reset)"
    by blast
  with s have 5: "lrb_in_use h3 = 0" "scsi_dones (evlog h3) = []" by simp_all
  from 1 2 3 4 5 show ?thesis by simp
qed

text \<open>
  The claim as written promises the device-error classification for every command
  submitted in the run state \<open>ERROR\<close>. With the clocks gated the clock hold fails first:
  the call returns \<open>SCSI_MLQUEUE_HOST_BUSY\<close> and completes nothing.
\<close>

theorem queuecommand_error_busy_counterexample:
  "ufshcd_state hba_error_gated = UFSHCD_STATE_ERROR \<and>
   map_option fst (ufshcd_queuecommand qc_ok cmd7 hba_error_gated) = Some SCSI_MLQUEUE_HOST_BUSY \<and>
   map_option (scsi_dones \<circ> evlog \<circ> snd) (ufshcd_queuecommand qc_ok cmd7 hba_error_gated) =
     Some []"
  by (simp add: qc_error_gated_cmd7)


subsection \<open>C8: the order of the steps of a submission\<close>

text \<open>
  Claim C8, as the code has it. A submission that issues the command (the call returns
  0 in a run state that lets commands through) adds to the event log, in this order: the
  crypto and descriptor header set-up, the scatter-gather table, a write barrier, the
  vendor hook of \<open>ufshcd_send_command\<close> (and possibly the resume of clock scaling), the
  marking of the outstanding bit, the doorbell write, and a second write barrier. The
  barriers stand before the outstanding bit is marked and after the doorbell write.
\<close>

theorem submission_order:
  assumes q: "ufshcd_queuecommand env c h = Some (0, h')"
    and s: "ufshcd_state h = UFSHCD_STATE_OPERATIONAL \<or>
            ufshcd_state h = UFSHCD_STATE_EH_SCHEDULED_NON_FATAL"
  shows "\<exists>mid. (mid = [] \<or> mid = [Ev_queue_resume_work]) \<and>
           evlog h' = evlog h @
             [Ev_prepare_crypto (nat (cmd_tag c)), Ev_comp_scsi_upiu (nat (cmd_tag c)),
              Ev_map_sg (nat (cmd_tag c)), Ev_wmb,
              Ev_setup_xfer_req (nat (cmd_tag c)) True] @ mid @
             [Ev_set_outstanding (nat (cmd_tag c)),
              Ev_doorbell_write (push_bit (nat (cmd_tag c)) 1), Ev_wmb] \<and>
           outstanding_reqs h' = set_bit (nat (cmd_tag c)) (outstanding_reqs h)"
proof -
  from qc_issued [OF q s] obtain h2 tag where
    t: "tag = nat (cmd_tag c)" and
    hd: "ufshcd_hold [] True (h\<lparr>lrb_in_use := set_bit tag (lrb_in_use h)\<rparr>) = Some (0, h2)" and
    h': "h' = ufshcd_send_command tag
              (emit Ev_wmb (emit (Ev_map_sg tag) (ufshcd_comp_scsi_upiu tag
                 ((emit (Ev_prepare_crypto tag)
                    (h2\<lparr>lrb := (lrb h2)(tag := (lrb h2 tag)\<lparr>lrb_cmd := Some c, task_tag := tag\<rparr>)\<rparr>))
                  \<lparr>lrb := (lrb h2)(tag := (lrb h2 tag)\<lparr>lrb_cmd := Some c, task_tag := tag,
                       req_abort_skip := False\<rparr>)\<rparr>))))"
    by blast
  note fr = hold_async_result [OF hd]
  define hx where "hx = emit Ev_wmb (emit (Ev_map_sg tag) (ufshcd_comp_scsi_upiu tag
                 ((emit (Ev_prepare_crypto tag)
                    (h2\<lparr>lrb := (lrb h2)(tag := (lrb h2 tag)\<lparr>lrb_cmd := Some c, task_tag := tag\<rparr>)\<rparr>))
                  \<lparr>lrb := (lrb h2)(tag := (lrb h2 tag)\<lparr>lrb_cmd := Some c, task_tag := tag,
                       req_abort_skip := False\<rparr>)\<rparr>)))"
  have x: "evlog hx = evlog h @ [Ev_prepare_crypto tag, Ev_comp_scsi_upiu tag, Ev_map_sg tag, Ev_wmb]"
    "lrb_cmd (lrb hx tag) = Some c" "outstanding_reqs hx = outstanding_reqs h"
    using fr by (simp_all add: hx_def ufshcd_comp_scsi_upiu_def)
  from send_command_effect(4) [of tag hx] send_command_effect(1) [of tag hx] x h'
  show ?thesis
    unfolding t [symmetric] hx_def [symmetric] by auto
qed

theorem submission_order_witness:
  "ufshcd_state hba_idle = UFSHCD_STATE_OPERATIONAL \<and>
   map_option fst (ufshcd_queuecommand qc_ok cmd7 hba_idle) = Some 0 \<and>
   map_option (outstanding_reqs \<circ> snd) (ufshcd_queuecommand qc_ok cmd7 hba_idle) =
     Some (set_bit 0 0) \<and>
   map_option (doorbell_writes \<circ> evlog \<circ> snd) (ufshcd_queuecommand qc_ok cmd7 hba_idle) =
     Some [1]"
proof -
  from qc_idle_cmd7(1) obtain h' where q: "ufshcd_queuecommand qc_ok cmd7 hba_idle = Some (0, h')"
    by (cases "ufshcd_queuecommand qc_ok cmd7 hba_idle") auto
  have s: "ufshcd_state hba_idle = UFSHCD_STATE_OPERATIONAL" "evlog hba_idle = []"
    "outstanding_reqs hba_idle = 0" "nat (cmd_tag cmd7) = 0"
    by (simp_all add: example_defs)
  from submission_order [OF q] s
  have "outstanding_reqs h' = set_bit 0 0 \<and> doorbell_writes (evlog h') = [1]"
    by auto
  with q s show ?thesis by simp
qed


text \<open>
  The claim as written puts the barrier between the marking of the outstanding bit and
  the doorbell write. In the log of a submission on the idle adapter the doorbell write
  follows the marking at once.
\<close>

theorem submission_barrier_counterexample:
  "map_option (evlog \<circ> snd) (ufshcd_queuecommand qc_ok cmd7 hba_idle) =
     Some [Ev_prepare_crypto 0, Ev_comp_scsi_upiu 0, Ev_map_sg 0, Ev_wmb,
           Ev_setup_xfer_req 0 True, Ev_set_outstanding 0, Ev_doorbell_write 1, Ev_wmb]"
  by (rule qc_idle_cmd7(2))


subsection \<open>C9: the order of tag allocation\<close>

lemma get_dev_cmd_tag_trace:
  assumes "ufshcd_get_dev_cmd_tag others h = Some (r, h')"
  shows "\<exists>k\<le>length others. \<exists>w w'.
           w = fold (\<lambda>f. f) (take k others) (lrb_in_use h) \<and>
           w' = (if k < length others then (others ! k) w else w) \<and>
           (case r of
              Some tag \<Rightarrow> tag = find_last_bit (NOT w) (nutrs h) \<and> tag < nutrs h \<and>
                          \<not> bit w' tag \<and> h' = h\<lparr>lrb_in_use := set_bit tag w'\<rparr>
            | None \<Rightarrow> \<not> find_last_bit (NOT w) (nutrs h) < nutrs h \<and>
                      h' = h\<lparr>lrb_in_use := w\<rparr>)"
  using assms
proof (induction others arbitrary: h)
  case Nil
  let ?t = "find_last_bit (NOT (lrb_in_use h)) (nutrs h)"
  show ?case
  proof (cases "?t < nutrs h")
    case True
    from free_tag_found [OF True] have "\<not> bit (lrb_in_use h) ?t" by simp
    with Nil True show ?thesis by (auto simp: dev_tag_round_nil)
  next
    case False
    with Nil show ?thesis by (auto simp: dev_tag_round_nil)
  qed
next
  case (Cons f others)
  let ?w = "lrb_in_use h"
  let ?t = "find_last_bit (NOT ?w) (nutrs h)"
  show ?case
  proof (cases "?t < nutrs h")
    case False
    with Cons.prems have "r = None" "h' = h" by (simp_all add: dev_tag_round_cons)
    with False show ?thesis by (intro exI [of _ 0]) simp
  next
    case l: True
    show ?thesis
    proof (cases "bit (f ?w) ?t")
      case False
      with Cons.prems l have "r = Some ?t" "h' = h\<lparr>lrb_in_use := set_bit ?t (f ?w)\<rparr>"
        by (simp_all add: dev_tag_round_cons)
      with False l show ?thesis by (intro exI [of _ 0]) simp
    next
      case True
      then have same: "set_bit ?t (f ?w) = f ?w" by (rule set_bit_taken)
      define h1 where "h1 = h\<lparr>lrb_in_use := f ?w\<rparr>"
      from Cons.prems l True same have "ufshcd_get_dev_cmd_tag others h1 = Some (r, h')"
        by (simp add: dev_tag_round_cons h1_def)
      from Cons.IH [OF this] obtain k where k: "k \<le> length others"
        and p: "case r of
              Some tag \<Rightarrow> tag = find_last_bit (NOT (fold (\<lambda>f. f) (take k others) (f ?w))) (nutrs h) \<and>
                tag < nutrs h \<and>
                \<not> bit (if k < length others
                        then (others ! k) (fold (\<lambda>f. f) (take k others) (f ?w))
                        else fold (\<lambda>f. f) (take k others) (f ?w)) tag \<and>
                h' = h\<lparr>lrb_in_use := set_bit tag
                       (if k < length others
                        then (others ! k) (fold (\<lambda>f. f) (take k others) (f ?w))
                        else fold (\<lambda>f. f) (take k others) (f ?w))\<rparr>
            | None \<Rightarrow> \<not> find_last_bit (NOT (fold (\<lambda>f. f) (take k others) (f ?w))) (nutrs h) < nutrs h \<and>
                      h' = h\<lparr>lrb_in_use := fold (\<lambda>f. f) (take k others) (f ?w)\<rparr>"
        by (auto simp: h1_def cong: option.case_cong)
      from k p show ?thesis
        by (intro exI [of _ "Suc k"]) (auto split: option.splits if_splits)
    qed
  qed
qed

lemma get_dev_cmd_tag_under_interference:
  assumes n: "nutrs h \<le> 64"
    and g: "ufshcd_get_dev_cmd_tag others h = Some (Some tag, h')"
  shows "\<exists>k\<le>length others. \<exists>w w'.
           w = fold (\<lambda>f. f) (take k others) (lrb_in_use h) \<and>
           w' = (if k < length others then (others ! k) w else w) \<and>
           tag = find_last_bit (NOT w) (nutrs h) \<and>
           \<not> bit w tag \<and> (\<forall>t. tag < t \<and> t < nutrs h \<longrightarrow> bit w t) \<and>
           \<not> bit w' tag \<and> h' = h\<lparr>lrb_in_use := set_bit tag w'\<rparr>"
proof -
  from get_dev_cmd_tag_trace [OF g] obtain k where k: "k \<le> length others"
    and t: "tag = find_last_bit (NOT (fold (\<lambda>f. f) (take k others) (lrb_in_use h))) (nutrs h)"
    and l: "tag < nutrs h"
    and c: "\<not> bit (if k < length others
                    then (others ! k) (fold (\<lambda>f. f) (take k others) (lrb_in_use h))
                    else fold (\<lambda>f. f) (take k others) (lrb_in_use h)) tag"
    and h': "h' = h\<lparr>lrb_in_use := set_bit tag
                    (if k < length others
                     then (others ! k) (fold (\<lambda>f. f) (take k others) (lrb_in_use h))
                     else fold (\<lambda>f. f) (take k others) (lrb_in_use h))\<rparr>"
    by auto
  define w where "w = fold (\<lambda>f. f) (take k others) (lrb_in_use h)"
  from find_last_bit_found [of "NOT w" "nutrs h"] t l
  have a: "bit (NOT w) tag"
    and b: "\<forall>t. tag < t \<and> t < nutrs h \<longrightarrow> \<not> bit (NOT w) t"
    by (auto simp: w_def)
  from a have f: "\<not> bit w tag" by (simp add: bit_not_iff)
  from b n have hi: "\<forall>t. tag < t \<and> t < nutrs h \<longrightarrow> bit w t"
    by (auto simp: bit_not_iff)
  from k t c h' f hi show ?thesis
    unfolding w_def by blast
qed

lemma get_dev_cmd_tag_none_under_interference:
  assumes n: "nutrs h \<le> 64"
    and g: "ufshcd_get_dev_cmd_tag others h = Some (None, h')"
  shows "\<exists>k\<le>length others.
           \<forall>t<nutrs h. bit (fold (\<lambda>f. f) (take k others) (lrb_in_use h)) t"
proof -
  from get_dev_cmd_tag_trace [OF g] obtain k where k: "k \<le> length others"
    and f: "\<not> find_last_bit (NOT (fold (\<lambda>f. f) (take k others) (lrb_in_use h))) (nutrs h)
              < nutrs h"
    by auto
  from find_last_bit_none [OF f] n
  have "\<forall>t<nutrs h. bit (fold (\<lambda>f. f) (take k others) (lrb_in_use h)) t"
    by (auto simp: bit_not_iff)
  with k show ?thesis by blast
qed

lemma get_dev_cmd_tag_retry:
  assumes "find_last_bit (NOT (lrb_in_use h)) (nutrs h) < nutrs h"
    and "bit (f (lrb_in_use h)) (find_last_bit (NOT (lrb_in_use h)) (nutrs h))"
  shows "ufshcd_get_dev_cmd_tag (f # rest) h =
           ufshcd_get_dev_cmd_tag rest (h\<lparr>lrb_in_use := f (lrb_in_use h)\<rparr>)"
  using assms by (simp add: dev_tag_round_cons set_bit_taken)

lemma qc_requeue_taken:
  assumes "ufshcd_valid_tag h (cmd_tag c)" and "qc_trylock_ok env"
    and "bit (lrb_in_use h) (nat (cmd_tag c))"
  shows "ufshcd_queuecommand env c h = Some (SCSI_MLQUEUE_HOST_BUSY, h)"
  using assms
  by (simp add: ufshcd_queuecommand_def Let_def test_and_set_bit_lock_def set_bit_taken)


lemma find_last_free_below_31: "find_last_bit (- 2147483649) 32 = 30"
  by code_simp

lemma dev_tag_raced:
  "ufshcd_get_dev_cmd_tag [claim_31] hba_idle =
     Some (Some 30, hba_idle\<lparr>lrb_in_use := 0xC0000000\<rparr>)"
  by (simp add: dev_tag_round_cons dev_tag_round_nil claim_31_def example_defs
      find_last_free_idle find_last_free_below_31 set_bit_eq_or)

lemma one_cmd_taken:
  "nutrs hba_one_cmd \<le> 64"
  "ufshcd_valid_tag hba_one_cmd (cmd_tag cmd7) \<and> qc_trylock_ok qc_ok \<and>
   bit (lrb_in_use hba_one_cmd) (nat (cmd_tag cmd7))"
  by (simp_all add: example_defs ufshcd_valid_tag_def)


text \<open>
  Claim C9, as the code has it. On an adapter with at most 64 slots
  \<open>ufshcd_get_dev_cmd_tag\<close> always returns, whatever other CPUs do to the bitmap between
  its reads and its test-and-set operations (\<open>others\<close>, one function for each round of
  the loop).
  \<^item> The tag it returns is below \<open>nutrs\<close> and claimed in the bitmap. It comes from one
    round \<open>k\<close> of the loop: it is the highest free tag of the bitmap \<open>w\<close> that this round
    read, its bit was still free in the bitmap \<open>w'\<close> on which the round ran
    \<open>test_and_set_bit_lock\<close>, and the bitmap afterwards is \<open>w'\<close> with that one bit set.
  \<^item> A round whose tag has been taken between the read and the test-and-set claims
    nothing, and the loop goes on with the bitmap as the others left it.
  \<^item> No tag is returned only when a round read a bitmap whose tags below \<open>nutrs\<close> are
    all taken.
  \<^item> The data path does not choose a tag: a submission that issues the command has
    claimed the tag that the block layer gave the request, \<open>cmd->request->tag\<close>, which
    was free, and has bound the command to that slot; when that tag is taken the
    submission returns \<open>SCSI_MLQUEUE_HOST_BUSY\<close>, for the command to be requeued, and
    changes nothing.
\<close>

theorem tag_allocation_order:
  assumes n: "nutrs h \<le> 64"
  shows "(\<exists>r. ufshcd_get_dev_cmd_tag others h = Some r) \<and>
         (\<forall>tag h'. ufshcd_get_dev_cmd_tag others h = Some (Some tag, h') \<longrightarrow>
            tag < nutrs h \<and> bit (lrb_in_use h') tag \<and>
            (\<exists>k\<le>length others. \<exists>w w'.
               w = fold (\<lambda>f. f) (take k others) (lrb_in_use h) \<and>
               w' = (if k < length others then (others ! k) w else w) \<and>
               tag = find_last_bit (NOT w) (nutrs h) \<and>
               \<not> bit w tag \<and> (\<forall>t. tag < t \<and> t < nutrs h \<longrightarrow> bit w t) \<and>
               \<not> bit w' tag \<and> h' = h\<lparr>lrb_in_use := set_bit tag w'\<rparr>)) \<and>
         (\<forall>h'. ufshcd_get_dev_cmd_tag others h = Some (None, h') \<longrightarrow>
            (\<exists>k\<le>length others.
               \<forall>t<nutrs h. bit (fold (\<lambda>f. f) (take k others) (lrb_in_use h)) t)) \<and>
         (\<forall>f rest. find_last_bit (NOT (lrb_in_use h)) (nutrs h) < nutrs h \<and>
                   bit (f (lrb_in_use h)) (find_last_bit (NOT (lrb_in_use h)) (nutrs h)) \<longrightarrow>
            ufshcd_get_dev_cmd_tag (f # rest) h =
              ufshcd_get_dev_cmd_tag rest (h\<lparr>lrb_in_use := f (lrb_in_use h)\<rparr>)) \<and>
         (\<forall>tag h'. ufshcd_get_dev_cmd_tag [] h = Some (Some tag, h') \<longrightarrow>
            \<not> bit (lrb_in_use h) tag \<and>
            (\<forall>t. tag < t \<and> t < nutrs h \<longrightarrow> bit (lrb_in_use h) t) \<and>
            h' = h\<lparr>lrb_in_use := set_bit tag (lrb_in_use h)\<rparr>) \<and>
         (\<forall>h'. ufshcd_get_dev_cmd_tag [] h = Some (None, h') \<longrightarrow>
            (\<forall>t<nutrs h. bit (lrb_in_use h) t)) \<and>
         (\<forall>env c h'.
            ufshcd_queuecommand env c h = Some (0, h') \<and>
            (ufshcd_state h = UFSHCD_STATE_OPERATIONAL \<or>
             ufshcd_state h = UFSHCD_STATE_EH_SCHEDULED_NON_FATAL) \<longrightarrow>
            \<not> bit (lrb_in_use h) (nat (cmd_tag c)) \<and>
            lrb_in_use h' = set_bit (nat (cmd_tag c)) (lrb_in_use h) \<and>
            lrb_cmd (lrb h' (nat (cmd_tag c))) = Some c) \<and>
         (\<forall>env c. ufshcd_valid_tag h (cmd_tag c) \<and> qc_trylock_ok env \<and>
                  bit (lrb_in_use h) (nat (cmd_tag c)) \<longrightarrow>
            ufshcd_queuecommand env c h = Some (SCSI_MLQUEUE_HOST_BUSY, h))"
proof -
  have c1: "\<exists>r. ufshcd_get_dev_cmd_tag others h = Some r"
    by (rule get_dev_cmd_tag_returns)
  have c2: "tag < nutrs h \<and> bit (lrb_in_use h') tag \<and>
            (\<exists>k\<le>length others. \<exists>w w'.
               w = fold (\<lambda>f. f) (take k others) (lrb_in_use h) \<and>
               w' = (if k < length others then (others ! k) w else w) \<and>
               tag = find_last_bit (NOT w) (nutrs h) \<and>
               \<not> bit w tag \<and> (\<forall>t. tag < t \<and> t < nutrs h \<longrightarrow> bit w t) \<and>
               \<not> bit w' tag \<and> h' = h\<lparr>lrb_in_use := set_bit tag w'\<rparr>)"
    if "ufshcd_get_dev_cmd_tag others h = Some (Some tag, h')" for tag h'
    using get_dev_cmd_tag_claims [OF that] get_dev_cmd_tag_under_interference [OF n that]
    by (intro conjI) simp_all
  have c3: "\<exists>k\<le>length others.
               \<forall>t<nutrs h. bit (fold (\<lambda>f. f) (take k others) (lrb_in_use h)) t"
    if "ufshcd_get_dev_cmd_tag others h = Some (None, h')" for h'
    using n that by (rule get_dev_cmd_tag_none_under_interference)
  have c4: "ufshcd_get_dev_cmd_tag (f # rest) h =
              ufshcd_get_dev_cmd_tag rest (h\<lparr>lrb_in_use := f (lrb_in_use h)\<rparr>)"
    if "find_last_bit (NOT (lrb_in_use h)) (nutrs h) < nutrs h \<and>
        bit (f (lrb_in_use h)) (find_last_bit (NOT (lrb_in_use h)) (nutrs h))" for f rest
    using that by (intro get_dev_cmd_tag_retry) simp_all
  have c5: "\<not> bit (lrb_in_use h) tag \<and>
            (\<forall>t. tag < t \<and> t < nutrs h \<longrightarrow> bit (lrb_in_use h) t) \<and>
            h' = h\<lparr>lrb_in_use := set_bit tag (lrb_in_use h)\<rparr>"
    if "ufshcd_get_dev_cmd_tag [] h = Some (Some tag, h')" for tag h'
    using get_dev_cmd_tag_highest [OF n that] by simp
  have c6: "\<forall>t<nutrs h. bit (lrb_in_use h) t"
    if "ufshcd_get_dev_cmd_tag [] h = Some (None, h')" for h'
    using n that by (rule get_dev_cmd_tag_full)
  have c7: "\<not> bit (lrb_in_use h) (nat (cmd_tag c)) \<and>
            lrb_in_use h' = set_bit (nat (cmd_tag c)) (lrb_in_use h) \<and>
            lrb_cmd (lrb h' (nat (cmd_tag c))) = Some c"
    if "ufshcd_queuecommand env c h = Some (0, h') \<and>
        (ufshcd_state h = UFSHCD_STATE_OPERATIONAL \<or>
         ufshcd_state h = UFSHCD_STATE_EH_SCHEDULED_NON_FATAL)" for env c h'
    using that by (intro qc_issued_slot [of env c h h']) simp_all
  have c8: "ufshcd_queuecommand env c h = Some (SCSI_MLQUEUE_HOST_BUSY, h)"
    if "ufshcd_valid_tag h (cmd_tag c) \<and> qc_trylock_ok env \<and>
        bit (lrb_in_use h) (nat (cmd_tag c))" for env c
    using that by (intro qc_requeue_taken) simp_all
  show ?thesis
    apply (rule conjI, rule c1)
    apply (rule conjI, (rule allI)+, rule impI, erule c2)
    apply (rule conjI, rule allI, rule impI, erule c3)
    apply (rule conjI, (rule allI)+, rule impI, erule c4)
    apply (rule conjI, (rule allI)+, rule impI, erule c5)
    apply (rule conjI, rule allI, rule impI, erule c6)
    apply (rule conjI, (rule allI)+, rule impI, erule c7)
    apply ((rule allI)+, rule impI, erule c8)
    done
qed

theorem tag_allocation_order_witness:
  "nutrs hba_idle \<le> 64 \<and> nutrs hba_idle = 32 \<and>
   ufshcd_get_dev_cmd_tag [] hba_idle = Some (Some 31, hba_idle\<lparr>lrb_in_use := 0x80000000\<rparr>) \<and>
   \<not> bit (lrb_in_use hba_idle) 31 \<and>
   ufshcd_get_dev_cmd_tag [claim_31] hba_idle =
     Some (Some 30, hba_idle\<lparr>lrb_in_use := 0xC0000000\<rparr>) \<and>
   bit (lrb_in_use (hba_idle\<lparr>lrb_in_use := 0xC0000000\<rparr>)) 30 \<and>
   ufshcd_queuecommand qc_ok cmd7 hba_one_cmd = Some (SCSI_MLQUEUE_HOST_BUSY, hba_one_cmd)"
proof -
  have n: "nutrs hba_idle \<le> 64" "nutrs hba_idle = 32" by (simp_all add: example_defs)
  note T1 = tag_allocation_order [OF n(1), of "[]"]
  note T2 = tag_allocation_order [OF n(1), of "[claim_31]"]
  note T3 = tag_allocation_order [OF one_cmd_taken(1), of "[]"]
  from T1 dev_tag_idle have a: "\<not> bit (lrb_in_use hba_idle) 31" by blast
  from T2 [THEN conjunct2, THEN conjunct1, rule_format, OF dev_tag_raced]
  have b: "bit (lrb_in_use (hba_idle\<lparr>lrb_in_use := 0xC0000000\<rparr>)) 30" by blast
  from T3 one_cmd_taken(2)
  have c: "ufshcd_queuecommand qc_ok cmd7 hba_one_cmd = Some (SCSI_MLQUEUE_HOST_BUSY, hba_one_cmd)"
    by blast
  from n dev_tag_idle dev_tag_raced a b c show ?thesis by blast
qed

text \<open>
  The claim as written says that a data command uses the lowest free tag. On the idle
  adapter, where tag 0 is free, a command that carries tag 3 is issued in slot 3.
\<close>

theorem data_tag_not_lowest_counterexample:
  "\<not> bit (lrb_in_use hba_idle) 0 \<and>
   cmd_tag cmd9 = 3 \<and>
   map_option fst (ufshcd_queuecommand qc_ok cmd9 hba_idle) = Some 0 \<and>
   map_option (lrb_in_use \<circ> snd) (ufshcd_queuecommand qc_ok cmd9 hba_idle) = Some 8 \<and>
   map_option (\<lambda>r. lrb_cmd (lrb (snd r) 3)) (ufshcd_queuecommand qc_ok cmd9 hba_idle) =
     Some (Some cmd9)"
  by (simp add: qc_idle_cmd9) (simp add: example_defs)

subsection \<open>C5: a link-control command that times out\<close>

lemma low_byte_not_ETIMEDOUT: "(x::u32) AND MASK_UIC_COMMAND_RESULT \<noteq> - ETIMEDOUT"
proof
  assume a: "x AND MASK_UIC_COMMAND_RESULT = - ETIMEDOUT"
  have "x AND MASK_UIC_COMMAND_RESULT \<le> MASK_UIC_COMMAND_RESULT"
    by (rule word_and_le1)
  with a show False
    by (simp add: MASK_UIC_COMMAND_RESULT_def ETIMEDOUT_def)
qed

lemma upmcrs_not_ETIMEDOUT: "ufshcd_get_upmcrs hcs \<noteq> - ETIMEDOUT"
proof
  assume a: "ufshcd_get_upmcrs hcs = - ETIMEDOUT"
  have "drop_bit 8 hcs AND 0x7 \<le> (0x7 :: u32)"
    by (rule word_and_le1)
  with a show False
    by (simp add: ufshcd_get_upmcrs_def ETIMEDOUT_def)
qed

lemma ETIMEDOUT_facts: "- ETIMEDOUT \<noteq> (0::cint)" "- ETIMEDOUT \<noteq> (- 1::cint)"
  by (simp_all add: ETIMEDOUT_def)

lemma pwr_ctrl_out_fst: "fst (pwr_ctrl_out env re ret h) = ret"
  by (simp add: pwr_ctrl_out_def Let_def)

lemma pwr_ctrl_check_upmcrs_fst:
  "fst (pwr_ctrl_check_upmcrs env re ret h) =
     (if ufshcd_get_upmcrs (pw_hcs env) \<noteq> PWR_LOCAL
      then (if ufshcd_get_upmcrs (pw_hcs env) \<noteq> PWR_OK
            then ufshcd_get_upmcrs (pw_hcs env) else - 1)
      else ret)"
  by (simp add: pwr_ctrl_check_upmcrs_def Let_def pwr_ctrl_out_fst)

lemma uic_cmd_compl_marks_inactive:
  assumes "irq_status q AND UIC_COMMAND_COMPL \<noteq> 0" "active_uic_cmd h" "\<not> uic_async_done h"
  shows "\<not> cmd_active (uic_cmd (snd (ufshcd_uic_cmd_compl q h)))"
  using assms by (simp add: ufshcd_uic_cmd_compl_def Let_def)

lemma uic_pwr_compl_marks_inactive:
  assumes "irq_status q AND UFSHCD_UIC_PWR_MASK \<noteq> 0" "active_uic_cmd h" "uic_async_done h"
  shows "\<not> cmd_active (uic_cmd (snd (ufshcd_uic_cmd_compl q h)))"
  using assms by (simp add: ufshcd_uic_cmd_compl_def Let_def)


text \<open>
  Claim C5. Let the wait of \<open>ufshcd_wait_for_uic_cmd\<close> time out (no interrupt has
  completed the command while the caller slept). If an interrupt handled after the
  time-out has marked the command inactive, the function returns the result byte that
  the interrupt stored in \<open>argument2\<close>, which is never \<open>-ETIMEDOUT\<close>; otherwise it
  returns \<open>-ETIMEDOUT\<close>. Likewise for \<open>ufshcd_uic_pwr_ctrl\<close>: when the wait on
  \<open>uic_async_done\<close> times out and the command has been marked inactive in the
  meantime, the function goes on to read the power-mode change status and returns what
  that status says (0 for \<open>PWR_LOCAL\<close>), never \<open>-ETIMEDOUT\<close>; otherwise it returns
  \<open>-ETIMEDOUT\<close>. The flag is cleared by the completion handler
  \<open>ufshcd_uic_cmd_compl\<close>: by the command-completion interrupt when no power-mode
  completion is awaited, and by the power-mode interrupts when one is.
\<close>

theorem uic_timeout_salvage:
  fixes hw h hq :: ufs_hba and in_time late :: "uic_irq list"
    and env :: pwr_env and c :: uic_command and q :: uic_irq
  defines "w1 \<equiv> run_uic_irqs in_time hw"
  defines "w2 \<equiv> run_uic_irqs late w1"
  defines "s \<equiv> pwr_ctrl_issue env c h"
  defines "p1 \<equiv> run_uic_irqs (pw_in_time env) (snd s)"
  defines "p2 \<equiv> run_uic_irqs (pw_late env) p1"
  defines "upmcrs \<equiv> ufshcd_get_upmcrs (pw_hcs env)"
  shows "(\<not> uic_done (uic_cmd w1) \<and> \<not> cmd_active (uic_cmd w2) \<longrightarrow>
            fst (ufshcd_wait_for_uic_cmd in_time late hw) =
              argument2 (uic_cmd w2) AND MASK_UIC_COMMAND_RESULT \<and>
            fst (ufshcd_wait_for_uic_cmd in_time late hw) \<noteq> - ETIMEDOUT) \<and>
         (\<not> uic_done (uic_cmd w1) \<and> cmd_active (uic_cmd w2) \<longrightarrow>
            fst (ufshcd_wait_for_uic_cmd in_time late hw) = - ETIMEDOUT) \<and>
         (uic_link_state h \<noteq> UIC_LINK_BROKEN_STATE \<and> fst s = 0 \<and>
          \<not> uic_async_completed p1 \<and> \<not> cmd_active (uic_cmd p2) \<longrightarrow>
            fst (ufshcd_uic_pwr_ctrl env c h) =
              (if upmcrs \<noteq> PWR_LOCAL then (if upmcrs \<noteq> PWR_OK then upmcrs else - 1) else 0) \<and>
            fst (ufshcd_uic_pwr_ctrl env c h) \<noteq> - ETIMEDOUT) \<and>
         (uic_link_state h \<noteq> UIC_LINK_BROKEN_STATE \<and> fst s = 0 \<and>
          \<not> uic_async_completed p1 \<and> cmd_active (uic_cmd p2) \<longrightarrow>
            fst (ufshcd_uic_pwr_ctrl env c h) = - ETIMEDOUT) \<and>
         (irq_status q AND UIC_COMMAND_COMPL \<noteq> 0 \<and> active_uic_cmd hq \<and>
          \<not> uic_async_done hq \<longrightarrow>
            \<not> cmd_active (uic_cmd (snd (ufshcd_uic_cmd_compl q hq)))) \<and>
         (irq_status q AND UFSHCD_UIC_PWR_MASK \<noteq> 0 \<and> active_uic_cmd hq \<and>
          uic_async_done hq \<longrightarrow>
            \<not> cmd_active (uic_cmd (snd (ufshcd_uic_cmd_compl q hq))))"
proof -
  have A: "fst (ufshcd_wait_for_uic_cmd in_time late hw) =
              argument2 (uic_cmd w2) AND MASK_UIC_COMMAND_RESULT \<and>
            fst (ufshcd_wait_for_uic_cmd in_time late hw) \<noteq> - ETIMEDOUT"
    if "\<not> uic_done (uic_cmd w1) \<and> \<not> cmd_active (uic_cmd w2)"
    using that low_byte_not_ETIMEDOUT
    by (simp add: ufshcd_wait_for_uic_cmd_def Let_def w1_def w2_def)
  have B: "fst (ufshcd_wait_for_uic_cmd in_time late hw) = - ETIMEDOUT"
    if "\<not> uic_done (uic_cmd w1) \<and> cmd_active (uic_cmd w2)"
    using that by (simp add: ufshcd_wait_for_uic_cmd_def Let_def w1_def w2_def)
  have C: "fst (ufshcd_uic_pwr_ctrl env c h) =
              (if upmcrs \<noteq> PWR_LOCAL then (if upmcrs \<noteq> PWR_OK then upmcrs else - 1) else 0) \<and>
            fst (ufshcd_uic_pwr_ctrl env c h) \<noteq> - ETIMEDOUT"
    if "uic_link_state h \<noteq> UIC_LINK_BROKEN_STATE \<and> fst s = 0 \<and>
          \<not> uic_async_completed p1 \<and> \<not> cmd_active (uic_cmd p2)"
    using that upmcrs_not_ETIMEDOUT [of "pw_hcs env"] ETIMEDOUT_facts
    by (simp add: ufshcd_uic_pwr_ctrl_def Let_def s_def p1_def p2_def upmcrs_def
        pwr_ctrl_check_upmcrs_fst)
  have D: "fst (ufshcd_uic_pwr_ctrl env c h) = - ETIMEDOUT"
    if "uic_link_state h \<noteq> UIC_LINK_BROKEN_STATE \<and> fst s = 0 \<and>
          \<not> uic_async_completed p1 \<and> cmd_active (uic_cmd p2)"
    using that
    by (simp add: ufshcd_uic_pwr_ctrl_def Let_def s_def p1_def p2_def pwr_ctrl_out_fst)
  from A B C D uic_cmd_compl_marks_inactive [of q hq] uic_pwr_compl_marks_inactive [of q hq]
  show ?thesis by blast
qed

lemmas uic_defs =
  ufshcd_wait_for_uic_cmd_def run_uic_irqs_def ufshcd_uic_cmd_compl_def
  uu_ufshcd_send_uic_cmd_def pwr_ctrl_issue_def ufshcd_uic_pwr_ctrl_def
  pwr_ctrl_check_upmcrs_def pwr_ctrl_out_def ufshcd_get_upmcrs_def
  ufshcd_schedule_eh_work_def

lemma wait_late_eval:
  "\<not> uic_done (uic_cmd (run_uic_irqs [] hba_uic_sent))"
  "\<not> cmd_active (uic_cmd (run_uic_irqs [irq_uccs] (run_uic_irqs [] hba_uic_sent)))"
  "argument2 (uic_cmd (run_uic_irqs [irq_uccs] (run_uic_irqs [] hba_uic_sent))) = 0"
  "argument3 (uic_cmd (run_uic_irqs [irq_uccs] (run_uic_irqs [] hba_uic_sent))) = 5"
  by (simp_all add: uic_defs example_defs const_defs Let_def emit_def)

lemma pwr_late_eval:
  "uic_link_state hba_idle \<noteq> UIC_LINK_BROKEN_STATE"
  "fst (pwr_ctrl_issue pw_late_irq uic_hibern8_enter hba_idle) = 0"
  "\<not> uic_async_completed (run_uic_irqs (pw_in_time pw_late_irq)
        (snd (pwr_ctrl_issue pw_late_irq uic_hibern8_enter hba_idle)))"
  "\<not> cmd_active (uic_cmd (run_uic_irqs (pw_late pw_late_irq)
        (run_uic_irqs (pw_in_time pw_late_irq)
           (snd (pwr_ctrl_issue pw_late_irq uic_hibern8_enter hba_idle)))))"
  "ufshcd_get_upmcrs (pw_hcs pw_late_irq) = PWR_LOCAL"
  by (simp_all add: uic_defs example_defs const_defs Let_def emit_def)

theorem uic_timeout_salvage_witness:
  "fst (ufshcd_wait_for_uic_cmd [] [irq_uccs] hba_uic_sent) = 0 \<and>
   fst (ufshcd_wait_for_uic_cmd [] [] hba_uic_sent) = - ETIMEDOUT \<and>
   fst (ufshcd_uic_pwr_ctrl pw_late_irq uic_hibern8_enter hba_idle) = 0 \<and>
   fst (ufshcd_uic_pwr_ctrl (pw_late_irq\<lparr>pw_late := []\<rparr>) uic_hibern8_enter hba_idle) = - ETIMEDOUT"
proof -
  have t: "cmd_active (uic_cmd (run_uic_irqs [] (run_uic_irqs [] hba_uic_sent)))"
    "\<not> uic_async_completed (run_uic_irqs (pw_in_time (pw_late_irq\<lparr>pw_late := []\<rparr>))
        (snd (pwr_ctrl_issue (pw_late_irq\<lparr>pw_late := []\<rparr>) uic_hibern8_enter hba_idle)))"
    "cmd_active (uic_cmd (run_uic_irqs (pw_late (pw_late_irq\<lparr>pw_late := []\<rparr>))
        (run_uic_irqs (pw_in_time (pw_late_irq\<lparr>pw_late := []\<rparr>))
           (snd (pwr_ctrl_issue (pw_late_irq\<lparr>pw_late := []\<rparr>) uic_hibern8_enter hba_idle)))))"
    "fst (pwr_ctrl_issue (pw_late_irq\<lparr>pw_late := []\<rparr>) uic_hibern8_enter hba_idle) = 0"
    by (simp_all add: uic_defs example_defs const_defs Let_def emit_def)
  from uic_timeout_salvage [where in_time = "[]" and hw = hba_uic_sent and late = "[irq_uccs]"
      and env = pw_late_irq and c = uic_hibern8_enter and h = hba_idle]
    uic_timeout_salvage [where in_time = "[]" and hw = hba_uic_sent and late = "[]"
      and env = "pw_late_irq\<lparr>pw_late := []\<rparr>" and c = uic_hibern8_enter and h = hba_idle]
    wait_late_eval pwr_late_eval t
  show ?thesis by simp
qed

subsection \<open>C6: order and rollback of a scale operation\<close>



lemma clk_target_None_down:
  "clk_target False c = None \<Longrightarrow>
     \<not> clk_present c \<or> min_freq c = 0 \<or> curr_freq c = min_freq c \<or> clk_is_ice_hw_ctl c"
  by (auto simp: clk_target_def split: if_splits)


























lemmas scale_defs =
  devfreq_scale_body_def ufshcd_scale_gear_def ufshcd_config_pwr_mode_def
  ufshcd_change_power_mode_def same_pwr_mode_def ufshcd_scale_clks_def
  ufshcd_set_clk_freq_def clk_target_def ufshcd_clock_scaling_unprepare_def
  ufshcd_clock_scaling_prepare_def ufshcd_devfreq_scale_def






lemma devfreq_scale_eval:
  "map_option fst (ufshcd_devfreq_scale se_ok False hba_idle) = Some 0"
  "map_option (evlog \<circ> snd) (ufshcd_devfreq_scale se_ok False hba_idle) =
     Some [Ev_down_write, Ev_scsi_block_requests,
      Ev_pwr_mode_change pwr_g1, Ev_clk_scale_notify False True, Ev_clk_set_rate 0 50000000,
      Ev_clk_scale_notify False False, Ev_up_write, Ev_wb_ctrl False, Ev_down_write,
      Ev_up_write, Ev_scsi_unblock_requests, Ev_queue_gate_work]"
  by (simp_all add: scale_defs example_defs const_defs Let_def emit_def ufshcd_hold_def
      ufshcd_hold_start.simps ufshcd_release_def uu_ufshcd_release_def)



subsection \<open>C1: one run of the completion handler\<close>

lemma scsi_cmd_status_frame:
  "lrb (snd (ufshcd_scsi_cmd_status l s h)) = lrb h"
  "lrb_in_use (snd (ufshcd_scsi_cmd_status l s h)) = lrb_in_use h"
  "quirk_broken_ocs_fatal_error (snd (ufshcd_scsi_cmd_status l s h)) =
     quirk_broken_ocs_fatal_error h"
  "dev_cmd_complete (snd (ufshcd_scsi_cmd_status l s h)) = dev_cmd_complete h"
  "dev_cmd_done (snd (ufshcd_scsi_cmd_status l s h)) = dev_cmd_done h"
  "clkscaling_supported (snd (ufshcd_scsi_cmd_status l s h)) = clkscaling_supported h"
  "scsi_dones (evlog (snd (ufshcd_scsi_cmd_status l s h))) = scsi_dones (evlog h)"
  by (simp_all add: ufshcd_scsi_cmd_status_def ufshcd_copy_sense_data_def scsi_dones_append)

lemma rsp_status_frame:
  "lrb (snd (ufshcd_transfer_rsp_status h l)) = lrb h"
  "lrb_in_use (snd (ufshcd_transfer_rsp_status h l)) = lrb_in_use h"
  "quirk_broken_ocs_fatal_error (snd (ufshcd_transfer_rsp_status h l)) =
     quirk_broken_ocs_fatal_error h"
  "dev_cmd_complete (snd (ufshcd_transfer_rsp_status h l)) = dev_cmd_complete h"
  "dev_cmd_done (snd (ufshcd_transfer_rsp_status h l)) = dev_cmd_done h"
  "clkscaling_supported (snd (ufshcd_transfer_rsp_status h l)) = clkscaling_supported h"
  "scsi_dones (evlog (snd (ufshcd_transfer_rsp_status h l))) = scsi_dones (evlog h)"
  by (simp_all add: ufshcd_transfer_rsp_status_def Let_def scsi_cmd_status_frame
      scsi_dones_append)


lemma release_frame2:
  "quirk_broken_ocs_fatal_error (uu_ufshcd_release h) = quirk_broken_ocs_fatal_error h"
  "dev_cmd_complete (uu_ufshcd_release h) = dev_cmd_complete h"
  "dev_cmd_done (uu_ufshcd_release h) = dev_cmd_done h"
  "clkscaling_supported (uu_ufshcd_release h) = clkscaling_supported h"
  by (simp_all add: uu_ufshcd_release_def Let_def)




lemma compl_one_frame:
  "quirk_broken_ocs_fatal_error (compl_one i h) = quirk_broken_ocs_fatal_error h"
  "dev_cmd_complete (compl_one i h) = dev_cmd_complete h"
  by (simp_all add: compl_one_def Let_def release_frame2 rsp_status_frame
      split: option.splits)



lemma fold_compl_one_frame:
  "quirk_broken_ocs_fatal_error (fold compl_one is h) = quirk_broken_ocs_fatal_error h \<and>
   dev_cmd_complete (fold compl_one is h) = dev_cmd_complete h"
  by (induction "is" arbitrary: h) (simp_all add: compl_one_frame)























subsection \<open>C3: no tag has two holders\<close>

lemma set_bit_same: "bit (set_bit k (w :: ulong)) k \<longleftrightarrow> k < 64"
  by (auto simp add: bit_set_bit_iff dest: bit_imp_le_length)

lemma set_bit_already: "bit (w :: ulong) k \<Longrightarrow> set_bit k w = w"
  by (rule bit_eqI) (auto simp add: bit_set_bit_iff)

lemma tag_invD:
  assumes "tag_inv n s"
  shows "pcs s t = Dev_chosen tag \<Longrightarrow> tag < n"
    and "pcs s t = Holds tag \<Longrightarrow> tag < n"
    and "pcs s t = Holds tag \<Longrightarrow> bit (bitmap s) tag"
    and "pcs s t = Holds tag \<Longrightarrow> pcs s t' = Holds tag \<Longrightarrow> t = t'"
  using assms unfolding tag_inv_def by blast+

lemma tag_invI:
  assumes "\<And>t tag. pcs s t = Dev_chosen tag \<Longrightarrow> tag < n"
    and "\<And>t tag. pcs s t = Holds tag \<Longrightarrow> tag < n \<and> bit (bitmap s) tag"
    and "\<And>t t' tag. pcs s t = Holds tag \<Longrightarrow> pcs s t' = Holds tag \<Longrightarrow> t = t'"
  shows "tag_inv n s"
  using assms unfolding tag_inv_def by blast

lemma inv_acquire:
  assumes i: "tag_inv n s" and lt: "tag < n" and n: "n \<le> 64"
    and free: "\<not> bit (bitmap s) tag"
  shows "tag_inv n (s\<lparr>bitmap := set_bit tag (bitmap s), pcs := (pcs s)(t := Holds tag)\<rparr>)"
proof (rule tag_invI)
  fix u k
  assume "pcs (s\<lparr>bitmap := set_bit tag (bitmap s), pcs := (pcs s)(t := Holds tag)\<rparr>) u =
          Dev_chosen k"
  then have "pcs s u = Dev_chosen k" by (cases "u = t") simp_all
  with i show "k < n" by (rule tag_invD(1))
next
  fix u k
  assume a: "pcs (s\<lparr>bitmap := set_bit tag (bitmap s), pcs := (pcs s)(t := Holds tag)\<rparr>) u =
          Holds k"
  show "k < n \<and>
        bit (bitmap (s\<lparr>bitmap := set_bit tag (bitmap s), pcs := (pcs s)(t := Holds tag)\<rparr>)) k"
  proof (cases "u = t")
    case True
    with a have "k = tag" by simp
    with lt n show ?thesis by (simp add: bit_set_bit_iff)
  next
    case False
    with a have "pcs s u = Holds k" by simp
    from tag_invD(2) [OF i this] tag_invD(3) [OF i this] show ?thesis
      by (simp add: bit_set_bit_iff)
  qed
next
  fix u u' k
  assume a: "pcs (s\<lparr>bitmap := set_bit tag (bitmap s), pcs := (pcs s)(t := Holds tag)\<rparr>) u =
          Holds k"
    and b: "pcs (s\<lparr>bitmap := set_bit tag (bitmap s), pcs := (pcs s)(t := Holds tag)\<rparr>) u' =
          Holds k"
  have other: "k \<noteq> tag" if "pcs s v = Holds k" for v
    using tag_invD(3) [OF i that] free by blast
  show "u = u'"
  proof (cases "u = t")
    case True
    with a have k: "k = tag" by simp
    show ?thesis
    proof (cases "u' = t")
      case True
      with \<open>u = t\<close> show ?thesis by simp
    next
      case False
      with b have "pcs s u' = Holds k" by simp
      from other [OF this] k show ?thesis by simp
    qed
  next
    case False
    with a have pa: "pcs s u = Holds k" by simp
    show ?thesis
    proof (cases "u' = t")
      case True
      with b have "k = tag" by simp
      with other [OF pa] show ?thesis by simp
    next
      case False
      with b have "pcs s u' = Holds k" by simp
      with i pa show ?thesis by (rule tag_invD(4))
    qed
  qed
qed

lemma inv_forget:
  assumes i: "tag_inv n s" and nh: "\<And>k. pcs s t \<noteq> Holds k" and c: "\<And>k. p = Dev_chosen k \<Longrightarrow> k < n"
    and p: "\<And>k. p \<noteq> Holds k"
  shows "tag_inv n (s\<lparr>pcs := (pcs s)(t := p)\<rparr>)"
proof (rule tag_invI)
  fix u k
  assume "pcs (s\<lparr>pcs := (pcs s)(t := p)\<rparr>) u = Dev_chosen k"
  then show "k < n"
    using c tag_invD(1) [OF i] by (cases "u = t") simp_all
next
  fix u k
  assume "pcs (s\<lparr>pcs := (pcs s)(t := p)\<rparr>) u = Holds k"
  then have "pcs s u = Holds k" using p by (cases "u = t") simp_all
  from tag_invD(2) [OF i this] tag_invD(3) [OF i this]
  show "k < n \<and> bit (bitmap (s\<lparr>pcs := (pcs s)(t := p)\<rparr>)) k" by simp
next
  fix u u' k
  assume "pcs (s\<lparr>pcs := (pcs s)(t := p)\<rparr>) u = Holds k"
    and "pcs (s\<lparr>pcs := (pcs s)(t := p)\<rparr>) u' = Holds k"
  then have "pcs s u = Holds k \<and> pcs s u' = Holds k"
    using p by (auto split: if_splits)
  then have "pcs s u = Holds k" "pcs s u' = Holds k" by simp_all
  with i show "u = u'" by (rule tag_invD(4))
qed

lemma inv_release:
  assumes i: "tag_inv n s" and h: "pcs s t = Holds tag"
  shows "tag_inv n (s\<lparr>bitmap := unset_bit tag (bitmap s), pcs := (pcs s)(t := Idle)\<rparr>)"
proof (rule tag_invI)
  fix u k
  assume "pcs (s\<lparr>bitmap := unset_bit tag (bitmap s), pcs := (pcs s)(t := Idle)\<rparr>) u =
          Dev_chosen k"
  then have "pcs s u = Dev_chosen k" by (cases "u = t") simp_all
  with i show "k < n" by (rule tag_invD(1))
next
  fix u k
  assume a: "pcs (s\<lparr>bitmap := unset_bit tag (bitmap s), pcs := (pcs s)(t := Idle)\<rparr>) u =
          Holds k"
  then have ne: "u \<noteq> t" by (cases "u = t") simp_all
  with a have pu: "pcs s u = Holds k" by simp
  have "k \<noteq> tag"
  proof
    assume "k = tag"
    with pu have "pcs s u = Holds tag" by simp
    from tag_invD(4) [OF i this h] ne show False by simp
  qed
  with tag_invD(2) [OF i pu] tag_invD(3) [OF i pu]
  show "k < n \<and>
        bit (bitmap (s\<lparr>bitmap := unset_bit tag (bitmap s), pcs := (pcs s)(t := Idle)\<rparr>)) k"
    by (simp add: bit_unset_bit_iff)
next
  fix u u' k
  assume "pcs (s\<lparr>bitmap := unset_bit tag (bitmap s), pcs := (pcs s)(t := Idle)\<rparr>) u = Holds k"
    and "pcs (s\<lparr>bitmap := unset_bit tag (bitmap s), pcs := (pcs s)(t := Idle)\<rparr>) u' = Holds k"
  then have "pcs s u = Holds k \<and> pcs s u' = Holds k"
    by (simp split: if_splits)
  then have "pcs s u = Holds k" "pcs s u' = Holds k" by simp_all
  with i show "u = u'" by (rule tag_invD(4))
qed

lemma tag_step_inv:
  assumes n: "n \<le> 64" and i: "tag_inv n s"
  shows "tag_inv n (tag_step n a s)"
proof (cases a)
  case (Data_tas t tag)
  show ?thesis
  proof (cases "pcs s t = Idle \<and> tag < n")
    case False
    with Data_tas i show ?thesis by auto
  next
    case True
    show ?thesis
    proof (cases "bit (bitmap s) tag")
      case b: True
      then have "set_bit tag (bitmap s) = bitmap s" by (rule set_bit_already)
      with Data_tas True b i show ?thesis
        by (simp add: test_and_set_bit_lock_def)
    next
      case b: False
      from True have "tag < n" by simp
      from inv_acquire [OF i this n b, of t] Data_tas True b show ?thesis
        by (simp add: test_and_set_bit_lock_def)
    qed
  qed
next
  case (Dev_read t)
  show ?thesis
  proof (cases "pcs s t = Idle \<and> find_last_bit (NOT (bitmap s)) n < n")
    case False
    with Dev_read i show ?thesis by (auto simp add: Let_def)
  next
    case True
    have "tag_inv n (s\<lparr>pcs := (pcs s)(t := Dev_chosen (find_last_bit (NOT (bitmap s)) n))\<rparr>)"
      using True by (intro inv_forget [OF i]) simp_all
    with Dev_read True show ?thesis by (simp add: Let_def)
  qed
next
  case (Dev_tas t)
  show ?thesis
  proof (cases "pcs s t")
    case Idle
    with Dev_tas i show ?thesis by simp
  next
    case (Holds tag)
    with Dev_tas i show ?thesis by simp
  next
    case (Dev_chosen tag)
    with i have lt: "tag < n" by (rule tag_invD(1))
    show ?thesis
    proof (cases "bit (bitmap s) tag")
      case b: True
      then have e: "set_bit tag (bitmap s) = bitmap s" by (rule set_bit_already)
      have "tag_inv n (s\<lparr>pcs := (pcs s)(t := Idle)\<rparr>)"
        using Dev_chosen by (intro inv_forget [OF i]) simp_all
      with Dev_tas Dev_chosen b e show ?thesis
        by (simp add: test_and_set_bit_lock_def)
    next
      case b: False
      from inv_acquire [OF i lt n b, of t] Dev_tas Dev_chosen b show ?thesis
        by (simp add: test_and_set_bit_lock_def)
    qed
  qed
next
  case (Release t)
  show ?thesis
  proof (cases "pcs s t")
    case Idle
    with Release i show ?thesis by simp
  next
    case (Dev_chosen tag)
    with Release i show ?thesis by simp
  next
    case (Holds tag)
    from inv_release [OF i this] Release Holds show ?thesis
      by (simp add: clear_bit_unlock_def)
  qed
qed

lemma tag_run_inv:
  "n \<le> 64 \<Longrightarrow> tag_inv n s \<Longrightarrow> tag_inv n (tag_run n as s)"
  unfolding tag_run_def by (induction as arbitrary: s) (simp_all add: tag_step_inv)

lemma tag_inv_idle: "\<forall>t. pcs s t = Idle \<Longrightarrow> tag_inv n s"
  by (rule tag_invI) simp_all

lemma data_tas_taken:
  "pcs s t = Idle \<and> tag < n \<and> bit (bitmap s) tag \<Longrightarrow> tag_step n (Data_tas t tag) s = s"
  by (simp add: test_and_set_bit_lock_def set_bit_already)

lemma dev_tas_taken:
  "pcs s t = Dev_chosen tag \<and> bit (bitmap s) tag \<Longrightarrow>
   tag_step n (Dev_tas t) s = s\<lparr>pcs := (pcs s)(t := Idle)\<rparr>"
  by (simp add: test_and_set_bit_lock_def set_bit_already)


lemma dev_steps_alone:
  assumes "pcs s t = Idle" and "bitmap s = lrb_in_use h"
  shows "\<exists>r h'. ufshcd_get_dev_cmd_tag [] h = Some (r, h') \<and>
           bitmap (tag_run (nutrs h) [Dev_read t, Dev_tas t] s) = lrb_in_use h' \<and>
           pcs (tag_run (nutrs h) [Dev_read t, Dev_tas t] s) t =
             (case r of Some tag \<Rightarrow> Holds tag | None \<Rightarrow> Idle)"
proof (cases "find_last_bit (NOT (lrb_in_use h)) (nutrs h) < nutrs h")
  case True
  from free_tag_found [OF True] True assms show ?thesis
    by (simp add: dev_tag_round_nil tag_run_def Let_def test_and_set_bit_lock_def)
next
  case False
  with assms show ?thesis
    by (simp add: dev_tag_round_nil tag_run_def Let_def)
qed

lemma find_last_free_30: "find_last_bit (- 2147483649) 32 = 30"
  by code_simp

lemma race_eval:
  "bitmap (tag_run 32 race_schedule tag_sys_idle) = 0xC0000000"
  "pcs (tag_run 32 race_schedule tag_sys_idle) 0 = Holds 31"
  "pcs (tag_run 32 race_schedule tag_sys_idle) 1 = Holds 30"
  by (simp_all add: tag_run_def race_schedule_def tag_sys_idle_def Let_def
      test_and_set_bit_lock_def find_last_free_idle find_last_free_30 set_bit_eq_or)


text \<open>
  Claim C3. Start with any bitmap and no holder, on an adapter with at most 64 slots (the
  bitmap is one \<open>unsigned long\<close>), and let submitters run the acquisition of
  \<open>ufshcd_queuecommand\<close>, the acquisition of \<open>ufshcd_get_dev_cmd_tag\<close> and releases in any
  interleaving of their atomic steps. In every state that is reached no tag is held by two
  submitters, and the bit of every held tag is set. A data command that finds its bit set
  changes nothing and is requeued; a device-management submitter that finds the bit of
  its chosen tag set holds nothing and reads the bitmap again.
\<close>

theorem no_double_allocation:
  fixes n :: nat and as :: "tag_action list" and s0 :: tag_sys
  assumes "n \<le> 64" and "\<forall>t. pcs s0 t = Idle"
  defines "s \<equiv> tag_run n as s0"
  shows "(\<forall>t t' tag. pcs s t = Holds tag \<and> pcs s t' = Holds tag \<longrightarrow> t = t') \<and>
         (\<forall>t tag. pcs s t = Holds tag \<longrightarrow> tag < n \<and> bit (bitmap s) tag) \<and>
         (\<forall>t tag. pcs s t = Idle \<and> tag < n \<and> bit (bitmap s) tag \<longrightarrow>
              tag_step n (Data_tas t tag) s = s) \<and>
         (\<forall>t tag. pcs s t = Dev_chosen tag \<and> bit (bitmap s) tag \<longrightarrow>
              tag_step n (Dev_tas t) s = s\<lparr>pcs := (pcs s)(t := Idle)\<rparr>)"
proof -
  from assms(2) have "tag_inv n s0" by (rule tag_inv_idle)
  with assms(1) have i: "tag_inv n s" unfolding s_def by (rule tag_run_inv)
  from tag_invD(4) [OF i] tag_invD(2) [OF i] tag_invD(3) [OF i]
    data_tas_taken [of s _ _ n] dev_tas_taken [of s _ _ n]
  show ?thesis by blast
qed

theorem no_double_allocation_witness:
  "(32 :: nat) \<le> 64 \<and> pcs tag_sys_idle 0 = Idle \<and> pcs tag_sys_idle 1 = Idle \<and>
   pcs (tag_run 32 race_schedule tag_sys_idle) 0 = Holds 31 \<and>
   pcs (tag_run 32 race_schedule tag_sys_idle) 1 = Holds 30 \<and>
   bit (bitmap (tag_run 32 race_schedule tag_sys_idle)) 31 \<and>
   bit (bitmap (tag_run 32 race_schedule tag_sys_idle)) 30"
proof -
  have h1: "(32 :: nat) \<le> 64" by simp
  have h2: "\<forall>t. pcs tag_sys_idle t = Idle" by (simp add: tag_sys_idle_def)
  note T = no_double_allocation [OF h1 h2, of race_schedule]
  have a: "pcs (tag_run 32 race_schedule tag_sys_idle) 0 = Holds 31"
    and b: "pcs (tag_run 32 race_schedule tag_sys_idle) 1 = Holds 30"
    by (rule race_eval)+
  from T a have "bit (bitmap (tag_run 32 race_schedule tag_sys_idle)) 31" by blast
  moreover from T b have "bit (bitmap (tag_run 32 race_schedule tag_sys_idle)) 30" by blast
  ultimately show ?thesis using h1 h2 a b by blast
qed

subsection \<open>C2: what the gate-off path validates\<close>








end
